(* ===== verification/Prelude.thy ===== *)
theory Prelude
  imports Main "HOL-Library.Word" "HOL-Library.AList"
begin

text \<open>
  The vocabulary every component shares: the machine integers of the Rust sources, byte strings
  and the little-/big-endian codecs of the standard library, saturating arithmetic, \<open>str::split\<close>,
  hash maps as association lists, and a small fault-and-state monad in which the handlers are
  written. Nothing here is specific to one component; the lemmas are declared into \<open>simp\<close> or into
  the collections below so that the component proofs stay short.
\<close>

named_theorems codec_simps "byte codecs: lengths and round trips"
named_theorems dm_simps "hash maps: lookups after updates"
named_theorems srv_simps "the fault-and-state monad"

section \<open>Machine integers and byte strings\<close>

type_synonym u8 = "8 word"
type_synonym u32 = "32 word"
type_synonym u64 = "64 word"
type_synonym u128 = "128 word"
type_synonym bytes = "u8 list"

text \<open>
  A Rust \<open>str\<close> is its UTF-8 bytes; \<open>len()\<close> counts bytes. A \<open>char\<close> of HOL is a byte, so a string
  of HOL stands for the byte sequence. No operation of the modelled code depends on the bytes
  being valid UTF-8 (the frame accessor uses \<open>from_utf8_unchecked\<close>).
\<close>

definition str_bytes :: "string \<Rightarrow> bytes" where
  "str_bytes s = map (\<lambda>c. word_of_nat (of_char c)) s"

definition bytes_str :: "bytes \<Rightarrow> string" where
  "bytes_str bs = map (\<lambda>b. char_of (unat b)) bs"

fun le_enc :: "nat \<Rightarrow> nat \<Rightarrow> bytes" where
  "le_enc 0 v = []"
| "le_enc (Suc k) v = word_of_nat (v mod 256) # le_enc k (v div 256)"

fun le_dec :: "bytes \<Rightarrow> nat" where
  "le_dec [] = 0"
| "le_dec (b # bs) = unat b + 256 * le_dec bs"

definition u32_le :: "u32 \<Rightarrow> bytes" where
  "u32_le w = le_enc 4 (unat w)"

definition u64_le :: "u64 \<Rightarrow> bytes" where
  "u64_le w = le_enc 8 (unat w)"

definition u128_le :: "u128 \<Rightarrow> bytes" where
  "u128_le w = le_enc 16 (unat w)"

definition u32_of_le :: "bytes \<Rightarrow> u32" where
  "u32_of_le bs = word_of_nat (le_dec (take 4 bs))"

definition u64_of_le :: "bytes \<Rightarrow> u64" where
  "u64_of_le bs = word_of_nat (le_dec (take 8 bs))"

definition u128_of_le :: "bytes \<Rightarrow> u128" where
  "u128_of_le bs = word_of_nat (le_dec (take 16 bs))"

text \<open>Overwriting the bytes of a buffer from an offset on, as \<open>ptr::copy_nonoverlapping\<close> does.\<close>

definition write_at :: "nat \<Rightarrow> bytes \<Rightarrow> bytes \<Rightarrow> bytes" where
  "write_at off bs buf = take off buf @ bs @ drop (off + length bs) buf"

text \<open>\<open>saturating_sub\<close> and \<open>saturating_add\<close>.\<close>

definition sat_sub :: "'a::len word \<Rightarrow> 'a word \<Rightarrow> 'a word" where
  "sat_sub a b = (if a \<le> b then 0 else a - b)"

definition sat_add :: "'a::len word \<Rightarrow> 'a word \<Rightarrow> 'a word" where
  "sat_add a b = (if unat a + unat b < 2 ^ LENGTH('a) then a + b else - 1)"

text \<open>\<open>str::split\<close> on a one-byte separator and \<open>[String]::join\<close>.\<close>

fun split_on :: "'a \<Rightarrow> 'a list \<Rightarrow> 'a list list" where
  "split_on c [] = [[]]"
| "split_on c (x # xs) =
     (if x = c then [] # split_on c xs
      else (case split_on c xs of [] \<Rightarrow> [[x]] | p # ps \<Rightarrow> (x # p) # ps))"

fun join_with :: "'a \<Rightarrow> 'a list list \<Rightarrow> 'a list" where
  "join_with c [] = []"
| "join_with c [p] = p"
| "join_with c (p # q # ps) = p @ c # join_with c (q # ps)"

section \<open>Hash maps\<close>

text \<open>
  A \<open>DashMap\<close>, a \<open>HashMap\<close> or a sled tree is an association list with distinct keys. The
  iteration order of the Rust maps is unspecified; it is the order of the list here, and no
  property of the development depends on it.
\<close>

type_synonym ('k, 'v) dmap = "('k \<times> 'v) list"

abbreviation dm_get :: "('k, 'v) dmap \<Rightarrow> 'k \<Rightarrow> 'v option" where
  "dm_get \<equiv> map_of"

abbreviation dm_insert :: "'k \<Rightarrow> 'v \<Rightarrow> ('k, 'v) dmap \<Rightarrow> ('k, 'v) dmap" where
  "dm_insert \<equiv> AList.update"

abbreviation dm_remove :: "'k \<Rightarrow> ('k, 'v) dmap \<Rightarrow> ('k, 'v) dmap" where
  "dm_remove \<equiv> AList.delete"

definition dm_keys :: "('k, 'v) dmap \<Rightarrow> 'k list" where
  "dm_keys m = map fst m"

definition dm_ok :: "('k, 'v) dmap \<Rightarrow> bool" where
  "dm_ok m = distinct (map fst m)"

section \<open>Faults and the state monad of the handlers\<close>

text \<open>
  How a frame access can go wrong. \<open>HeadOutOfBounds\<close> is a header read or write on a buffer shorter
  than the header: a failed \<open>debug_assert!\<close> in debug builds, an out-of-bounds access in release
  builds. \<open>IndexPanic\<close> is a slice index out of range and \<open>DivPanic\<close> a remainder by zero, a panic in
  every build. \<open>AssertPanic\<close> is a \<open>debug_assert!\<close> that only debug builds evaluate.
\<close>

datatype fault = HeadOutOfBounds | IndexPanic | DivPanic | AssertPanic

definition checked_rem :: "nat \<Rightarrow> nat \<Rightarrow> fault + nat" where
  "checked_rem k n = (if n = 0 then Inl DivPanic else Inr (k mod n))"

definition checked_nth :: "'a list \<Rightarrow> nat \<Rightarrow> fault + 'a" where
  "checked_nth xs i = (if i < length xs then Inr (xs ! i) else Inl IndexPanic)"

lemma checked_pick [simp]:
  "xs \<noteq> [] \<Longrightarrow> checked_rem k (length xs) = Inr (k mod length xs)"
  "xs \<noteq> [] \<Longrightarrow> checked_nth xs (k mod length xs) = Inr (xs ! (k mod length xs))"
  by (simp_all add: checked_rem_def checked_nth_def)

definition rbind :: "'e + 'a \<Rightarrow> ('a \<Rightarrow> 'e + 'b) \<Rightarrow> 'e + 'b" where
  "rbind r f = (case r of Inl e \<Rightarrow> Inl e | Inr x \<Rightarrow> f x)"

text \<open>
  A computation that reads and changes a state and may stop with an error. The handlers stop with
  a \<open>fault\<close>, the storage operations with an error of their own.
\<close>

type_synonym ('e, 'w, 'a) sm = "'w \<Rightarrow> ('e + 'a) \<times> 'w"

type_synonym ('w, 'a) srv = "(fault, 'w, 'a) sm"

definition sret :: "'a \<Rightarrow> ('e, 'w, 'a) sm" where
  "sret x w = (Inr x, w)"

definition sbind :: "('e, 'w, 'a) sm \<Rightarrow> ('a \<Rightarrow> ('e, 'w, 'b) sm) \<Rightarrow> ('e, 'w, 'b) sm" where
  "sbind m f w = (case m w of (Inl e, w') \<Rightarrow> (Inl e, w') | (Inr x, w') \<Rightarrow> f x w')"

definition slift :: "'e + 'a \<Rightarrow> ('e, 'w, 'a) sm" where
  "slift r w = (r, w)"

definition sget :: "('w \<Rightarrow> 'a) \<Rightarrow> ('e, 'w, 'a) sm" where
  "sget f w = (Inr (f w), w)"

definition smod :: "('w \<Rightarrow> 'w) \<Rightarrow> ('e, 'w, unit) sm" where
  "smod f w = (Inr (), f w)"

definition srun :: "('w \<Rightarrow> 'a \<times> 'w) \<Rightarrow> ('e, 'w, 'a) sm" where
  "srun f w = (case f w of (x, w') \<Rightarrow> (Inr x, w'))"

text \<open>\<open>for x in xs { ... }\<close> with a body that may stop.\<close>

fun sfor :: "'a list \<Rightarrow> ('a \<Rightarrow> ('e, 'w, unit) sm) \<Rightarrow> ('e, 'w, unit) sm" where
  "sfor [] f = sret ()"
| "sfor (x # xs) f = sbind (f x) (\<lambda>_. sfor xs f)"

section \<open>Byte codecs\<close>

lemma length_le_enc [simp, codec_simps]: "length (le_enc k v) = k"
  by (induction k arbitrary: v) auto

lemma le_dec_le_enc [simp, codec_simps]: "le_dec (le_enc k v) = v mod 256 ^ k"
proof (induction k arbitrary: v)
  case (Suc k)
  have "unat (word_of_nat (v mod 256) :: u8) = v mod 256"
    by (simp add: unat_of_nat)
  with Suc.IH[of "v div 256"] show ?case
    by (simp add: mod_mult2_eq)
qed simp

lemma le_dec_bound: "le_dec bs < 256 ^ length bs"
proof (induction bs)
  case (Cons b bs)
  have "unat b < 256" using unsigned_less[of b] by simp
  with Cons show ?case by simp
qed simp

lemma length_u_le [simp, codec_simps]:
  "length (u32_le a) = 4" "length (u64_le b) = 8" "length (u128_le c) = 16"
  by (simp_all add: u32_le_def u64_le_def u128_le_def)

lemma unat_mod_LENGTH: "unat (w :: 'a::len word) mod 2 ^ LENGTH('a) = unat w"
  by simp

lemma u32_round_trip [simp, codec_simps]: "u32_of_le (u32_le w @ rest) = w"
  using unat_mod_LENGTH[of w] by (simp add: u32_of_le_def u32_le_def)

lemma u64_round_trip [simp, codec_simps]: "u64_of_le (u64_le w @ rest) = w"
  using unat_mod_LENGTH[of w] by (simp add: u64_of_le_def u64_le_def)

lemma u128_round_trip [simp, codec_simps]: "u128_of_le (u128_le w @ rest) = w"
  using unat_mod_LENGTH[of w] by (simp add: u128_of_le_def u128_le_def)

lemma u64_round_trip' [simp]: "u64_of_le (u64_le w) = w"
  using u64_round_trip[of w "[]"] by simp

lemma u128_round_trip' [simp]: "u128_of_le (u128_le w) = w"
  using u128_round_trip[of w "[]"] by simp

lemma le_enc_le_dec: "length bs = k \<Longrightarrow> le_enc k (le_dec bs) = bs"
proof (induction bs arbitrary: k)
  case (Cons b bs)
  have "unat b < 256" using unsigned_less[of b] by simp
  then have "(unat b + 256 * le_dec bs) mod 256 = unat b"
    and "(unat b + 256 * le_dec bs) div 256 = le_dec bs" by auto
  with Cons show ?case by auto
qed simp

lemma unat_word_of_nat_small:
  "n < 2 ^ LENGTH('a::len) \<Longrightarrow> unat (word_of_nat n :: 'a word) = n"
  by (simp add: unat_of_nat)

lemma length_write_at [simp]:
  "off + length bs \<le> length buf \<Longrightarrow> length (write_at off bs buf) = length buf"
  by (simp add: write_at_def)

lemma length_str_bytes [simp]: "length (str_bytes s) = length s"
  by (simp add: str_bytes_def)

lemma str_bytes_Nil [simp]: "str_bytes [] = []"
  by (simp add: str_bytes_def)

lemma str_bytes_take: "take n (str_bytes s) = str_bytes (take n s)"
  by (simp add: str_bytes_def take_map)

lemma str_bytes_drop: "drop n (str_bytes s) = str_bytes (drop n s)"
  by (simp add: str_bytes_def drop_map)

lemma bytes_str_str_bytes [simp, codec_simps]: "bytes_str (str_bytes s) = s"
proof -
  have "char_of (unat (word_of_nat (of_char c) :: u8)) = c" for c :: char
  proof -
    have "(of_char c :: nat) < 256" by simp
    then show ?thesis by (simp add: unat_of_nat)
  qed
  then show ?thesis by (simp add: bytes_str_def str_bytes_def o_def)
qed

section \<open>Saturating arithmetic\<close>

lemma unat_sat_sub: "unat (sat_sub a b) = unat a - unat b"
  by (auto simp: sat_sub_def word_le_nat_alt unat_sub)

lemma unat_sat_add:
  fixes a b :: "'a::len word"
  shows "unat (sat_add a b) = min (unat a + unat b) (2 ^ LENGTH('a) - 1)"
  by (auto simp: sat_add_def unat_word_ariths unsigned_minus_1_eq_mask mask_eq_exp_minus_1 min_def)

section \<open>Splitting and joining\<close>

lemma split_on_nonempty [simp]: "split_on c xs \<noteq> []"
  by (induction xs) (auto split: list.splits)

lemma split_on_parts: "p \<in> set (split_on c xs) \<Longrightarrow> c \<notin> set p"
proof (induction xs arbitrary: p)
  case (Cons x xs)
  then show ?case
    by (cases "split_on c xs") (auto split: if_splits)
qed simp

lemma split_on_atom: "c \<notin> set xs \<Longrightarrow> split_on c xs = [xs]"
  by (induction xs) auto

lemma split_on_append:
  "c \<notin> set p \<Longrightarrow> split_on c (p @ c # xs) = p # split_on c xs"
  by (induction p) auto

lemma split_on_join:
  "ps \<noteq> [] \<Longrightarrow> (\<And>p. p \<in> set ps \<Longrightarrow> c \<notin> set p) \<Longrightarrow> split_on c (join_with c ps) = ps"
proof (induction c ps rule: join_with.induct)
  case (3 c p q ps)
  then have "split_on c (join_with c (q # ps)) = q # ps" by auto
  with 3 show ?case by (simp add: split_on_append)
qed (auto simp: split_on_atom)

section \<open>Hash maps: the interface and its implementation\<close>

text \<open>The contract the components use of a map: what a lookup returns after every operation.\<close>

locale hash_map =
  fixes get :: "'m \<Rightarrow> 'k \<Rightarrow> 'v option"
    and ins :: "'k \<Rightarrow> 'v \<Rightarrow> 'm \<Rightarrow> 'm"
    and del :: "'k \<Rightarrow> 'm \<Rightarrow> 'm"
    and keys :: "'m \<Rightarrow> 'k list"
    and ok :: "'m \<Rightarrow> bool"
  assumes get_ins: "get (ins k v m) k' = (if k' = k then Some v else get m k')"
    and get_del: "get (del k m) k' = (if k' = k then None else get m k')"
    and ok_ins: "ok m \<Longrightarrow> ok (ins k v m)"
    and ok_del: "ok m \<Longrightarrow> ok (del k m)"
    and keys_get: "set (keys m) = {k. get m k \<noteq> None}"
    and keys_distinct: "ok m \<Longrightarrow> distinct (keys m)"
begin

lemma get_ins_same: "get (ins k v m) k = Some v"
  by (simp add: get_ins)

lemma get_del_same: "get (del k m) k = None"
  by (simp add: get_del)

lemma del_ins_get: "get (del k (ins k v m)) = (get m)(k := None)"
  by (auto simp: get_ins get_del)

lemma size_keys: "ok m \<Longrightarrow> length (keys m) = card {k. get m k \<noteq> None}"
  by (metis distinct_card keys_distinct keys_get)

end

interpretation dm: hash_map dm_get dm_insert dm_remove dm_keys dm_ok
proof
  show "set (dm_keys m) = {k. dm_get m k \<noteq> None}" for m :: "('k, 'v) dmap"
    by (force simp: dm_keys_def map_of_eq_None_iff)
qed (auto simp: update_conv' delete_conv' dm_ok_def dm_keys_def distinct_update distinct_delete)

lemmas dm_lookup [dm_simps, simp] = dm.get_ins dm.get_del

lemma dm_ok_Nil [simp]: "dm_ok []"
  by (simp add: dm_ok_def)

lemma dm_ok_insert [simp, intro]: "dm_ok m \<Longrightarrow> dm_ok (dm_insert k v m)"
  by (rule dm.ok_ins)

lemma dm_ok_remove [simp, intro]: "dm_ok m \<Longrightarrow> dm_ok (dm_remove k m)"
  by (rule dm.ok_del)

lemma dm_mem_get: "dm_ok m \<Longrightarrow> (k, v) \<in> set m \<longleftrightarrow> dm_get m k = Some v"
  by (auto simp: dm_ok_def intro: map_of_is_SomeI dest: map_of_SomeD)

lemma dm_ok_filter [simp]: "dm_ok m \<Longrightarrow> dm_ok (filter P m)"
  by (simp add: dm_ok_def distinct_map_filter)

lemma dm_remove_absent: "dm_get m k = None \<Longrightarrow> dm_remove k m = m"
  by (simp add: delete_id map_of_eq_None_iff)

lemma dm_insert_fresh: "dm_get m k = None \<Longrightarrow> dm_insert k v m = m @ [(k, v)]"
  by (induction m) (auto split: if_splits)

section \<open>The monad's equations\<close>

lemma rbind_simps [simp]: "rbind (Inl e) f = Inl e" "rbind (Inr x) f = f x"
  by (simp_all add: rbind_def)

lemma sbind_simps [srv_simps]:
  "sbind (slift (Inl e)) f w = (Inl e, w)"
  "sbind (slift (Inr x)) f w = f x w"
  "sbind (sret x) f w = f x w"
  "sbind (sget g) f w = f (g w) w"
  "sbind (srun r) f w = f (fst (r w)) (snd (r w))"
  "sbind (smod h) k w = k () (h w)"
  by (simp_all add: sbind_def slift_def sret_def sget_def smod_def srun_def split: prod.splits)

lemma sbind_ok: "sbind m f w = (Inr y, w') \<longleftrightarrow> (\<exists>x w1. m w = (Inr x, w1) \<and> f x w1 = (Inr y, w'))"
  by (auto simp: sbind_def split: prod.splits sum.splits)

lemma sret_ok: "sret x w = (Inr y, w') \<longleftrightarrow> y = x \<and> w' = w"
  by (auto simp: sret_def)

lemma slift_ok: "slift r w = (Inr y, w') \<longleftrightarrow> r = Inr y \<and> w' = w"
  by (auto simp: slift_def)

lemma sget_ok: "sget f w = (Inr y, w') \<longleftrightarrow> y = f w \<and> w' = w"
  by (auto simp: sget_def)

lemmas sm_ok = sbind_ok sret_ok slift_ok sget_ok

lemma sbind_assoc: "sbind (sbind m f) g = sbind m (\<lambda>x. sbind (f x) g)"
  by (rule ext) (auto simp: sbind_def split: prod.splits sum.splits)

text \<open>
  Weakest preconditions: \<open>wp m Q w\<close> says that \<open>m\<close> started in \<open>w\<close> does not stop with an error and that
  its result and final state satisfy \<open>Q\<close>. The equations compute it along the program.
\<close>

named_theorems wp_simps "weakest preconditions of the monad's operations"

definition wp :: "('e, 'w, 'a) sm \<Rightarrow> ('a \<Rightarrow> 'w \<Rightarrow> bool) \<Rightarrow> 'w \<Rightarrow> bool" where
  "wp m Q w = (case m w of (Inl _, _) \<Rightarrow> False | (Inr x, w') \<Rightarrow> Q x w')"

lemma wp_basic [wp_simps]:
  "wp (sret x) Q = Q x"
  "wp (slift (Inr x)) Q = Q x"
  "wp (slift (Inl e)) Q = (\<lambda>_. False)"
  "wp (sget f) Q = (\<lambda>w. Q (f w) w)"
  "wp (srun h) Q = (\<lambda>w. case h w of (x, w') \<Rightarrow> Q x w')"
  "wp (smod g) R = (\<lambda>w. R () (g w))"
  by (auto simp: fun_eq_iff wp_def sret_def slift_def sget_def smod_def srun_def split: prod.splits sum.splits)

lemma wp_sbind [wp_simps]: "wp (sbind m k) Q = wp m (\<lambda>x. wp (k x) Q)"
  by (auto simp: fun_eq_iff wp_def sbind_def split: prod.splits sum.splits)

lemma wp_if [wp_simps]: "wp (if b then m else n) Q = (\<lambda>w. if b then wp m Q w else wp n Q w)"
  by simp

lemma wp_mono: "wp m Q w \<Longrightarrow> (\<And>x w'. Q x w' \<Longrightarrow> R x w') \<Longrightarrow> wp m R w"
  by (auto simp: wp_def split: prod.splits sum.splits)

lemma wp_result: "wp m Q w \<longleftrightarrow> (\<exists>x w'. m w = (Inr x, w') \<and> Q x w')"
  by (auto simp: wp_def split: prod.splits sum.splits)

lemma wp_conj: "wp m Q w \<Longrightarrow> wp m R w \<Longrightarrow> wp m (\<lambda>x w'. Q x w' \<and> R x w') w"
  by (auto simp: wp_def split: prod.splits sum.splits)

lemma wp_sfor:
  assumes "I [] w" and "\<And>ys x zs w. xs = ys @ x # zs \<Longrightarrow> I ys w \<Longrightarrow> wp (f x) (\<lambda>_. I (ys @ [x])) w"
  shows "wp (sfor xs f) (\<lambda>_. I xs) w"
proof -
  have "wp (sfor zs f) (\<lambda>_. I xs) w" if "xs = ys @ zs" "I ys w" for ys zs w
    using that
  proof (induction zs arbitrary: ys w)
    case (Cons z zs)
    have "wp (f z) (\<lambda>_ w'. wp (sfor zs f) (\<lambda>_. I xs) w') w"
      using assms(2)[OF Cons(2,3)] Cons(1)[of "ys @ [z]"] Cons(2) by (auto elim!: wp_mono)
    then show ?case by (simp add: wp_simps)
  qed (simp add: wp_simps)
  then show ?thesis using assms(1) by blast
qed

end
