(* ===== verification/HashRing.thy ===== *)
theory HashRing
  imports Prelude
begin

text \<open>
  The consistent hash ring of the cluster (\<^verbatim>\<open>crates/rex-cluster/src/hash_ring.rs\<close>). The hash
  function is AHash, code of a third party: it is the argument \<open>hash\<close>, and nothing is assumed of it.
  The crate is built with its runtime randomness, so the keys of a default \<open>AHasher\<close> are drawn once per
  process: \<open>hash\<close> is the hash of one process, and nothing here relates the rings of two processes. \<open>HashMap\<close> positions are kept in insertion order; no operation
  reads them in order.
\<close>

type_synonym node_id = string

record hash_ring =
  virtual_nodes :: u32
  ring :: "(u64 \<times> node_id) list"
  positions :: "(node_id, u64 list) dmap"
  sorted_ring :: "u64 list"

definition with_virtual_nodes :: "u32 \<Rightarrow> hash_ring" where
  "with_virtual_nodes v = \<lparr>virtual_nodes = v, ring = [], positions = [], sorted_ring = []\<rparr>"

definition ring_new :: hash_ring where
  "ring_new = \<lparr>virtual_nodes = 150, ring = [], positions = [], sorted_ring = []\<rparr>"

definition rebuild_sorted :: "hash_ring \<Rightarrow> hash_ring" where
  "rebuild_sorted r = r\<lparr>sorted_ring := sort (map fst (ring r))\<rparr>"

text \<open>\<open>format!("{}-{}", node_id, i)\<close>\<close>

fun decimal :: "nat \<Rightarrow> string" where
  "decimal n = (if n < 10 then [char_of (48 + n)] else decimal (n div 10) @ [char_of (48 + n mod 10)])"

declare decimal.simps [simp del]

definition vnode_key :: "node_id \<Rightarrow> nat \<Rightarrow> string" where
  "vnode_key node_id i = node_id @ CHR ''-'' # decimal i"

text \<open>The loop over the virtual nodes pushes one entry on the ring and one position per index.\<close>

fun push_vnodes :: "(string \<Rightarrow> u64) \<Rightarrow> node_id \<Rightarrow> nat list \<Rightarrow>
    (u64 \<times> node_id) list \<times> u64 list \<Rightarrow> (u64 \<times> node_id) list \<times> u64 list" where
  "push_vnodes hash node_id [] acc = acc"
| "push_vnodes hash node_id (i # is) (rg, ps) =
     (let h = hash (vnode_key node_id i) in
      push_vnodes hash node_id is (rg @ [(h, node_id)], ps @ [h]))"

definition ring_add_node :: "(string \<Rightarrow> u64) \<Rightarrow> node_id \<Rightarrow> hash_ring \<Rightarrow> hash_ring" where
  "ring_add_node hash node_id r =
     (if dm_get (positions r) node_id \<noteq> None then r
      else case push_vnodes hash node_id [0..<unat (virtual_nodes r)] (ring r, []) of (rg, ps) \<Rightarrow>
        rebuild_sorted (r\<lparr>ring := rg, positions := dm_insert node_id ps (positions r)\<rparr>))"

definition ring_remove_node :: "node_id \<Rightarrow> hash_ring \<Rightarrow> hash_ring" where
  "ring_remove_node node_id r =
     (case dm_get (positions r) node_id of
        None \<Rightarrow> r
      | Some _ \<Rightarrow> rebuild_sorted (r\<lparr>ring := filter (\<lambda>(_, n). n \<noteq> node_id) (ring r),
            positions := dm_remove node_id (positions r)\<rparr>))"

text \<open>
  \<open>slice::binary_search\<close> of the standard library: halve the window until one element is left,
  then compare it. \<open>Inr\<close> is \<open>Ok\<close>, \<open>Inl\<close> is \<open>Err\<close> with the insertion point.
\<close>

function bs_loop :: "u64 list \<Rightarrow> u64 \<Rightarrow> nat \<Rightarrow> nat \<Rightarrow> nat" where
  "bs_loop xs x base len =
     (if 1 < len then
        let half = len div 2; mid = base + half in
        bs_loop xs x (if x < xs ! mid then base else mid) (len - half)
      else base)"
  by pat_completeness auto
termination
  by (relation "measure (\<lambda>(_, _, _, len). len)") auto

declare bs_loop.simps [simp del]

definition binary_search :: "u64 list \<Rightarrow> u64 \<Rightarrow> nat + nat" where
  "binary_search xs x =
     (if xs = [] then Inl 0
      else let base = bs_loop xs x 0 (length xs) in
        if xs ! base = x then Inr base
        else Inl (base + (if xs ! base < x then 1 else 0)))"

text \<open>The start position both lookups compute from the search result.\<close>

definition start_pos :: "hash_ring \<Rightarrow> u64 \<Rightarrow> nat" where
  "start_pos r h =
     (case binary_search (sorted_ring r) h of
        Inr pos \<Rightarrow> pos
      | Inl pos \<Rightarrow> if length (sorted_ring r) \<le> pos then 0 else pos)"

definition get_by_hash :: "hash_ring \<Rightarrow> u64 \<Rightarrow> node_id option" where
  "get_by_hash r h =
     (if sorted_ring r = [] then None
      else let target_hash = sorted_ring r ! start_pos r h in
        map_option snd (find (\<lambda>(h', _). h' = target_hash) (ring r)))"

definition ring_get :: "(string \<Rightarrow> u64) \<Rightarrow> hash_ring \<Rightarrow> string \<Rightarrow> node_id option" where
  "ring_get hash r key = (if ring r = [] then None else get_by_hash r (hash key))"

text \<open>
  The walk of \<open>get_n\<close>. It may run forever on an inconsistent ring (then the value is \<open>None\<close>) and
  panics when \<open>sorted_ring\<close> is shorter than the position.
\<close>

partial_function (option) get_n_loop ::
    "hash_ring \<Rightarrow> nat \<Rightarrow> nat \<Rightarrow> node_id list \<Rightarrow> node_id list \<Rightarrow> nat \<Rightarrow> (fault + node_id list) option" where
  "get_n_loop r n total_nodes result seen pos =
     (if length result < n \<and> length result < total_nodes then
        if length (sorted_ring r) \<le> pos then Some (Inl IndexPanic)
        else case find (\<lambda>(h, nd). h = sorted_ring r ! pos \<and> nd \<notin> set seen) (ring r) of
            Some (_, nd) \<Rightarrow> get_n_loop r n total_nodes (result @ [nd]) (nd # seen)
                ((pos + 1) mod length (sorted_ring r))
          | None \<Rightarrow> get_n_loop r n total_nodes result seen ((pos + 1) mod length (sorted_ring r))
      else Some (Inr result))"

definition get_n :: "(string \<Rightarrow> u64) \<Rightarrow> hash_ring \<Rightarrow> string \<Rightarrow> nat \<Rightarrow> (fault + node_id list) option" where
  "get_n hash r key n =
     (if ring r = [] then Some (Inr [])
      else let total_nodes = length (positions r) in
        if total_nodes = 0 then Some (Inr [])
        else get_n_loop r n total_nodes [] [] (start_pos r (hash key)))"

definition ring_nodes :: "hash_ring \<Rightarrow> node_id list" where
  "ring_nodes r = dm_keys (positions r)"

definition ring_is_empty :: "hash_ring \<Rightarrow> bool" where
  "ring_is_empty r \<longleftrightarrow> ring r = []"

definition ring_len :: "hash_ring \<Rightarrow> nat" where
  "ring_len r = length (positions r)"

section \<open>Specification\<close>

definition vpos :: "(string \<Rightarrow> u64) \<Rightarrow> u32 \<Rightarrow> node_id \<Rightarrow> u64 list" where
  "vpos hash v n = map (\<lambda>i. hash (vnode_key n i)) [0..<unat v]"

definition entries :: "(node_id, u64 list) dmap \<Rightarrow> (u64 \<times> node_id) list" where
  "entries ps = concat (map (\<lambda>(n, hs). map (\<lambda>h. (h, n)) hs) ps)"

definition ring_ok :: "(string \<Rightarrow> u64) \<Rightarrow> hash_ring \<Rightarrow> bool" where
  "ring_ok hash r \<longleftrightarrow> dm_ok (positions r) \<and> ring r = entries (positions r)
     \<and> (\<forall>(n, hs) \<in> set (positions r). hs = vpos hash (virtual_nodes r) n)
     \<and> sorted_ring r = sort (map fst (ring r))"

text \<open>The first point of the ring at or after \<open>h\<close>, going around past the largest.\<close>

definition successor :: "u64 set \<Rightarrow> u64 \<Rightarrow> u64" where
  "successor H h = (if \<exists>x \<in> H. h \<le> x then Min {x \<in> H. h \<le> x} else Min H)"

definition collision_free :: "(string \<Rightarrow> u64) \<Rightarrow> u32 \<Rightarrow> node_id set \<Rightarrow> bool" where
  "collision_free hash v N \<longleftrightarrow> (\<forall>n \<in> N. \<forall>m \<in> N. \<forall>h.
     h \<in> set (vpos hash v n) \<longrightarrow> h \<in> set (vpos hash v m) \<longrightarrow> n = m)"

text \<open>The histories of a ring.\<close>

datatype ring_op = RingAdd node_id | RingRemove node_id

fun ring_apply :: "(string \<Rightarrow> u64) \<Rightarrow> ring_op \<Rightarrow> hash_ring \<Rightarrow> hash_ring" where
  "ring_apply hash (RingAdd n) r = ring_add_node hash n r"
| "ring_apply hash (RingRemove n) r = ring_remove_node n r"

section \<open>Binary search\<close>

lemma bs_loop_bounds:
  "0 < len \<Longrightarrow> base \<le> bs_loop xs x base len \<and> bs_loop xs x base len < base + len"
proof (induction xs x base len rule: bs_loop.induct)
  case (1 xs x base len)
  show ?case
  proof (cases "1 < len")
    case True
    then have h: "0 < len - len div 2" "0 < len div 2" by auto
    with 1(1)[OF True refl refl] True show ?thesis
      by (subst (1 2) bs_loop.simps) (auto simp: Let_def split: if_splits)
  qed (use 1 in \<open>auto simp: bs_loop.simps\<close>)
qed

text \<open>
  The invariant of the search on a sorted list: everything left of the window is at most the
  key, everything right of it is larger, and the left end is at most the key unless it is the first.
\<close>

lemma bs_loop_spec:
  assumes "sorted xs" "0 < len" "base + len \<le> length xs"
    and "base = 0 \<or> xs ! base \<le> x" "\<And>i. base + len \<le> i \<Longrightarrow> i < length xs \<Longrightarrow> x < xs ! i"
  shows "let b = bs_loop xs x base len in
    (b = 0 \<or> xs ! b \<le> x) \<and> (\<forall>i. b < i \<longrightarrow> i < length xs \<longrightarrow> x < xs ! i)"
  using assms
proof (induction xs x base len rule: bs_loop.induct)
  case (1 xs x base len)
  show ?case
  proof (cases "1 < len")
    case True
    let ?half = "len div 2"
    let ?base = "if x < xs ! (base + ?half) then base else base + ?half"
    have h: "0 < len - ?half" "?half < len" "len - ?half \<le> ?half + 1" "?half \<le> len - ?half"
      using True by auto
    have up: "x < xs ! i" if "?base + (len - ?half) \<le> i" "i < length xs" for i
    proof (cases "x < xs ! (base + ?half)")
      case True
      then have "base + (len - ?half) \<le> i" using that(1) by (simp only: if_True)
      with h(4) have "base + ?half \<le> i" by linarith
      with that(2) have "xs ! (base + ?half) \<le> xs ! i" using sorted_nth_mono[OF 1(2)] by blast
      with True show ?thesis by simp
    next
      case False
      then have "base + ?half + (len - ?half) \<le> i" using that(1) by (simp only: if_False)
      then have "base + len \<le> i" using h(2) by linarith
      then show ?thesis using that(2) by (rule 1(6))
    qed
    have "let b = bs_loop xs x ?base (len - ?half) in
      (b = 0 \<or> xs ! b \<le> x) \<and> (\<forall>i. b < i \<longrightarrow> i < length xs \<longrightarrow> x < xs ! i)"
    proof (rule 1(1)[OF True refl refl 1(2) h(1)])
      show "?base + (len - ?half) \<le> length xs" using 1(4) h(2) by (cases "x < xs ! (base + ?half)") auto
      show "?base = 0 \<or> xs ! ?base \<le> x" using 1(5) by (cases "x < xs ! (base + ?half)") auto
    qed (fact up)
    moreover have "bs_loop xs x base len = bs_loop xs x ?base (len - ?half)"
      using True by (subst bs_loop.simps) (simp only: Let_def if_True)
    ultimately show ?thesis by (simp only:)
  next
    case False
    with 1(3) have "len = 1" by linarith
    then have "bs_loop xs x base len = base" by (subst bs_loop.simps) simp
    moreover have "\<forall>i. base < i \<longrightarrow> i < length xs \<longrightarrow> x < xs ! i" using 1(6) \<open>len = 1\<close> by auto
    ultimately show ?thesis using 1(5) by (simp add: Let_def)
  qed
qed

lemma binary_search_correct:
  assumes "sorted xs"
  shows "case binary_search xs x of
      Inr p \<Rightarrow> p < length xs \<and> xs ! p = x
    | Inl p \<Rightarrow> p \<le> length xs \<and> (\<forall>i < p. xs ! i < x) \<and> (\<forall>i. p \<le> i \<longrightarrow> i < length xs \<longrightarrow> x < xs ! i)"
proof (cases "xs = []")
  case False
  define b where "b = bs_loop xs x 0 (length xs)"
  have bl: "b < length xs" using bs_loop_bounds[of "length xs" 0 xs x] False by (simp add: b_def)
  have lo: "b = 0 \<or> xs ! b \<le> x" and hi: "\<And>i. b < i \<Longrightarrow> i < length xs \<Longrightarrow> x < xs ! i"
    using bs_loop_spec[OF assms, of "length xs" 0 x] False by (auto simp: b_def Let_def)
  have mono: "i \<le> b \<Longrightarrow> xs ! i \<le> xs ! b" for i using sorted_nth_mono[OF assms] bl by blast
  have eq: "binary_search xs x = (if xs ! b = x then Inr b
      else Inl (b + (if xs ! b < x then 1 else 0)))"
    using False by (simp add: binary_search_def b_def Let_def)
  consider "xs ! b = x" | "xs ! b < x" | "x < xs ! b" by fastforce
  then show ?thesis
  proof cases
    case 2
    have "xs ! i < x" if "i < b + 1" for i using mono[of i] that 2 by simp
    moreover have "x < xs ! i" if "b + 1 \<le> i" "i < length xs" for i using hi[of i] that by simp
    ultimately show ?thesis using 2 bl by (simp add: eq)
  next
    case 3
    with lo have b: "b = 0" by auto
    have "x < xs ! i" if "i < length xs" for i
      using hi[of i] that 3 b by (cases "i = 0") simp_all
    with 3 b False show ?thesis by (auto simp: eq Suc_le_eq)
  qed (use bl in \<open>simp add: eq\<close>)
qed (simp add: binary_search_def)

lemma Min_nth_sorted:
  assumes "sorted xs" "p < length xs" "\<And>i. i < p \<Longrightarrow> xs ! i < h" "h \<le> xs ! p"
  shows "successor (set xs) h = xs ! p"
proof -
  have "Min {x \<in> set xs. h \<le> x} = xs ! p"
  proof (rule Min_eqI)
    show "xs ! p \<le> y" if mem: "y \<in> {x \<in> set xs. h \<le> x}" for y
    proof -
      obtain i where i: "i < length xs" "y = xs ! i" "h \<le> xs ! i"
        using mem by (auto simp: in_set_conv_nth)
      with assms(3) have "p \<le> i" by (meson leD leI)
      with i show ?thesis using sorted_nth_mono[OF assms(1)] by simp
    qed
  qed (use assms(2,4) in simp_all)
  moreover have "\<exists>x \<in> set xs. h \<le> x" using assms(2,4) nth_mem by blast
  ultimately show ?thesis by (simp add: successor_def)
qed

lemma successor_wrap:
  assumes "sorted xs" "xs \<noteq> []" "\<And>i. i < length xs \<Longrightarrow> xs ! i < h"
  shows "successor (set xs) h = xs ! 0"
proof -
  have "Min (set xs) = xs ! 0"
  proof (rule Min_eqI)
    show "xs ! 0 \<le> y" if "y \<in> set xs" for y
      using that sorted_nth_mono[OF assms(1)] by (auto simp: in_set_conv_nth)
  qed (use assms(2) in simp_all)
  moreover have "\<not> (\<exists>x \<in> set xs. h \<le> x)" using assms(3) by (auto simp: in_set_conv_nth not_le)
  ultimately show ?thesis by (simp add: successor_def)
qed

lemma start_pos_correct:
  assumes "sorted (sorted_ring r)" "sorted_ring r \<noteq> []"
  shows "start_pos r h < length (sorted_ring r)"
    and "sorted_ring r ! start_pos r h = successor (set (sorted_ring r)) h"
proof -
  let ?xs = "sorted_ring r"
  have "start_pos r h < length ?xs \<and> ?xs ! start_pos r h = successor (set ?xs) h"
  proof (cases "binary_search ?xs h")
    case (Inl p)
    then have b: "p \<le> length ?xs" "\<And>i. i < p \<Longrightarrow> ?xs ! i < h"
        "\<And>i. p \<le> i \<Longrightarrow> i < length ?xs \<Longrightarrow> h < ?xs ! i"
      using binary_search_correct[OF assms(1), of h] by auto
    show ?thesis
    proof (cases "p < length ?xs")
      case True
      with Inl b Min_nth_sorted[OF assms(1) True b(2)] show ?thesis
        by (simp add: start_pos_def order_less_imp_le)
    next
      case False
      with Inl b successor_wrap[OF assms, of h] show ?thesis
        using assms(2) by (simp add: start_pos_def)
    qed
  next
    case (Inr p)
    then have p: "p < length ?xs" "?xs ! p = h"
      using binary_search_correct[OF assms(1), of h] by auto
    then have mem: "h \<in> set ?xs" by auto
    then have "Min {x \<in> set ?xs. h \<le> x} = h" by (intro Min_eqI) auto
    with mem have "successor (set ?xs) h = h" by (auto simp: successor_def)
    with Inr p show ?thesis by (simp add: start_pos_def)
  qed
  then show "start_pos r h < length ?xs" "?xs ! start_pos r h = successor (set ?xs) h" by simp_all
qed

section \<open>The ring invariant\<close>

lemma push_vnodes_eq:
  "push_vnodes hash n is (rg, ps) = (rg @ map (\<lambda>i. (hash (vnode_key n i), n)) is,
     ps @ map (\<lambda>i. hash (vnode_key n i)) is)"
  by (induction "is" arbitrary: rg ps) (simp_all add: Let_def)

lemma ring_add_fresh:
  assumes "dm_get (positions r) n = None"
  shows "ring (ring_add_node hash n r) = ring r @ map (\<lambda>h. (h, n)) (vpos hash (virtual_nodes r) n)"
    and "positions (ring_add_node hash n r) = positions r @ [(n, vpos hash (virtual_nodes r) n)]"
    and "sorted_ring (ring_add_node hash n r)
      = sort (map fst (ring r) @ vpos hash (virtual_nodes r) n)"
    and "virtual_nodes (ring_add_node hash n r) = virtual_nodes r"
  using assms
  by (simp_all add: ring_add_node_def push_vnodes_eq rebuild_sorted_def vpos_def dm_insert_fresh o_def)

lemma ring_ok_new: "ring_ok hash (with_virtual_nodes v)" "ring_ok hash ring_new"
  by (simp_all add: ring_ok_def with_virtual_nodes_def ring_new_def entries_def)

lemma ring_add_ok: "ring_ok hash r \<Longrightarrow> ring_ok hash (ring_add_node hash n r)"
proof (cases "dm_get (positions r) n")
  case None
  moreover assume "ring_ok hash r"
  ultimately show ?thesis
    by (auto simp: ring_ok_def ring_add_fresh entries_def dm_ok_def map_of_eq_None_iff o_def)
qed (simp add: ring_add_node_def)

lemma entries_delete:
  "filter (\<lambda>(_, m). m \<noteq> n) (entries ps) = entries (dm_remove n ps)"
  by (induction ps) (auto simp: entries_def filter_map o_def AList.delete_eq)

lemma ring_remove_ok: "ring_ok hash r \<Longrightarrow> ring_ok hash (ring_remove_node n r)"
  by (auto simp: ring_ok_def ring_remove_node_def rebuild_sorted_def entries_delete AList.delete_eq
      simp del: filter_filter split: option.splits)

lemma ring_remove_eqs:
  assumes "ring_ok hash r"
  shows "ring (ring_remove_node n r) = filter (\<lambda>(_, m). m \<noteq> n) (ring r)"
    and "positions (ring_remove_node n r) = dm_remove n (positions r)"
    and "virtual_nodes (ring_remove_node n r) = virtual_nodes r"
  using assms by (auto simp: ring_remove_node_def rebuild_sorted_def ring_ok_def entries_delete
      dm_remove_absent split: option.splits)

section \<open>Lookup\<close>

abbreviation points :: "hash_ring \<Rightarrow> u64 set" where
  "points r \<equiv> fst ` set (ring r)"

lemma sorted_ring_set: "ring_ok hash r \<Longrightarrow> set (sorted_ring r) = points r"
  by (simp add: ring_ok_def)

lemma get_by_hash_spec:
  assumes "ring_ok hash r"
  shows "get_by_hash r h = (if ring r = [] then None
    else map_option snd (find (\<lambda>(h', _). h' = successor (points r) h) (ring r)))"
proof (cases "ring r = []")
  case False
  then have ne: "sorted_ring r \<noteq> []" and so: "sorted (sorted_ring r)"
    and set: "set (sorted_ring r) = points r"
    using assms by (auto simp: ring_ok_def dest!: arg_cong[of _ "[]" set])
  from False ne start_pos_correct(2)[OF so ne, of h] show ?thesis
    by (simp add: get_by_hash_def set)
qed (use assms in \<open>simp add: ring_ok_def get_by_hash_def\<close>)

lemma successor_in:
  assumes "finite H" "H \<noteq> {}"
  shows "successor H h \<in> H"
proof (cases "\<exists>x \<in> H. h \<le> x")
  case True
  then have "Min {x \<in> H. h \<le> x} \<in> {x \<in> H. h \<le> x}" using assms by (intro Min_in) auto
  with True show ?thesis by (simp add: successor_def)
qed (use assms in \<open>simp add: successor_def\<close>)

lemma successor_mono:
  assumes "finite H" "G \<subseteq> H" "successor H h \<in> G"
  shows "successor G h = successor H h"
proof (cases "\<exists>x \<in> H. h \<le> x")
  case True
  let ?m = "Min {x \<in> H. h \<le> x}"
  have m: "?m \<in> {x \<in> H. h \<le> x}" using True assms by (intro Min_in) auto
  have s: "successor H h = ?m" using True by (simp add: successor_def)
  with m assms have g: "?m \<in> {x \<in> G. h \<le> x}" by simp
  have "Min {x \<in> G. h \<le> x} = ?m"
    using g assms by (intro Min_eqI) (auto intro: finite_subset)
  with g s show ?thesis by (auto simp: successor_def)
next
  case False
  then have "successor H h = Min H" "\<not> (\<exists>x \<in> G. h \<le> x)" using assms by (auto simp: successor_def)
  moreover have "Min G = Min H"
    using assms calculation by (intro Min_eqI) (auto intro: finite_subset)
  ultimately show ?thesis by (simp add: successor_def)
qed

lemma find_append: "find P (xs @ ys) = (case find P xs of None \<Rightarrow> find P ys | Some x \<Rightarrow> Some x)"
  by (induction xs) auto

lemma find_filter_pres:
  "find P xs = Some x \<Longrightarrow> Q x \<Longrightarrow> find P (filter Q xs) = Some x"
  by (induction xs) (auto split: if_splits)

lemma find_point: "h \<in> fst ` set xs \<Longrightarrow> \<exists>m. find (\<lambda>(h', _). h' = h) xs = Some (h, m)"
  by (induction xs) auto

section \<open>The walk of \<open>get_n\<close>\<close>

lemma ring_entry_node:
  assumes "ring_ok hash r" "(h, n) \<in> set (ring r)"
  shows "n \<in> fst ` set (positions r)"
  using assms by (force simp: ring_ok_def entries_def)

lemma node_has_entry:
  assumes "ring_ok hash r" "0 < unat (virtual_nodes r)" "n \<in> fst ` set (positions r)"
  shows "\<exists>h. (h, n) \<in> set (ring r)"
proof -
  obtain hs where hs: "(n, hs) \<in> set (positions r)" using assms(3) by auto
  then have "hs = vpos hash (virtual_nodes r) n" using assms(1) by (auto simp: ring_ok_def)
  with assms(2) have "hs \<noteq> []" by (simp add: vpos_def)
  then have "(hd hs, n) \<in> set (entries (positions r))"
    using hs by (force simp: entries_def)
  with assms(1) show ?thesis by (auto simp: ring_ok_def)
qed

text \<open>What holds of the nodes found so far, and that some later position adds one.\<close>

definition walk_inv :: "hash_ring \<Rightarrow> node_id list \<Rightarrow> node_id list \<Rightarrow> nat \<Rightarrow> bool" where
  "walk_inv r result seen pos \<longleftrightarrow> set seen = set result \<and> distinct result
     \<and> set result \<subseteq> fst ` set (positions r) \<and> pos < length (sorted_ring r)"

abbreviation unseen_at :: "hash_ring \<Rightarrow> node_id list \<Rightarrow> nat \<Rightarrow> (u64 \<times> node_id) option" where
  "unseen_at r seen pos \<equiv> find (\<lambda>(h, nd). h = sorted_ring r ! pos \<and> nd \<notin> set seen) (ring r)"

lemma unseen_somewhere:
  assumes "ring_ok hash r" "0 < unat (virtual_nodes r)" "walk_inv r result seen pos"
    "length result < length (positions r)"
  shows "\<exists>d. unseen_at r seen ((pos + d) mod length (sorted_ring r)) \<noteq> None"
proof -
  let ?xs = "sorted_ring r"
  have "card (fst ` set (positions r)) = length (positions r)"
    using assms(1) by (simp add: ring_ok_def dm_ok_def distinct_card flip: set_map)
  moreover have "card (set result) = length result"
    using assms(3) by (simp add: walk_inv_def distinct_card)
  ultimately obtain n where n: "n \<in> fst ` set (positions r)" "n \<notin> set seen"
    using assms(3,4) by (metis List.finite_set card_mono finite_imageI leD subsetI walk_inv_def)
  obtain h where h: "(h, n) \<in> set (ring r)" using node_has_entry[OF assms(1,2) n(1)] by blast
  then have "h \<in> set ?xs" unfolding sorted_ring_set[OF assms(1)] by force
  then obtain j where j: "j < length ?xs" "?xs ! j = h" by (auto simp: in_set_conv_nth)
  have "(pos + (j + length ?xs - pos)) mod length ?xs = j"
    using j assms(3) by (simp add: walk_inv_def)
  moreover have "unseen_at r seen j \<noteq> None"
    using h n(2) j by (auto simp: find_None_iff)
  ultimately show ?thesis by metis
qed

lemma find_SomeD: "find P xs = Some x \<Longrightarrow> x \<in> set xs \<and> P x"
  by (induction xs) (auto split: if_splits)

lemma walk_inv_step:
  assumes "ring_ok hash r" "walk_inv r result seen pos" "unseen_at r seen pos = Some (h, nd)"
  shows "walk_inv r (result @ [nd]) (nd # seen) ((pos + 1) mod length (sorted_ring r))"
proof -
  have "(h, nd) \<in> set (ring r)" "nd \<notin> set seen"
    using find_SomeD[OF assms(3)] by auto
  with assms(2) ring_entry_node[OF assms(1)] show ?thesis
    by (auto simp: walk_inv_def intro!: mod_less_divisor)
qed

text \<open>The walk returns, from any consistent state, by induction on the nodes still to be found.\<close>

definition walk_returns :: "hash_ring \<Rightarrow> nat \<Rightarrow> node_id list \<Rightarrow> node_id list \<Rightarrow> nat \<Rightarrow> bool" where
  "walk_returns r n result seen pos \<longleftrightarrow>
     (\<exists>ns. get_n_loop r n (length (positions r)) result seen pos = Some (Inr ns)
       \<and> distinct ns \<and> set ns \<subseteq> fst ` set (positions r)
       \<and> length ns = max (length result) (min n (length (positions r)))
       \<and> take (length result) ns = result)"

lemma walk_found:
  assumes "unseen_at r seen pos = Some (h, nd)" "pos < length (sorted_ring r)"
    and "length result < n" "length result < length (positions r)"
    and "walk_returns r n (result @ [nd]) (nd # seen) ((pos + 1) mod length (sorted_ring r))"
  shows "walk_returns r n result seen pos"
proof -
  have "get_n_loop r n (length (positions r)) result seen pos = get_n_loop r n (length (positions r))
      (result @ [nd]) (nd # seen) ((pos + 1) mod length (sorted_ring r))"
    using assms by (subst get_n_loop.simps) simp
  moreover have "take (length result) ns = result"
    if "take (length (result @ [nd])) ns = result @ [nd]" for ns
  proof -
    have "take (length result) (take (length (result @ [nd])) ns) = result" using that by simp
    then show ?thesis by simp
  qed
  ultimately show ?thesis
    using assms(3-5) unfolding walk_returns_def by (auto simp del: take_append)
qed

lemma walk_not_found:
  assumes "unseen_at r seen pos = None" "pos < length (sorted_ring r)"
    and "length result < n" "length result < length (positions r)"
    and "walk_returns r n result seen ((pos + 1) mod length (sorted_ring r))"
  shows "walk_returns r n result seen pos"
proof -
  have "get_n_loop r n (length (positions r)) result seen pos = get_n_loop r n (length (positions r))
      result seen ((pos + 1) mod length (sorted_ring r))"
    using assms by (subst get_n_loop.simps) simp
  with assms(5) show ?thesis by (simp add: walk_returns_def)
qed

lemma walk_to_next:
  assumes "ring_ok hash r" "walk_inv r result seen pos"
    and "unseen_at r seen ((pos + d) mod length (sorted_ring r)) \<noteq> None"
    and "length result < n" "length result < length (positions r)"
    and more: "\<And>nd pos'. walk_inv r (result @ [nd]) (nd # seen) pos' \<Longrightarrow>
      walk_returns r n (result @ [nd]) (nd # seen) pos'"
  shows "walk_returns r n result seen pos"
  using assms(2,3)
proof (induction d arbitrary: pos)
  case (0 pos)
  then have pos: "pos < length (sorted_ring r)" by (simp add: walk_inv_def)
  with 0 obtain h nd where "unseen_at r seen pos = Some (h, nd)" by auto
  then show ?case
    using walk_found[OF _ pos assms(4,5)] more walk_inv_step[OF assms(1) 0(1)] by blast
next
  case (Suc d)
  let ?p = "(pos + 1) mod length (sorted_ring r)"
  have pos: "pos < length (sorted_ring r)" using Suc(2) by (simp add: walk_inv_def)
  show ?case
  proof (cases "unseen_at r seen pos")
    case None
    have "?p < length (sorted_ring r)" using pos by (intro mod_less_divisor) linarith
    then have "walk_inv r result seen ?p" using Suc(2) by (simp add: walk_inv_def)
    moreover have "(?p + d) mod length (sorted_ring r) = (pos + Suc d) mod length (sorted_ring r)"
      by (simp add: mod_add_left_eq)
    ultimately have "walk_returns r n result seen ?p" using Suc(1)[of ?p] Suc(3) by simp
    then show ?thesis by (rule walk_not_found[OF None pos assms(4,5)])
  next
    case (Some x)
    then obtain h nd where "unseen_at r seen pos = Some (h, nd)" by (cases x) auto
    then show ?thesis
      using walk_found[OF _ pos assms(4,5)] more walk_inv_step[OF assms(1) Suc(2)] by blast
  qed
qed

lemma get_n_loop_returns:
  assumes "ring_ok hash r" "0 < unat (virtual_nodes r)" "walk_inv r result seen pos"
  shows "walk_returns r n result seen pos"
  using assms(3)
proof (induction "length (positions r) - length result" arbitrary: result seen pos)
  case 0
  then show ?case
    unfolding walk_returns_def by (subst get_n_loop.simps) (auto simp: walk_inv_def)
next
  case (Suc k)
  show ?case
  proof (cases "length result < n")
    case True
    have lt: "length result < length (positions r)" using Suc(2) by linarith
    obtain d where "unseen_at r seen ((pos + d) mod length (sorted_ring r)) \<noteq> None"
      using unseen_somewhere[OF assms(1,2) Suc(3) lt] by blast
    then show ?thesis
    proof (rule walk_to_next[OF assms(1) Suc(3) _ True lt])
      show "walk_returns r n (result @ [nd]) (nd # seen) pos'"
        if "walk_inv r (result @ [nd]) (nd # seen) pos'" for nd pos'
        using Suc(2) by (intro Suc(1)[OF _ that]) simp
    qed
  next
    case False
    with Suc(3) show ?thesis
      unfolding walk_returns_def by (subst get_n_loop.simps) (auto simp: walk_inv_def max_def)
  qed
qed

lemma get_n_loop_first:
  assumes "get_n_loop r n T [] [] pos = Some (Inr ns)" "pos < length (sorted_ring r)"
    and "0 < n" "0 < T" "find (\<lambda>(h, _). h = sorted_ring r ! pos) (ring r) = Some (h, nd)"
    and returns: "\<And>p. p < length (sorted_ring r) \<Longrightarrow> walk_returns r n [nd] [nd] p"
      "T = length (positions r)"
  shows "hd ns = nd"
proof -
  have "get_n_loop r n T [] [] pos = get_n_loop r n T [nd] [nd] ((pos + 1) mod length (sorted_ring r))"
    using assms(2-5) by (subst get_n_loop.simps) simp
  moreover have "(pos + 1) mod length (sorted_ring r) < length (sorted_ring r)"
    using assms(2) by (intro mod_less_divisor) linarith
  ultimately have "take 1 ns = [nd]"
    using assms(1) returns(1)[of "(pos + 1) mod length (sorted_ring r)"] returns(2)
    by (auto simp: walk_returns_def)
  then show ?thesis by (cases ns) auto
qed

section \<open>Histories of a ring\<close>

lemma ring_run_ok: "ring_ok hash r \<Longrightarrow> ring_ok hash (fold (ring_apply hash) ops r)"
proof (induction ops arbitrary: r)
  case (Cons op ops)
  then show ?case by (cases op) (simp_all add: ring_add_ok ring_remove_ok)
qed simp

lemma ring_run_vnodes:
  "virtual_nodes (fold (ring_apply hash) ops r) = virtual_nodes r"
proof (induction ops arbitrary: r)
  case (Cons op ops)
  then show ?case
    by (cases op) (auto simp: ring_add_node_def ring_remove_node_def rebuild_sorted_def
        split: option.splits prod.splits)
qed simp

lemma ring_run_from_empty: "ring_ok hash (fold (ring_apply hash) ops (with_virtual_nodes v))"
  by (intro ring_run_ok ring_ok_new)

lemma ring_entries_iff:
  assumes "ring_ok hash r"
  shows "(h, n) \<in> set (ring r) \<longleftrightarrow>
    n \<in> set (ring_nodes r) \<and> h \<in> set (vpos hash (virtual_nodes r) n)"
proof -
  have "(h, n) \<in> set (ring r) \<longleftrightarrow> (\<exists>hs. (n, hs) \<in> set (positions r) \<and> h \<in> set hs)"
    using assms by (auto simp: ring_ok_def entries_def)
  moreover have "hs = vpos hash (virtual_nodes r) n" if "(n, hs) \<in> set (positions r)" for hs
    using assms that by (auto simp: ring_ok_def)
  ultimately have "(h, n) \<in> set (ring r) \<longleftrightarrow>
      (\<exists>hs. (n, hs) \<in> set (positions r)) \<and> h \<in> set (vpos hash (virtual_nodes r) n)"
    by metis
  then show ?thesis by (auto simp: ring_nodes_def dm_keys_def image_iff Bex_def)
qed

text \<open>
  Two rings over the same nodes have the same points. Their owners of a hash are nodes with a virtual
  node on the point that follows it, hence the same node unless two nodes share that point.
\<close>

lemma same_nodes_shared_point:
  assumes "ring_ok hash r" "ring_ok hash r'" "virtual_nodes r = virtual_nodes r'"
    and "set (ring_nodes r) = set (ring_nodes r')"
  shows "get_by_hash r h = get_by_hash r' h
    \<or> (\<exists>n m. get_by_hash r h = Some n \<and> get_by_hash r' h = Some m \<and> n \<noteq> m
        \<and> n \<in> set (ring_nodes r) \<and> m \<in> set (ring_nodes r)
        \<and> successor (points r) h \<in> set (vpos hash (virtual_nodes r) n) \<inter> set (vpos hash (virtual_nodes r) m))"
proof -
  have S: "set (ring r) = set (ring r')"
    using ring_entries_iff[OF assms(1)] ring_entries_iff[OF assms(2)] assms(3,4) by auto
  let ?s = "successor (points r) h"
  show ?thesis
  proof (cases "ring r = []")
    case False
    then have "?s \<in> points r" "?s \<in> points r'" using S by (auto intro!: successor_in)
    then obtain n m where nm: "find (\<lambda>(h', _). h' = ?s) (ring r) = Some (?s, n)"
      "find (\<lambda>(h', _). h' = ?s) (ring r') = Some (?s, m)"
      using find_point by metis
    then have "(?s, n) \<in> set (ring r)" "(?s, m) \<in> set (ring r)"
      using S by (auto dest: find_SomeD)
    moreover have "get_by_hash r h = Some n" "get_by_hash r' h = Some m"
      using nm False S get_by_hash_spec[OF assms(1), of h] get_by_hash_spec[OF assms(2), of h] by auto
    ultimately show ?thesis
      using ring_entries_iff[OF assms(1), of ?s n] ring_entries_iff[OF assms(1), of ?s m] by (cases "n = m") simp_all
  qed (use S get_by_hash_spec[OF assms(1), of h] get_by_hash_spec[OF assms(2), of h] in simp)
qed

lemma same_nodes_same_owner:
  assumes "ring_ok hash r" "ring_ok hash r'" "virtual_nodes r = virtual_nodes r'"
    and "set (ring_nodes r) = set (ring_nodes r')"
    and "collision_free hash (virtual_nodes r) (set (ring_nodes r))"
  shows "get_by_hash r h = get_by_hash r' h"
  using same_nodes_shared_point[OF assms(1-4), of h] assms(5) unfolding collision_free_def by blast

lemma owner_exists:
  assumes ok: "ring_ok hash r" and ne: "ring r \<noteq> []"
  shows "\<exists>n \<in> set (ring_nodes r). get_by_hash r h = Some n"
proof -
  let ?s = "successor (points r) h"
  have "?s \<in> points r" using ne by (intro successor_in) auto
  from find_point[OF this] obtain n where n: "find (\<lambda>(p, _). p = ?s) (ring r) = Some (?s, n)"
    by blast
  then have "n \<in> set (ring_nodes r)" using ring_entries_iff[OF ok] by (blast dest: find_SomeD)
  with n ne get_by_hash_spec[OF ok, of h] show ?thesis by simp
qed

lemma get_after_add:
  assumes ok: "ring_ok hash r" and fresh: "dm_get (positions r) n = None"
  shows "get_by_hash (ring_add_node hash n r) h \<in> {Some n, get_by_hash r h}"
proof -
  let ?r = "ring_add_node hash n r" and ?hs = "vpos hash (virtual_nodes r) n"
  let ?s = "successor (points ?r) h"
  have rg: "ring ?r = ring r @ map (\<lambda>h. (h, n)) ?hs" by (rule ring_add_fresh(1)[OF fresh])
  have g: "get_by_hash ?r h = (if ring ?r = [] then None
      else map_option snd (find (\<lambda>(h', _). h' = ?s) (ring ?r)))"
    by (rule get_by_hash_spec[OF ring_add_ok[OF ok]])
  show ?thesis
  proof (cases "?s \<in> points r")
    case True
    then have "successor (points r) h = ?s"
      using rg by (intro successor_mono) auto
    moreover obtain m where "find (\<lambda>(h', _). h' = ?s) (ring r) = Some (?s, m)"
      using find_point[OF True] by blast
    moreover have "ring r \<noteq> []" using True by auto
    ultimately show ?thesis using g get_by_hash_spec[OF ok, of h] by (simp add: rg find_append)
  next
    case False
    then have "find (\<lambda>(h', _). h' = ?s) (ring r) = None" by (force simp: find_None_iff)
    moreover have "find (\<lambda>(h', _). h' = ?s) (map (\<lambda>h. (h, n)) hs) \<in> {None, Some (?s, n)}" for hs
      by (induction hs) auto
    ultimately have "map_option snd (find (\<lambda>(h', _). h' = ?s) (ring ?r)) \<in> {None, Some n}"
      by (auto simp: rg find_append)
    moreover have "ring ?r \<noteq> [] \<Longrightarrow> ?s \<in> points ?r" by (intro successor_in) auto
    moreover have "ring ?r = [] \<Longrightarrow> get_by_hash r h = None"
      using rg get_by_hash_spec[OF ok, of h] by simp
    ultimately show ?thesis using g find_point[of ?s "ring ?r"] by (auto split: if_splits)
  qed
qed

lemma get_after_remove:
  assumes ok: "ring_ok hash r" and other: "get_by_hash r h = Some m" "m \<noteq> n"
  shows "get_by_hash (ring_remove_node n r) h = Some m"
proof -
  let ?r = "ring_remove_node n r" and ?s = "successor (points r) h"
  have rg: "ring ?r = filter (\<lambda>(_, m). m \<noteq> n) (ring r)" by (rule ring_remove_eqs(1)[OF ok])
  obtain x where "find (\<lambda>(h', _). h' = ?s) (ring r) = Some x" "snd x = m"
    using other get_by_hash_spec[OF ok, of h] by (auto split: if_splits)
  then have f: "find (\<lambda>(h', _). h' = ?s) (ring r) = Some (?s, m)"
    by (cases x) (auto dest: find_SomeD)
  have f': "find (\<lambda>(h', _). h' = ?s) (ring ?r) = Some (?s, m)"
    unfolding rg using other(2) by (intro find_filter_pres[OF f]) simp
  then have mem: "(?s, m) \<in> set (ring ?r)" by (auto dest: find_SomeD)
  then have "?s \<in> points ?r" by force
  then have "successor (points ?r) h = ?s" by (intro successor_mono) (auto simp: rg)
  moreover have "ring ?r \<noteq> []" using mem by auto
  ultimately show ?thesis
    using f' get_by_hash_spec[OF ring_remove_ok[OF ok], of n h] by simp
qed

lemma remove_add_id:
  assumes ok: "ring_ok hash r" and fresh: "dm_get (positions r) n = None"
  shows "ring_remove_node n (ring_add_node hash n r) = r"
proof -
  let ?r = "ring_add_node hash n r"
  have "\<forall>(h, m) \<in> set (ring r). m \<noteq> n"
    using ring_entry_node[OF ok] fresh by (force simp: map_of_eq_None_iff)
  then have "filter (\<lambda>(_, m). m \<noteq> n) (ring ?r) = ring r"
    by (auto simp: ring_add_fresh(1)[OF fresh] filter_id_conv filter_empty_conv)
  moreover have "dm_remove n (positions ?r) = positions r"
    using dm_remove_absent[OF fresh] by (simp add: ring_add_fresh(2)[OF fresh] AList.delete_eq)
  moreover have "dm_get (positions ?r) n \<noteq> None"
    by (simp add: ring_add_fresh(2)[OF fresh] map_of_eq_None_iff)
  ultimately show ?thesis
    using ok ring_add_fresh(4)[OF fresh]
    by (auto simp: ring_remove_node_def rebuild_sorted_def ring_ok_def split: option.splits)
qed

lemma get_n_ok:
  assumes ok: "ring_ok hash r" and v: "0 < unat (virtual_nodes r)"
  shows "\<exists>ns. get_n hash r key n = Some (Inr ns) \<and> distinct ns \<and> set ns \<subseteq> set (ring_nodes r)
    \<and> length ns = min n (ring_len r) \<and> (ns \<noteq> [] \<longrightarrow> ring_get hash r key = Some (hd ns))"
proof (cases "ring r = []")
  case True
  then have "positions r = []" using node_has_entry[OF ok v] by (cases "positions r") force+
  with True show ?thesis by (simp add: get_n_def ring_len_def)
next
  case False
  let ?pos = "start_pos r (hash key)" and ?T = "length (positions r)"
  have so: "sorted (sorted_ring r)" using ok by (simp add: ring_ok_def)
  have ne: "sorted_ring r \<noteq> []" using False sorted_ring_set[OF ok] by fastforce
  note pos = start_pos_correct[OF so ne, of "hash key"]
  have T: "?T \<noteq> 0" using False ok by (auto simp: ring_ok_def entries_def)
  have "walk_inv r [] [] ?pos" using pos by (simp add: walk_inv_def)
  from get_n_loop_returns[OF ok v this, of n] obtain ns where
    ns: "get_n_loop r n ?T [] [] ?pos = Some (Inr ns)" "distinct ns"
      "set ns \<subseteq> fst ` set (positions r)" "length ns = min n ?T"
    by (auto simp: walk_returns_def)
  have "ring_get hash r key = Some (hd ns)" if "ns \<noteq> []"
  proof -
    have "successor (points r) (hash key) \<in> points r" using False by (intro successor_in) auto
    then obtain nd where nd: "find (\<lambda>(h', _). h' = sorted_ring r ! ?pos) (ring r)
        = Some (sorted_ring r ! ?pos, nd)"
      using find_point pos(2) sorted_ring_set[OF ok] by metis
    have "nd \<in> fst ` set (positions r)"
      using nd ring_entry_node[OF ok] by (blast dest: find_SomeD)
    then have "walk_returns r n [nd] [nd] p" if "p < length (sorted_ring r)" for p
      using that by (intro get_n_loop_returns[OF ok v]) (simp add: walk_inv_def)
    moreover have "0 < n" using that ns(4) by (cases n) auto
    ultimately have "hd ns = nd"
      using get_n_loop_first[OF ns(1) pos(1) _ _ nd] T by simp
    with nd False ne show ?thesis by (simp add: ring_get_def get_by_hash_def)
  qed
  with ns False T show ?thesis
    by (auto simp: get_n_def ring_nodes_def dm_keys_def ring_len_def)
qed

section \<open>Properties\<close>

text \<open>
  C8: Whatever nodes were added and removed before, and whatever the hash function is, a lookup
  returns nothing exactly when the ring has no point, and otherwise the node that first put its
  point at the successor of the key: the smallest point not below the key's hash, or the smallest
  point of all when there is none.
\<close>

theorem ring_lookup:
  "let r = fold (ring_apply hash) ops (with_virtual_nodes v) in
     get_by_hash r h = (if ring r = [] then None
       else map_option snd (find (\<lambda>(p, _). p = successor (fst ` set (ring r)) h) (ring r)))
   \<and> (ring r \<noteq> [] \<longrightarrow> (\<exists>n \<in> set (ring_nodes r). get_by_hash r h = Some n))"
proof -
  let ?r = "fold (ring_apply hash) ops (with_virtual_nodes v)"
  have ok: "ring_ok hash ?r" by (rule ring_run_from_empty)
  show ?thesis unfolding Let_def
    by (intro conjI impI get_by_hash_spec[OF ok] owner_exists[OF ok])
qed

theorem ring_lookup_witness:
  "let r = fold (ring_apply (\<lambda>k. of_nat (length k))) [RingAdd ''a'', RingAdd ''bb''] (with_virtual_nodes 1)
   in \<exists>n \<in> set (ring_nodes r). get_by_hash r 4 = Some n"
proof -
  let ?r = "fold (ring_apply (\<lambda>k. of_nat (length k))) [RingAdd ''a'', RingAdd ''bb''] (with_virtual_nodes 1)"
  have "ring ?r \<noteq> []"
    by (simp add: ring_add_node_def with_virtual_nodes_def rebuild_sorted_def Let_def)
  then show ?thesis
    using ring_lookup[of "\<lambda>k. of_nat (length k)" "[RingAdd ''a'', RingAdd ''bb'']" 1 4]
    unfolding Let_def by blast
qed

text \<open>
  C26: Consistent hashing moves no more than it must. Adding a node sends a key to the new node or
  leaves it where it was; removing a node leaves every key of another node where it was; removing a
  node just added restores the ring exactly.
\<close>

theorem ring_minimal_disruption:
  assumes "r = fold (ring_apply hash) ops (with_virtual_nodes v)"
  shows "(n \<notin> set (ring_nodes r) \<longrightarrow>
       get_by_hash (ring_add_node hash n r) h \<in> {Some n, get_by_hash r h}
       \<and> ring_remove_node n (ring_add_node hash n r) = r)
   \<and> (\<forall>m. get_by_hash r h = Some m \<longrightarrow> m \<noteq> n \<longrightarrow> get_by_hash (ring_remove_node n r) h = Some m)"
proof -
  have ok: "ring_ok hash r" unfolding assms by (rule ring_run_from_empty)
  have "n \<notin> set (ring_nodes r) \<Longrightarrow> dm_get (positions r) n = None"
    by (simp add: ring_nodes_def dm_keys_def map_of_eq_None_iff)
  with get_after_add[OF ok] remove_add_id[OF ok] get_after_remove[OF ok] show ?thesis by blast
qed

theorem ring_minimal_disruption_witness:
  "let hash = (\<lambda>k. of_nat (length k)); r = ring_add_node hash ''a'' (with_virtual_nodes 1) in
     get_by_hash (ring_add_node hash ''bbb'' r) 5 \<in> {Some ''bbb'', get_by_hash r 5}"
proof -
  let ?h = "\<lambda>k :: string. of_nat (length k) :: u64"
  have "ring_add_node ?h ''a'' (with_virtual_nodes 1)
      = fold (ring_apply ?h) [RingAdd ''a''] (with_virtual_nodes 1)" by simp
  from ring_minimal_disruption[OF this, of "''bbb''" 5] show ?thesis
    by (simp add: Let_def ring_nodes_def dm_keys_def ring_add_node_def with_virtual_nodes_def
        rebuild_sorted_def)
qed

text \<open>
  C25: Within one process, the ring is determined by its nodes. Two rings built with the same hash
  function from whatever insertions and removals, in whatever order, that have the same nodes in the end
  give every hash the same owner; the one exception is a hash whose next point on the ring carries
  virtual nodes of two different nodes, and then both owners are among the nodes that share that point.
\<close>

theorem ring_history_independent:
  assumes "r = fold (ring_apply hash) ops (with_virtual_nodes v)"
    and "r' = fold (ring_apply hash) ops' (with_virtual_nodes v)"
    and "set (ring_nodes r) = set (ring_nodes r')"
  shows "get_by_hash r h = get_by_hash r' h
    \<or> (\<exists>n m. get_by_hash r h = Some n \<and> get_by_hash r' h = Some m \<and> n \<noteq> m
        \<and> n \<in> set (ring_nodes r) \<and> m \<in> set (ring_nodes r)
        \<and> successor (points r) h \<in> set (vpos hash v n) \<inter> set (vpos hash v m))"
proof -
  have "ring_ok hash r" "ring_ok hash r'" unfolding assms(1,2) by (rule ring_run_from_empty)+
  moreover have "virtual_nodes r = v" "virtual_nodes r' = v"
    using assms(1,2) by (simp_all add: ring_run_vnodes with_virtual_nodes_def)
  ultimately show ?thesis using same_nodes_shared_point[of hash r r' h] assms(3) by simp
qed

theorem ring_history_independent_witness:
  "let hash = (\<lambda>k. of_nat (length k)) in
   get_by_hash (fold (ring_apply hash) [RingAdd ''a'', RingAdd ''bb''] (with_virtual_nodes 1)) 5
   = get_by_hash (fold (ring_apply hash) [RingAdd ''bb'', RingAdd ''c'', RingAdd ''a'', RingRemove ''c'']
       (with_virtual_nodes 1)) 5"
proof -
  let ?h = "\<lambda>k. of_nat (length k) :: u64"
  let ?r = "fold (ring_apply ?h) [RingAdd ''a'', RingAdd ''bb''] (with_virtual_nodes 1)"
  let ?r' = "fold (ring_apply ?h) [RingAdd ''bb'', RingAdd ''c'', RingAdd ''a'', RingRemove ''c''] (with_virtual_nodes 1)"
  have n: "set (ring_nodes ?r) = {''a'', ''bb''}" "set (ring_nodes ?r') = {''a'', ''bb''}"
    by (auto simp: ring_nodes_def dm_keys_def ring_add_node_def ring_remove_node_def with_virtual_nodes_def
      rebuild_sorted_def Let_def)
  have "set (vpos ?h 1 ''a'') \<inter> set (vpos ?h 1 ''bb'') = {}"
    by (simp add: vpos_def vnode_key_def decimal.simps)
  then show ?thesis
    using ring_history_independent[OF refl refl, of ?h "[RingAdd ''a'', RingAdd ''bb'']" 1
        "[RingAdd ''bb'', RingAdd ''c'', RingAdd ''a'', RingRemove ''c'']" 5]
    unfolding Let_def n by blast
qed

text \<open>
  C18: On every ring with at least one virtual node per node, the walk that collects replicas
  returns (it neither runs forever nor indexes out of range), with distinct known nodes, as many as
  asked for or all there are, the owner of the key first.
\<close>

theorem get_n_returns:
  assumes "0 < unat v"
  shows "let r = fold (ring_apply hash) ops (with_virtual_nodes v) in
     \<exists>ns. get_n hash r key n = Some (Inr ns) \<and> distinct ns \<and> set ns \<subseteq> set (ring_nodes r)
       \<and> length ns = min n (ring_len r) \<and> (ns \<noteq> [] \<longrightarrow> ring_get hash r key = Some (hd ns))"
  unfolding Let_def using assms
  by (intro get_n_ok ring_run_from_empty) (simp add: ring_run_vnodes with_virtual_nodes_def)

theorem get_n_returns_witness:
  "let r = fold (ring_apply (\<lambda>_. 0)) [RingAdd ''a'', RingAdd ''b'', RingAdd ''c''] (with_virtual_nodes 150) in
     \<exists>ns. get_n (\<lambda>_. 0) r ''key'' 2 = Some (Inr ns) \<and> distinct ns \<and> set ns \<subseteq> set (ring_nodes r)
       \<and> length ns = min 2 (ring_len r) \<and> (ns \<noteq> [] \<longrightarrow> ring_get (\<lambda>_. 0) r ''key'' = Some (hd ns))"
  by (rule get_n_returns) simp

end
