(* ===== verification/Wire.thy ===== *)
theory Wire
  imports Prelude
begin

text \<open>
  The wire protocol of \<^verbatim>\<open>crates/rex-core/src/protocol\<close>: command and return codes, the frame
  \<^verbatim>\<open>RexData\<close> with its packed 36-byte header, \<^verbatim>\<open>AckData\<close>, and the incremental deserialiser.
  A frame is the byte buffer itself, as in the source; every accessor decodes it. The header is a
  \<^verbatim>\<open>repr(C, packed)\<close> struct read through a pointer cast, so its integers have the byte order of the
  host: little-endian here, the order that \<^verbatim>\<open>try_deserialize\<close> writes out for \<open>total_len\<close>.
  An access that the source can get wrong returns a fault.
\<close>

unbundle bit_operations_syntax

section \<open>Command and return codes\<close>

datatype rex_command =
    Title | TitleReturn | Group | GroupReturn | Cast | CastReturn | Login | LoginReturn
  | Check | CheckReturn | RegTitle | RegTitleReturn | DelTitle | DelTitleReturn | Ack | AckReturn

fun command_as_u32 :: "rex_command \<Rightarrow> u32" where
  "command_as_u32 Title = 9901"
| "command_as_u32 TitleReturn = 9902"
| "command_as_u32 Group = 9903"
| "command_as_u32 GroupReturn = 9904"
| "command_as_u32 Cast = 9905"
| "command_as_u32 CastReturn = 9906"
| "command_as_u32 Login = 9907"
| "command_as_u32 LoginReturn = 9908"
| "command_as_u32 Check = 9909"
| "command_as_u32 CheckReturn = 9910"
| "command_as_u32 RegTitle = 9911"
| "command_as_u32 RegTitleReturn = 9912"
| "command_as_u32 DelTitle = 9913"
| "command_as_u32 DelTitleReturn = 9914"
| "command_as_u32 Ack = 9915"
| "command_as_u32 AckReturn = 9916"

definition command_from_u32 :: "u32 \<Rightarrow> rex_command" where
  "command_from_u32 v =
     (if v = 9901 then Title else if v = 9902 then TitleReturn
      else if v = 9903 then Group else if v = 9904 then GroupReturn
      else if v = 9905 then Cast else if v = 9906 then CastReturn
      else if v = 9907 then Login else if v = 9908 then LoginReturn
      else if v = 9909 then Check else if v = 9910 then CheckReturn
      else if v = 9911 then RegTitle else if v = 9912 then RegTitleReturn
      else if v = 9913 then DelTitle else if v = 9914 then DelTitleReturn
      else if v = 9915 then Ack else if v = 9916 then AckReturn
      else Login)"

fun is_ack_command :: "rex_command \<Rightarrow> bool" where
  "is_ack_command Ack = True"
| "is_ack_command AckReturn = True"
| "is_ack_command _ = False"

datatype ret_code = Success | Error | NoTarget | AckTimeout | AckFailed

fun retcode_as_u32 :: "ret_code \<Rightarrow> u32" where
  "retcode_as_u32 Success = 0"
| "retcode_as_u32 Error = 1"
| "retcode_as_u32 NoTarget = 8802"
| "retcode_as_u32 AckTimeout = 8803"
| "retcode_as_u32 AckFailed = 8804"

definition retcode_from_u32 :: "u32 \<Rightarrow> ret_code" where
  "retcode_from_u32 v =
     (if v = 0 then Success else if v = 1 then Error else if v = 8802 then NoTarget
      else if v = 8803 then AckTimeout else if v = 8804 then AckFailed else Error)"

fun retcode_description :: "ret_code \<Rightarrow> string" where
  "retcode_description Success = ''Success''"
| "retcode_description Error = ''Error''"
| "retcode_description NoTarget = ''No target available''"
| "retcode_description AckTimeout = ''ACK timeout''"
| "retcode_description AckFailed = ''ACK failed''"

datatype protocol = Tcp | Quic | WebSocket

definition protocol_from :: "string \<Rightarrow> protocol option" where
  "protocol_from s =
     (if s = ''tcp'' then Some Tcp else if s = ''quic'' then Some Quic
      else if s = ''websocket'' then Some WebSocket else None)"

section \<open>The header and the frame\<close>

record rex_head =
  h_total_len :: u32
  h_command :: u32
  h_retcode :: u32
  h_message_id :: u64
  h_source :: u128

record rex_data =
  content :: bytes

definition REX_LEN_SIZE :: nat where "REX_LEN_SIZE = 4"

definition REX_HEAD_LEN :: nat where "REX_HEAD_LEN = 36"

definition TITLE_LEN_SIZE :: nat where "TITLE_LEN_SIZE = 1"

definition TITLE_LEN_OFFSET :: nat where "TITLE_LEN_OFFSET = REX_HEAD_LEN"

definition TITLE_OFFSET :: nat where "TITLE_OFFSET = REX_HEAD_LEN + TITLE_LEN_SIZE"

text \<open>The 36 bytes of the packed struct, and the struct the pointer cast reads from 36 bytes.\<close>

definition head_bytes :: "rex_head \<Rightarrow> bytes" where
  "head_bytes h = u32_le (h_total_len h) @ u32_le (h_command h) @ u32_le (h_retcode h)
     @ u64_le (h_message_id h) @ u128_le (h_source h)"

definition head_of :: "bytes \<Rightarrow> rex_head" where
  "head_of bs = \<lparr>h_total_len = u32_of_le bs, h_command = u32_of_le (drop 4 bs),
     h_retcode = u32_of_le (drop 8 bs), h_message_id = u64_of_le (drop 12 bs),
     h_source = u128_of_le (drop 20 bs)\<rparr>"

definition rd_head :: "rex_data \<Rightarrow> fault + rex_head" where
  "rd_head d = (if length (content d) < REX_HEAD_LEN then Inl HeadOutOfBounds
     else Inr (head_of (content d)))"

text \<open>\<open>*self.head_mut() = f(head)\<close>: the header bytes are rewritten in place.\<close>

definition rd_head_mut :: "(rex_head \<Rightarrow> rex_head) \<Rightarrow> rex_data \<Rightarrow> fault + rex_data" where
  "rd_head_mut f d = (if length (content d) < REX_HEAD_LEN then Inl HeadOutOfBounds
     else Inr (d\<lparr>content := write_at 0 (head_bytes (f (head_of (content d)))) (content d)\<rparr>))"

definition rd_unpack :: "bytes \<Rightarrow> rex_data" where
  "rd_unpack buf = \<lparr>content = buf\<rparr>"

definition deserialize_total_len :: "bytes \<Rightarrow> nat" where
  "deserialize_total_len buf = unat (ucast (buf ! 0) OR push_bit 8 (ucast (buf ! 1))
     OR push_bit 16 (ucast (buf ! 2)) OR push_bit 24 (ucast (buf ! 3)) :: u32)"

text \<open>
  \<open>try_deserialize\<close>: the frame and the rest of the buffer, or no frame yet. \<open>dbg\<close> says whether
  \<open>debug_assert!\<close> is compiled in; the \<open>debug_assert!\<close> inside \<open>unpack\<close> never fires after the one here.
\<close>

definition try_deserialize :: "bool \<Rightarrow> bytes \<Rightarrow> fault + rex_data option \<times> bytes" where
  "try_deserialize dbg buf =
     (if length buf < REX_LEN_SIZE then Inr (None, buf)
      else let total_len = deserialize_total_len buf in
        if dbg \<and> total_len < REX_HEAD_LEN + TITLE_LEN_SIZE then Inl AssertPanic
        else if length buf < total_len then Inr (None, buf)
        else Inr (Some (rd_unpack (take total_len buf)), drop total_len buf))"

text \<open>
  \<open>RexData::new\<close> over the \<open>total_len\<close> uninitialised bytes \<open>init\<close> that \<open>set_len\<close> exposes: title
  length, title, data and header are written in this order. \<open>title_len as u8\<close> and
  \<open>total_len as u32\<close> truncate.
\<close>

definition rd_new_over :: "bytes \<Rightarrow> rex_command \<Rightarrow> string \<Rightarrow> bytes \<Rightarrow> rex_data" where
  "rd_new_over init command title data =
     (let title_len = length title; data_len = length data;
          total_len = REX_HEAD_LEN + TITLE_LEN_SIZE + title_len + data_len;
          c1 = write_at REX_HEAD_LEN [word_of_nat title_len] init;
          c2 = (if 0 < title_len then write_at (REX_HEAD_LEN + TITLE_LEN_SIZE) (str_bytes title) c1
                else c1);
          c3 = (if 0 < data_len
                then write_at (REX_HEAD_LEN + TITLE_LEN_SIZE + title_len) data c2 else c2)
      in \<lparr>content = write_at 0 (head_bytes \<lparr>h_total_len = word_of_nat total_len,
            h_command = command_as_u32 command, h_retcode = retcode_as_u32 Success,
            h_message_id = 0, h_source = 0\<rparr>) c3\<rparr>)"

definition rd_new :: "rex_command \<Rightarrow> string \<Rightarrow> bytes \<Rightarrow> rex_data" where
  "rd_new command title data = rd_new_over
     (replicate (REX_HEAD_LEN + TITLE_LEN_SIZE + length title + length data) 0) command title data"

section \<open>Accessors and mutators\<close>

definition rd_command :: "rex_data \<Rightarrow> fault + rex_command" where
  "rd_command d = rbind (rd_head d) (\<lambda>h. Inr (command_from_u32 (h_command h)))"

definition rd_source :: "rex_data \<Rightarrow> fault + u128" where
  "rd_source d = rbind (rd_head d) (\<lambda>h. Inr (h_source h))"

definition rd_retcode :: "rex_data \<Rightarrow> fault + ret_code" where
  "rd_retcode d = rbind (rd_head d) (\<lambda>h. Inr (retcode_from_u32 (h_retcode h)))"

definition rd_is_success :: "rex_data \<Rightarrow> fault + bool" where
  "rd_is_success d = rbind (rd_retcode d) (\<lambda>r. Inr (r = Success))"

definition rd_message_id :: "rex_data \<Rightarrow> fault + u64" where
  "rd_message_id d = rbind (rd_head d) (\<lambda>h. Inr (h_message_id h))"

definition rd_set_message_id :: "u64 \<Rightarrow> rex_data \<Rightarrow> fault + rex_data" where
  "rd_set_message_id m = rd_head_mut (\<lambda>h. h\<lparr>h_message_id := m\<rparr>)"

definition rd_title_len :: "rex_data \<Rightarrow> fault + nat" where
  "rd_title_len d = (if length (content d) \<le> TITLE_LEN_OFFSET then Inl IndexPanic
     else Inr (unat (content d ! TITLE_LEN_OFFSET)))"

definition rd_title :: "rex_data \<Rightarrow> fault + string" where
  "rd_title d = rbind (rd_title_len d) (\<lambda>len.
     if length (content d) < TITLE_OFFSET + len then Inl IndexPanic
     else Inr (bytes_str (take len (drop TITLE_OFFSET (content d)))))"

definition rd_data_offset :: "rex_data \<Rightarrow> fault + nat" where
  "rd_data_offset d = rbind (rd_title_len d) (\<lambda>len. Inr (TITLE_OFFSET + len))"

definition rd_data :: "rex_data \<Rightarrow> fault + bytes" where
  "rd_data d = rbind (rd_data_offset d) (\<lambda>offset.
     if length (content d) < offset then Inl IndexPanic else Inr (drop offset (content d)))"

definition rd_set_command :: "rex_command \<Rightarrow> rex_data \<Rightarrow> fault + rex_data" where
  "rd_set_command c = rd_head_mut (\<lambda>h. h\<lparr>h_command := command_as_u32 c\<rparr>)"

definition rd_set_source :: "u128 \<Rightarrow> rex_data \<Rightarrow> fault + rex_data" where
  "rd_set_source s = rd_head_mut (\<lambda>h. h\<lparr>h_source := s\<rparr>)"

definition rd_set_retcode :: "ret_code \<Rightarrow> rex_data \<Rightarrow> fault + rex_data" where
  "rd_set_retcode r = rd_head_mut (\<lambda>h. h\<lparr>h_retcode := retcode_as_u32 r\<rparr>)"

definition rd_set_data :: "bytes \<Rightarrow> rex_data \<Rightarrow> fault + rex_data" where
  "rd_set_data data d = rbind (rd_data_offset d) (\<lambda>offset.
     let len = offset + length data;
         c1 = (if length (content d) < len
               then content d @ replicate (len - length (content d)) 0
               else take len (content d));
         c2 = write_at offset data c1
     in rd_head_mut (\<lambda>h. h\<lparr>h_total_len := word_of_nat len\<rparr>) (d\<lparr>content := c2\<rparr>))"

section \<open>Acknowledgements\<close>

record ack_data =
  a_message_id :: u64

definition ack_new :: "u64 \<Rightarrow> ack_data" where
  "ack_new m = \<lparr>a_message_id = m\<rparr>"

definition ack_to_rex_data :: "ack_data \<Rightarrow> u128 \<Rightarrow> rex_command \<Rightarrow> rex_data" where
  "ack_to_rex_data a source command =
     (let total_len = REX_HEAD_LEN + TITLE_LEN_SIZE + 8;
          c1 = write_at REX_HEAD_LEN [0] (replicate total_len 0);
          c2 = write_at (REX_HEAD_LEN + TITLE_LEN_SIZE) (u64_le (a_message_id a)) c1
      in \<lparr>content = write_at 0 (head_bytes \<lparr>h_total_len = word_of_nat total_len,
            h_command = command_as_u32 command, h_retcode = retcode_as_u32 Success,
            h_message_id = 0, h_source = source\<rparr>) c2\<rparr>)"

definition ack_from_rex_data :: "rex_data \<Rightarrow> fault + ack_data" where
  "ack_from_rex_data d =
     (if length (content d) < REX_HEAD_LEN + TITLE_LEN_SIZE + 8 then Inl IndexPanic
      else Inr \<lparr>a_message_id = u64_of_le (drop (REX_HEAD_LEN + TITLE_LEN_SIZE) (content d))\<rparr>)"

section \<open>The specification: what a frame means\<close>

text \<open>
  The abstract message a frame stands for, and the shape of a frame that \<open>title()\<close>, \<open>data()\<close> and the
  header accessors can read: the length fields agree with the buffer.
\<close>

record msg =
  m_command :: rex_command
  m_retcode :: ret_code
  m_message_id :: u64
  m_source :: u128
  m_title :: string
  m_data :: bytes

definition frame_ok :: "rex_data \<Rightarrow> bool" where
  "frame_ok d \<longleftrightarrow> TITLE_OFFSET \<le> length (content d)
     \<and> TITLE_OFFSET + unat (content d ! TITLE_LEN_OFFSET) \<le> length (content d)
     \<and> unat (h_total_len (head_of (content d))) = length (content d)"

definition view :: "rex_data \<Rightarrow> msg" where
  "view d = (let h = head_of (content d); n = unat (content d ! TITLE_LEN_OFFSET) in
     \<lparr>m_command = command_from_u32 (h_command h), m_retcode = retcode_from_u32 (h_retcode h),
      m_message_id = h_message_id h, m_source = h_source h,
      m_title = bytes_str (take n (drop TITLE_OFFSET (content d))),
      m_data = drop (TITLE_OFFSET + n) (content d)\<rparr>)"

text \<open>Every well-formed frame is a header, a length byte, a title and the data.\<close>

definition layout :: "rex_head \<Rightarrow> bytes \<Rightarrow> bytes \<Rightarrow> rex_data" where
  "layout h t d = \<lparr>content = head_bytes h @ word_of_nat (length t) # t @ d\<rparr>"

text \<open>The two size conditions of a frame: the title fits its length byte, the frame its length word.\<close>

definition fits :: "string \<Rightarrow> bytes \<Rightarrow> bool" where
  "fits title data \<longleftrightarrow> length title < 256 \<and> 37 + length title + length data < 2 ^ 32"

text \<open>
  What the receive loops make of a byte stream: the complete frames at its front and the bytes
  that are left over.
\<close>

function frames_of :: "bytes \<Rightarrow> rex_data list \<times> bytes" where
  "frames_of buf =
     (let n = unat (u32_of_le buf) in
      if length buf < REX_LEN_SIZE \<or> n < REX_HEAD_LEN \<or> length buf < n then ([], buf)
      else (case frames_of (drop n buf) of (fs, rest) \<Rightarrow> (rd_unpack (take n buf) # fs, rest)))"
  by pat_completeness auto
termination
  by (relation "measure length") (auto simp: REX_LEN_SIZE_def REX_HEAD_LEN_def)

declare frames_of.simps [simp del]

section \<open>Header codec\<close>

lemma u8_bit_less: "bit (w :: u8) n \<Longrightarrow> n < 8"
  using bit_imp_le_length[of w n] by simp

lemma deserialize_total_len_le [simp]:
  assumes "4 \<le> length buf"
  shows "deserialize_total_len buf = unat (u32_of_le buf)"
proof -
  obtain a b c d rest where buf: "buf = a # b # c # d # rest"
    using assms by (auto simp: numeral_eq_Suc Suc_le_length_iff)
  have dis:
    "(ucast a :: u32) AND (push_bit 8 (ucast b) OR push_bit 16 (ucast c) OR push_bit 24 (ucast d)) = 0"
    "push_bit 8 (ucast b :: u32) AND (push_bit 16 (ucast c) OR push_bit 24 (ucast d)) = 0"
    "push_bit 16 (ucast c :: u32) AND (push_bit 24 (ucast d)) = 0"
    by (auto intro!: bit_word_eqI simp: bit_simps dest!: u8_bit_less)
  have "(ucast a OR push_bit 8 (ucast b) OR push_bit 16 (ucast c) OR push_bit 24 (ucast d) :: u32)
    = ucast a + (push_bit 8 (ucast b) + (push_bit 16 (ucast c) + push_bit 24 (ucast d)))"
    using dis by (simp add: disjunctive_add_eq_or ac_simps)
  also have "\<dots> = word_of_nat (unat a + 256 * (unat b + 256 * (unat c + 256 * unat d)))"
    by (simp add: push_bit_eq_mult algebra_simps)
  finally show ?thesis by (simp add: buf deserialize_total_len_def u32_of_le_def)
qed

lemmas wire_consts = REX_LEN_SIZE_def REX_HEAD_LEN_def TITLE_LEN_SIZE_def TITLE_LEN_OFFSET_def
  TITLE_OFFSET_def

lemma length_head_bytes [simp, codec_simps]: "length (head_bytes h) = 36"
  by (simp add: head_bytes_def)

lemma head_of_head_bytes [simp, codec_simps]: "head_of (head_bytes h @ rest) = h"
  by (simp add: head_of_def head_bytes_def)

lemma u32_le_of_le: "4 \<le> length bs \<Longrightarrow> u32_le (u32_of_le bs) = take 4 bs"
  using le_dec_bound[of "take 4 bs"]
  by (simp add: u32_le_def u32_of_le_def unat_word_of_nat_small le_enc_le_dec)

lemma u64_le_of_le: "8 \<le> length bs \<Longrightarrow> u64_le (u64_of_le bs) = take 8 bs"
  using le_dec_bound[of "take 8 bs"]
  by (simp add: u64_le_def u64_of_le_def unat_word_of_nat_small le_enc_le_dec)

lemma u128_le_of_le: "16 \<le> length bs \<Longrightarrow> u128_le (u128_of_le bs) = take 16 bs"
  using le_dec_bound[of "take 16 bs"]
  by (simp add: u128_le_def u128_of_le_def unat_word_of_nat_small le_enc_le_dec)

lemma take_chunk: "take k xs @ take m (drop k xs) = take (k + m) xs"
  by (metis take_add)

lemma head_bytes_head_of: "36 \<le> length bs \<Longrightarrow> head_bytes (head_of bs) = take 36 bs"
proof -
  assume len: "36 \<le> length bs"
  have "take 36 bs = take 4 bs @ take 4 (drop 4 bs) @ take 4 (drop 8 bs) @ take 8 (drop 12 bs)
      @ take 16 (drop 20 bs)"
    using take_add[of 4 4 bs] take_add[of 8 4 bs] take_add[of 12 8 bs] take_add[of 20 16 bs]
    by simp
  with len show ?thesis
    by (simp add: head_bytes_def head_of_def u32_le_of_le u64_le_of_le u128_le_of_le)
qed

lemma write_head: "36 \<le> length bs \<Longrightarrow> write_at 0 (head_bytes h) bs = head_bytes h @ drop 36 bs"
  by (simp add: write_at_def)

lemma command_round_trip [simp, codec_simps]: "command_from_u32 (command_as_u32 c) = c"
  by (cases c) (simp_all add: command_from_u32_def)

lemma retcode_round_trip [simp, codec_simps]: "retcode_from_u32 (retcode_as_u32 r) = r"
  by (cases r) (simp_all add: retcode_from_u32_def)

section \<open>Well-formed frames\<close>

lemma nth_layout: "content (layout h t d) ! 36 = word_of_nat (length t)"
  using length_head_bytes[of h] by (simp add: layout_def nth_append)

lemma drop_layout [simp]: "drop 37 (content (layout h t d)) = t @ d"
  by (simp add: layout_def)

lemma length_layout [simp]: "length (content (layout h t d)) = 37 + length t + length d"
  by (simp add: layout_def)

lemma head_layout [simp]: "head_of (content (layout h t d)) = h"
  by (simp add: layout_def)

lemma frame_ok_layout:
  assumes "length t < 256" "unat (h_total_len h) = 37 + length t + length d"
  shows "frame_ok (layout h t d)"
  using assms by (simp add: frame_ok_def wire_consts nth_layout unat_word_of_nat_small)

lemma view_layout:
  assumes "length t < 256"
  shows "view (layout h t d) = \<lparr>m_command = command_from_u32 (h_command h),
    m_retcode = retcode_from_u32 (h_retcode h), m_message_id = h_message_id h,
    m_source = h_source h, m_title = bytes_str t, m_data = d\<rparr>"
proof -
  have "drop (37 + length t) (content (layout h t d)) = drop (length t) (t @ d)"
    by (metis add.commute drop_drop drop_layout)
  then show ?thesis using assms
    by (simp add: view_def wire_consts nth_layout unat_word_of_nat_small Let_def)
qed

lemma frame_ok_obtain:
  assumes "frame_ok f"
  obtains h t d where "f = layout h t d" "length t < 256"
    "unat (h_total_len h) = 37 + length t + length d"
proof -
  let ?c = "content f" and ?n = "unat (content f ! 36)"
  have len: "37 + ?n \<le> length ?c" and tot: "unat (h_total_len (head_of ?c)) = length ?c"
    using assms by (auto simp: frame_ok_def wire_consts)
  have n: "?n < 256" using unsigned_less[of "?c ! 36"] by simp
  define t where "t = take ?n (drop 37 ?c)"
  define d where "d = drop (37 + ?n) ?c"
  have lt: "length t = ?n" using len by (simp add: t_def)
  have "?c = take 36 ?c @ ?c ! 36 # drop 37 ?c"
    using len id_take_nth_drop[of 36 ?c] by simp
  moreover have "drop 37 ?c = t @ d"
    by (metis t_def d_def add.commute append_take_drop_id drop_drop)
  moreover have "take 36 ?c = head_bytes (head_of ?c)"
    using len by (simp add: head_bytes_head_of)
  ultimately have "?c = head_bytes (head_of ?c) @ word_of_nat (length t) # t @ d"
    using lt by simp
  then have f: "f = layout (head_of ?c) t d" by (simp add: layout_def)
  have "length ?c = 37 + length t + length d" using len lt by (simp add: d_def)
  with f lt n tot show ?thesis by (intro that[of "head_of ?c" t d]) auto
qed
lemma frame_ok_len: "frame_ok d \<Longrightarrow> 37 \<le> length (content d)"
  by (simp add: frame_ok_def wire_consts)

text \<open>On a well-formed frame every accessor succeeds and reads the abstract message.\<close>

lemma frame_access [simp]:
  assumes "frame_ok d"
  shows "rd_head d = Inr (head_of (content d))"
    and "rd_command d = Inr (m_command (view d))"
    and "rd_source d = Inr (m_source (view d))"
    and "rd_retcode d = Inr (m_retcode (view d))"
    and "rd_is_success d = Inr (m_retcode (view d) = Success)"
    and "rd_message_id d = Inr (m_message_id (view d))"
    and "rd_title d = Inr (m_title (view d))"
    and "rd_data d = Inr (m_data (view d))"
proof -
  show h: "rd_head d = Inr (head_of (content d))"
    using assms by (simp add: rd_head_def frame_ok_def wire_consts)
  show "rd_command d = Inr (m_command (view d))" "rd_source d = Inr (m_source (view d))"
    "rd_retcode d = Inr (m_retcode (view d))" "rd_message_id d = Inr (m_message_id (view d))"
    "rd_is_success d = Inr (m_retcode (view d) = Success)"
    by (simp_all add: h rd_command_def rd_source_def rd_retcode_def rd_message_id_def
        rd_is_success_def view_def Let_def)
  show "rd_title d = Inr (m_title (view d))" "rd_data d = Inr (m_data (view d))"
    using assms by (simp_all add: rd_title_def rd_data_def rd_data_offset_def rd_title_len_def
        view_def Let_def frame_ok_def wire_consts)
qed

lemma head_mut_layout [simp]: "rd_head_mut f (layout h t d) = Inr (layout (f h) t d)"
  by (simp add: rd_head_mut_def wire_consts write_head) (simp add: layout_def)

section \<open>The header fields\<close>

text \<open>
  The contract of a header field: its setter succeeds on a well-formed frame, keeps it well-formed
  and changes exactly the field of the abstract message.
\<close>

locale head_field =
  fixes set_field :: "'a \<Rightarrow> rex_data \<Rightarrow> fault + rex_data"
    and get_field :: "rex_data \<Rightarrow> fault + 'a"
    and upd :: "'a \<Rightarrow> msg \<Rightarrow> msg"
    and sel :: "msg \<Rightarrow> 'a"
  assumes set_ok: "frame_ok d \<Longrightarrow> \<exists>d'. set_field v d = Inr d' \<and> frame_ok d'
      \<and> view d' = upd v (view d) \<and> length (content d') = length (content d)"
    and get_ok: "frame_ok d \<Longrightarrow> get_field d = Inr (sel (view d))"
    and sel_upd: "sel (upd v m) = v"
    and upd_upd: "upd v (upd v' m) = upd v m"
begin

lemma get_set: "frame_ok d \<Longrightarrow> rbind (set_field v d) get_field = Inr v"
  using set_ok[of d v] by (auto simp: get_ok sel_upd)

lemma set_obtain:
  assumes "frame_ok d"
  obtains d' where "set_field v d = Inr d'" "frame_ok d'" "view d' = upd v (view d)"
    "length (content d') = length (content d)"
  using set_ok[OF assms, of v] by blast

lemma set_set_view:
  assumes "frame_ok d"
  shows "\<exists>d'. rbind (set_field v' d) (set_field v) = Inr d' \<and> view d' = upd v (view d)"
  using set_ok[OF assms, of v'] by (metis rbind_simps(2) set_ok upd_upd)

end

interpretation mid: head_field rd_set_message_id rd_message_id
  "\<lambda>v m. m\<lparr>m_message_id := v\<rparr>" m_message_id
  by unfold_locales (auto elim!: frame_ok_obtain simp: rd_set_message_id_def view_layout
      intro!: frame_ok_layout)

interpretation src: head_field rd_set_source rd_source "\<lambda>v m. m\<lparr>m_source := v\<rparr>" m_source
  by unfold_locales (auto elim!: frame_ok_obtain simp: rd_set_source_def view_layout
      intro!: frame_ok_layout)

interpretation cmd: head_field rd_set_command rd_command "\<lambda>v m. m\<lparr>m_command := v\<rparr>" m_command
  by unfold_locales (auto elim!: frame_ok_obtain simp: rd_set_command_def view_layout
      intro!: frame_ok_layout)

interpretation ret: head_field rd_set_retcode rd_retcode "\<lambda>v m. m\<lparr>m_retcode := v\<rparr>" m_retcode
  by unfold_locales (auto elim!: frame_ok_obtain simp: rd_set_retcode_def view_layout
      intro!: frame_ok_layout)

section \<open>Construction\<close>

lemma rd_new_over_layout:
  assumes "length init = 37 + length title + length data"
  shows "rd_new_over init c title data = layout \<lparr>h_total_len = word_of_nat (length init),
    h_command = command_as_u32 c, h_retcode = 0, h_message_id = 0, h_source = 0\<rparr>
    (str_bytes title) data"
proof -
  obtain ih il it id where i: "init = ih @ il # it @ id"
    "length ih = 36" "length it = length title" "length id = length data"
  proof (rule that)
    show "init = take 36 init @ init ! 36 # take (length title) (drop 37 init)
        @ drop (length title) (drop 37 init)"
      using assms id_take_nth_drop[of 36 init] by (simp del: drop_drop)
  qed (use assms in simp_all)
  have w: "write_at (length a) b (a @ c @ d) = a @ b @ d" if "length b = length c" for a b c d
    using that by (simp add: write_at_def)
  have "write_at 36 [word_of_nat (length title)] init = ih @ word_of_nat (length title) # it @ id"
    using w[of "[word_of_nat (length title)]" "[il]" ih "it @ id"] i by simp
  moreover have "write_at 37 (str_bytes title) (ih @ word_of_nat (length title) # it @ id)
      = ih @ word_of_nat (length title) # str_bytes title @ id"
    using w[of "str_bytes title" it "ih @ [word_of_nat (length title)]" id] i by simp
  moreover have "write_at (37 + length title) data (ih @ word_of_nat (length title) # str_bytes title @ id)
      = ih @ word_of_nat (length title) # str_bytes title @ data"
    using w[of data id "ih @ word_of_nat (length title) # str_bytes title" "[]"] i by simp
  ultimately show ?thesis using i
    by (auto simp: rd_new_over_def wire_consts layout_def write_head Let_def add.assoc)
qed

lemma rd_new_layout:
  "rd_new c title data = layout \<lparr>h_total_len = word_of_nat (37 + length title + length data),
    h_command = command_as_u32 c, h_retcode = 0, h_message_id = 0, h_source = 0\<rparr>
    (str_bytes title) data"
  by (simp add: rd_new_def wire_consts rd_new_over_layout)

lemma rd_new_ok:
  assumes "fits title data"
  shows "frame_ok (rd_new c title data)"
    and "view (rd_new c title data) = \<lparr>m_command = c, m_retcode = Success, m_message_id = 0,
      m_source = 0, m_title = title, m_data = data\<rparr>"
proof -
  have t: "length (str_bytes title) < 256" using assms by (simp add: fits_def)
  have "unat (word_of_nat (37 + length title + length data) :: u32) = 37 + length title + length data"
    using assms by (intro unat_word_of_nat_small) (simp add: fits_def)
  then show "frame_ok (rd_new c title data)"
    unfolding rd_new_layout by (intro frame_ok_layout[OF t]) simp
  show "view (rd_new c title data) = \<lparr>m_command = c, m_retcode = Success, m_message_id = 0,
      m_source = 0, m_title = title, m_data = data\<rparr>"
    unfolding rd_new_layout view_layout[OF t] by (simp add: retcode_from_u32_def)
qed

lemma rd_set_data_layout:
  "length t < 256 \<Longrightarrow> rd_set_data b (layout h t d)
    = Inr (layout (h\<lparr>h_total_len := word_of_nat (37 + length t + length b)\<rparr>) t b)"
  by (auto simp: rd_set_data_def rd_data_offset_def rd_title_len_def wire_consts nth_layout
      unat_word_of_nat_small Let_def rd_head_mut_def write_head)
     (auto simp: layout_def write_at_def)

lemma rd_set_data_ok:
  assumes "frame_ok f" "37 + length (m_title (view f)) + length b < 2 ^ 32"
  shows "\<exists>f'. rd_set_data b f = Inr f' \<and> frame_ok f' \<and> view f' = (view f)\<lparr>m_data := b\<rparr>"
  using assms(1)
proof (rule frame_ok_obtain)
  fix h t d
  assume f: "f = layout h t d" and t: "length t < 256"
  have "unat (word_of_nat (37 + length t + length b) :: u32) = 37 + length t + length b"
    using assms(2) t by (intro unat_word_of_nat_small) (simp add: f view_layout bytes_str_def)
  then show ?thesis
    unfolding f rd_set_data_layout[OF t] using t
    by (simp add: view_layout del: of_nat_add) (intro frame_ok_layout, simp_all)
qed

section \<open>The deserialiser\<close>

lemma u32_of_le_take: "4 \<le> n \<Longrightarrow> u32_of_le (take n bs) = u32_of_le bs"
  by (simp add: u32_of_le_def min_absorb1)

lemma u32_of_le_append: "4 \<le> length bs \<Longrightarrow> u32_of_le (bs @ rest) = u32_of_le bs"
  by (simp add: u32_of_le_def)

lemma frame_ok_total: "frame_ok f \<Longrightarrow> unat (u32_of_le (content f)) = length (content f)"
  by (simp add: frame_ok_def head_of_def)

lemma rd_unpack_content [simp]: "rd_unpack (content f) = f"
  by (simp add: rd_unpack_def)

lemma try_deserialize_frame:
  assumes "frame_ok f"
  shows "try_deserialize dbg (content f @ rest) = Inr (Some f, rest)"
  using frame_ok_len[OF assms] frame_ok_total[OF assms]
  by (simp add: try_deserialize_def wire_consts u32_of_le_append)

lemma try_deserialize_prefix:
  assumes "frame_ok f" "n < length (content f)"
  shows "try_deserialize dbg (take n (content f)) = Inr (None, take n (content f))"
  using assms frame_ok_len[OF assms(1)] frame_ok_total[OF assms(1)]
  by (auto simp: try_deserialize_def wire_consts u32_of_le_take)

lemma frames_of_frame:
  assumes "frame_ok f"
  shows "frames_of (content f @ rest) = (case frames_of rest of (fs, r) \<Rightarrow> (f # fs, r))"
  using frame_ok_len[OF assms] frame_ok_total[OF assms]
  by (subst frames_of.simps) (simp add: wire_consts u32_of_le_append)

lemma frames_of_short: "length buf < 4 \<Longrightarrow> frames_of buf = ([], buf)"
  by (subst frames_of.simps) (simp add: wire_consts)

lemma frames_of_frames:
  assumes "\<forall>f \<in> set fs. frame_ok f"
  shows "frames_of (concat (map content fs) @ rest)
    = (fs @ fst (frames_of rest), snd (frames_of rest))"
  using assms by (induction fs) (auto simp: frames_of_frame split: prod.splits)

lemma frames_of_prefix:
  assumes "frame_ok f" "n < length (content f)"
  shows "frames_of (take n (content f)) = ([], take n (content f))"
proof (cases "n < 4")
  case False
  then have "u32_of_le (take n (content f)) = u32_of_le (content f)" by (simp add: u32_of_le_take)
  with assms frame_ok_total[OF assms(1)] show ?thesis
    by (subst frames_of.simps) (simp add: wire_consts)
qed (simp add: frames_of_short)

text \<open>Cutting the stream anywhere does not change the frames: the rest of a chunk is kept.\<close>

lemma frames_of_append:
  "frames_of (a @ b) = (case frames_of a of (fs, r) \<Rightarrow>
     case frames_of (r @ b) of (gs, r') \<Rightarrow> (fs @ gs, r'))"
proof (induction a rule: frames_of.induct)
  case (1 a)
  let ?n = "unat (u32_of_le a)"
  show ?case
  proof (cases "length a < REX_LEN_SIZE \<or> ?n < REX_HEAD_LEN \<or> length a < ?n")
    case True
    then show ?thesis by (subst (2) frames_of.simps) (simp add: Let_def split: prod.splits)
  next
    case False
    then have n: "u32_of_le (a @ b) = u32_of_le a" by (simp add: wire_consts u32_of_le_append)
    have "frames_of (a @ b) = (case frames_of (drop ?n a @ b) of
        (fs, rest) \<Rightarrow> (rd_unpack (take ?n a) # fs, rest))"
      using False n by (subst frames_of.simps) (simp add: Let_def)
    moreover have "frames_of a = (case frames_of (drop ?n a) of
        (fs, rest) \<Rightarrow> (rd_unpack (take ?n a) # fs, rest))"
      using False by (subst frames_of.simps) (simp add: Let_def)
    ultimately show ?thesis using 1[OF refl False] by (simp split: prod.splits)
  qed
qed

section \<open>Acknowledgement frames\<close>

lemma ack_layout:
  "ack_to_rex_data a s c = layout \<lparr>h_total_len = 45, h_command = command_as_u32 c, h_retcode = 0,
     h_message_id = 0, h_source = s\<rparr> [] (u64_le (a_message_id a))"
  by (simp add: ack_to_rex_data_def wire_consts layout_def write_at_def Let_def)

lemma ack_to_rex_data_ok:
  "frame_ok (ack_to_rex_data a s c)"
  "view (ack_to_rex_data a s c) = \<lparr>m_command = c, m_retcode = Success, m_message_id = 0,
     m_source = s, m_title = [], m_data = u64_le (a_message_id a)\<rparr>"
  by (simp_all add: ack_layout frame_ok_layout view_layout retcode_from_u32_def bytes_str_def)

lemma ack_from_data:
  assumes "frame_ok d" "m_title (view d) = []" "8 \<le> length (m_data (view d))"
  shows "ack_from_rex_data d = Inr \<lparr>a_message_id = u64_of_le (m_data (view d))\<rparr>"
proof -
  have "unat (content d ! 36) = 0"
    using assms frame_ok_len[OF assms(1)]
    by (auto simp: view_def Let_def bytes_str_def wire_consts frame_ok_def)
  with assms show ?thesis
    by (simp add: ack_from_rex_data_def view_def Let_def wire_consts)
qed

section \<open>Properties\<close>

text \<open>
  C1: A frame built by \<open>RexData::new\<close> from a title of at most 255 bytes and data that fits a
  32-bit length reads back exactly as given through every accessor, and the deserialiser cuts it
  off the front of any buffer, in debug and release builds, leaving the rest.
\<close>

theorem new_round_trip:
  assumes "fits title data"
  shows "let f = rd_new c title data in
      rd_command f = Inr c \<and> rd_title f = Inr title \<and> rd_data f = Inr data
    \<and> rd_retcode f = Inr Success \<and> rd_message_id f = Inr 0 \<and> rd_source f = Inr 0
    \<and> length (content f) = 37 + length title + length data
    \<and> try_deserialize dbg (content f @ rest) = Inr (Some f, rest)"
  using rd_new_ok[OF assms, of c] by (simp add: try_deserialize_frame) (simp add: rd_new_layout)

theorem new_round_trip_witness:
  "rd_title (rd_new Cast ''t'' [1, 2]) = Inr ''t'' \<and> rd_data (rd_new Cast ''t'' [1, 2]) = Inr [1, 2]
    \<and> try_deserialize True (content (rd_new Cast ''t'' [1, 2]) @ [7])
      = Inr (Some (rd_new Cast ''t'' [1, 2]), [7])"
  using new_round_trip[of "''t''" "[1, 2]" Cast True "[7]"] by (simp add: fits_def Let_def)

text \<open>
  C23: On a well-formed frame every header setter succeeds, keeps the frame well-formed and of the
  same length, and changes its own field of the message and nothing else; \<open>set_data\<close> does the same
  for the payload, whether it grows or shrinks the buffer, and updates the length field.
\<close>

theorem setters_refine:
  assumes "frame_ok f" "37 + length (m_title (view f)) + length b < 2 ^ 32"
  shows "\<exists>f1 f2 f3 f4 f5.
     rd_set_message_id i f = Inr f1 \<and> frame_ok f1 \<and> view f1 = (view f)\<lparr>m_message_id := i\<rparr>
   \<and> rd_set_source s f = Inr f2 \<and> frame_ok f2 \<and> view f2 = (view f)\<lparr>m_source := s\<rparr>
   \<and> rd_set_command c f = Inr f3 \<and> frame_ok f3 \<and> view f3 = (view f)\<lparr>m_command := c\<rparr>
   \<and> rd_set_retcode r f = Inr f4 \<and> frame_ok f4 \<and> view f4 = (view f)\<lparr>m_retcode := r\<rparr>
   \<and> rd_set_data b f = Inr f5 \<and> frame_ok f5 \<and> view f5 = (view f)\<lparr>m_data := b\<rparr>"
proof -
  obtain f5 where "rd_set_data b f = Inr f5" "frame_ok f5" "view f5 = (view f)\<lparr>m_data := b\<rparr>"
    using rd_set_data_ok[OF assms] by blast
  moreover obtain f1 f2 f3 f4 where
    "rd_set_message_id i f = Inr f1 \<and> frame_ok f1 \<and> view f1 = (view f)\<lparr>m_message_id := i\<rparr>"
    "rd_set_source s f = Inr f2 \<and> frame_ok f2 \<and> view f2 = (view f)\<lparr>m_source := s\<rparr>"
    "rd_set_command c f = Inr f3 \<and> frame_ok f3 \<and> view f3 = (view f)\<lparr>m_command := c\<rparr>"
    "rd_set_retcode r f = Inr f4 \<and> frame_ok f4 \<and> view f4 = (view f)\<lparr>m_retcode := r\<rparr>"
    using mid.set_ok[OF assms(1)] src.set_ok[OF assms(1)] cmd.set_ok[OF assms(1)]
      ret.set_ok[OF assms(1)] by blast
  ultimately show ?thesis by blast
qed

theorem setters_refine_witness:
  "\<exists>f1 f2 f3 f4 f5. let f = rd_new Title ''ab'' [1, 2, 3] in
     rd_set_message_id 5 f = Inr f1 \<and> frame_ok f1 \<and> view f1 = (view f)\<lparr>m_message_id := 5\<rparr>
   \<and> rd_set_source 6 f = Inr f2 \<and> frame_ok f2 \<and> view f2 = (view f)\<lparr>m_source := 6\<rparr>
   \<and> rd_set_command Cast f = Inr f3 \<and> frame_ok f3 \<and> view f3 = (view f)\<lparr>m_command := Cast\<rparr>
   \<and> rd_set_retcode NoTarget f = Inr f4 \<and> frame_ok f4 \<and> view f4 = (view f)\<lparr>m_retcode := NoTarget\<rparr>
   \<and> rd_set_data [9] f = Inr f5 \<and> frame_ok f5 \<and> view f5 = (view f)\<lparr>m_data := [9]\<rparr>"
proof -
  have "fits ''ab'' [1, 2, 3]" by (simp add: fits_def)
  note ok = rd_new_ok[OF this, of Title]
  show ?thesis unfolding Let_def by (rule setters_refine) (simp_all add: ok)
qed

text \<open>
  A title of 256 bytes or more does not survive the frame: the length byte holds the length
  modulo 256, so the receiver reads a shorter title and finds the rest of the title in the data.
\<close>

theorem new_long_title:
  assumes "256 \<le> length title" "37 + length title + length data < 2 ^ 32"
  shows "rd_title (rd_new c title data) = Inr (take (length title mod 256) title)
    \<and> rd_data (rd_new c title data) = Inr (str_bytes (drop (length title mod 256) title) @ data)
    \<and> rd_title (rd_new c title data) \<noteq> Inr title"
proof -
  let ?f = "rd_new c title data" and ?n = "length title mod 256"
  have "unat (word_of_nat (length title) :: u8) = ?n" by (simp add: unat_of_nat)
  then have tl: "rd_title_len ?f = Inr ?n"
    by (simp add: rd_new_layout rd_title_len_def wire_consts nth_layout)
  have le: "?n \<le> length title" by simp
  have dr: "drop 37 (content ?f) = str_bytes title @ data" by (simp add: rd_new_layout)
  have "rd_title ?f = Inr (bytes_str (take ?n (str_bytes title @ data)))"
    using dr by (simp add: rd_title_def tl wire_consts) (simp add: rd_new_layout)
  moreover have "bytes_str (take ?n (str_bytes title @ data)) = take ?n title"
    using le by (simp add: str_bytes_take)
  moreover have "rd_data ?f = Inr (drop ?n (drop 37 (content ?f)))"
    by (simp add: rd_data_def rd_data_offset_def tl wire_consts add.commute) (simp add: rd_new_layout)
  ultimately show ?thesis using assms le dr
    by (auto simp: str_bytes_drop dest: arg_cong[where f = length])
qed

theorem new_long_title_witness:
  "rd_title (rd_new Cast (replicate 258 CHR ''a'') []) = Inr ''aa''"
proof -
  have "replicate 2 CHR ''a'' = ''aa''" by (simp add: numeral_2_eq_2)
  then show ?thesis using new_long_title[of "replicate 258 CHR ''a''" "[]" Cast] by simp
qed

text \<open>
  An acknowledgement frame carries its message id: it is a well-formed frame of 45 bytes with
  the given source and command, an empty title and message id 0 in the header, and
  \<open>from_rex_data\<close> recovers the acknowledged id from it.
\<close>

theorem ack_round_trip:
  "ack_from_rex_data (ack_to_rex_data a s c) = Inr a
   \<and> frame_ok (ack_to_rex_data a s c) \<and> length (content (ack_to_rex_data a s c)) = 45
   \<and> rd_source (ack_to_rex_data a s c) = Inr s \<and> rd_command (ack_to_rex_data a s c) = Inr c
   \<and> rd_message_id (ack_to_rex_data a s c) = Inr 0 \<and> rd_title (ack_to_rex_data a s c) = Inr []"
  using ack_to_rex_data_ok[of a s c] by (simp add: ack_from_data) (simp add: ack_layout)

text \<open>
  The deserialiser does not reject a length field below the header size in release builds: it
  hands out a frame whose header accessors read past its end, while a debug build panics.
\<close>

theorem deserialize_short_total:
  assumes "4 \<le> length buf" "unat (u32_of_le buf) < 36" "unat (u32_of_le buf) \<le> length buf"
  shows "try_deserialize True buf = Inl AssertPanic
    \<and> (\<exists>d rest. try_deserialize False buf = Inr (Some d, rest)
        \<and> rd_command d = Inl HeadOutOfBounds \<and> rd_source d = Inl HeadOutOfBounds)"
  using assms
  by (simp add: try_deserialize_def wire_consts rd_command_def rd_source_def rd_head_def rd_unpack_def
      Let_def)

theorem deserialize_short_total_witness:
  "try_deserialize True [4, 0, 0, 0] = Inl AssertPanic
    \<and> (\<exists>d rest. try_deserialize False [4, 0, 0, 0] = Inr (Some d, rest)
        \<and> rd_command d = Inl HeadOutOfBounds \<and> rd_source d = Inl HeadOutOfBounds)"
  by (rule deserialize_short_total) (simp_all add: u32_of_le_def)
end
