(* ===== verification/Client.thy ===== *)
theory Client
  imports Wire
begin

text \<open>
  \<^verbatim>\<open>RexClientInner\<close> (\<^verbatim>\<open>crates/rex-core/src/client.rs\<close>): one connected client, its identity, its
  subscriptions and its activity stamp. The methods take \<open>&self\<close> and mutate through locks,
  atomics or \<open>force_set_value\<close>; each is a function on the record here, and the shared object itself
  is a cell of the heap in \<^verbatim>\<open>Registry.thy\<close>. The clock reading is an argument.
\<close>

type_synonym socket_addr = "bytes \<times> 16 word"

type_synonym sender_ref = nat

record client =
  cl_id :: u128
  cl_local_addr :: socket_addr
  cl_titles :: "string list"
  cl_transport :: "string option"
  cl_connected_at :: u64
  cl_sender :: sender_ref
  cl_last_recv :: u64

text \<open>\<open>title.split(';').filter(|s| !s.is_empty())\<close>\<close>

definition title_parts :: "string \<Rightarrow> string list" where
  "title_parts title = filter (\<lambda>s. s \<noteq> []) (split_on CHR '';'' title)"

definition client_new :: "u64 \<Rightarrow> u128 \<Rightarrow> socket_addr \<Rightarrow> string \<Rightarrow> sender_ref \<Rightarrow> client" where
  "client_new now cid local_addr title sender =
     \<lparr>cl_id = cid, cl_local_addr = local_addr, cl_titles = title_parts title, cl_transport = None,
      cl_connected_at = now, cl_sender = sender, cl_last_recv = now\<rparr>"

definition client_from_title :: "u64 \<Rightarrow> u128 \<Rightarrow> string \<Rightarrow> sender_ref \<Rightarrow> client" where
  "client_from_title now uuid title sender =
     \<lparr>cl_id = uuid, cl_local_addr = ([0, 0, 0, 0], 0), cl_titles = title_parts title,
      cl_transport = None, cl_connected_at = now, cl_sender = sender, cl_last_recv = now\<rparr>"

definition set_id :: "u128 \<Rightarrow> client \<Rightarrow> client" where
  "set_id i c = c\<lparr>cl_id := i\<rparr>"

definition set_sender :: "sender_ref \<Rightarrow> client \<Rightarrow> client" where
  "set_sender s c = c\<lparr>cl_sender := s\<rparr>"

definition ascii_lower :: "char \<Rightarrow> char" where
  "ascii_lower ch = (let n = of_char ch :: nat in
     if 65 \<le> n \<and> n \<le> 90 then char_of (n + 32) else ch)"

definition set_transport_label :: "string \<Rightarrow> client \<Rightarrow> client" where
  "set_transport_label l c = c\<lparr>cl_transport := Some (map ascii_lower l)\<rparr>"

definition transport_label :: "client \<Rightarrow> string" where
  "transport_label c = (case cl_transport c of None \<Rightarrow> ''unknown'' | Some l \<Rightarrow> l)"

definition title_str :: "client \<Rightarrow> string" where
  "title_str c = join_with CHR '';'' (cl_titles c)"

definition push_title :: "string \<Rightarrow> string list \<Rightarrow> string list" where
  "push_title t ts = (if t = [] \<or> t \<in> set ts then ts else ts @ [t])"

definition insert_title :: "string \<Rightarrow> client \<Rightarrow> client" where
  "insert_title title c = c\<lparr>cl_titles := fold push_title (split_on CHR '';'' title) (cl_titles c)\<rparr>"

definition remove_title :: "string \<Rightarrow> client \<Rightarrow> client" where
  "remove_title title c = c\<lparr>cl_titles := filter (\<lambda>x. x \<noteq> title) (cl_titles c)\<rparr>"

definition has_title :: "string \<Rightarrow> client \<Rightarrow> bool" where
  "has_title title c = list_ex (\<lambda>x. x = title) (cl_titles c)"

definition update_last_recv :: "u64 \<Rightarrow> client \<Rightarrow> client" where
  "update_last_recv now c = c\<lparr>cl_last_recv := now\<rparr>"

section \<open>Subscriptions\<close>

text \<open>A title that \<open>split(';')\<close> leaves alone: not empty and without the separator.\<close>

definition atomic :: "string \<Rightarrow> bool" where
  "atomic t \<longleftrightarrow> t \<noteq> [] \<and> CHR '';'' \<notin> set t"

lemma title_parts_atomic: "t \<in> set (title_parts title) \<Longrightarrow> atomic t"
  by (auto simp: title_parts_def atomic_def dest: split_on_parts)

lemma fold_push_title_set: "set (fold push_title ps ts) = set ts \<union> {p \<in> set ps. p \<noteq> []}"
  by (induction ps arbitrary: ts) (auto simp: push_title_def)

lemma fold_push_title_distinct: "distinct ts \<Longrightarrow> distinct (fold push_title ps ts)"
  by (induction ps arbitrary: ts) (auto simp: push_title_def)

lemma insert_title_set: "set (cl_titles (insert_title t c)) = set (cl_titles c) \<union> set (title_parts t)"
  by (auto simp: insert_title_def title_parts_def fold_push_title_set)

lemma title_parts_of_atomic: "atomic t \<Longrightarrow> title_parts t = [t]"
  by (simp add: title_parts_def atomic_def split_on_atom)

lemma insert_title_other [simp]:
  "cl_id (insert_title t c) = cl_id c" "cl_sender (insert_title t c) = cl_sender c"
  "cl_last_recv (insert_title t c) = cl_last_recv c"
  by (simp_all add: insert_title_def)

lemma remove_title_other [simp]:
  "cl_id (remove_title t c) = cl_id c" "cl_sender (remove_title t c) = cl_sender c"
  "cl_last_recv (remove_title t c) = cl_last_recv c"
  by (simp_all add: remove_title_def)

lemma remove_title_set [simp]: "set (cl_titles (remove_title t c)) = set (cl_titles c) - {t}"
  by (auto simp: remove_title_def)

text \<open>The persisted form of the subscriptions (\<open>title_str\<close>) is read back by \<open>new\<close>.\<close>

lemma title_str_round_trip:
  assumes "\<And>t. t \<in> set (cl_titles c) \<Longrightarrow> atomic t"
  shows "title_parts (title_str c) = cl_titles c"
proof (cases "cl_titles c = []")
  case False
  then have "split_on CHR '';'' (title_str c) = cl_titles c"
    unfolding title_str_def using assms by (intro split_on_join) (auto simp: atomic_def)
  with assms show ?thesis by (auto simp: title_parts_def atomic_def filter_id_conv)
qed (simp add: title_str_def title_parts_def)

end
