(* ===== verification/NetAddr.thy ===== *)
theory NetAddr
  imports HashRing Client
begin

text \<open>
  Socket addresses as text, the way the standard library prints and parses them: \<open>Display\<close> and
  \<open>FromStr\<close> of \<open>SocketAddr\<close>, for IPv4. An octet has one to three digits without a leading zero, a
  port has any number of digits, and both must fit their width. IPv6 addresses are outside the model:
  they print to nothing readable here and no text parses to one.
\<close>

definition is_digit :: "char \<Rightarrow> bool" where
  "is_digit ch \<longleftrightarrow> 48 \<le> (of_char ch :: nat) \<and> (of_char ch :: nat) \<le> 57"

definition digits_val :: "string \<Rightarrow> nat" where
  "digits_val s = foldl (\<lambda>n ch. 10 * n + (of_char ch - 48)) 0 s"

text \<open>\<open>Parser::read_number\<close>: at most \<open>maxlen\<close> digits, no leading zero unless allowed, below \<open>bound\<close>.\<close>

definition read_number :: "nat option \<Rightarrow> bool \<Rightarrow> nat \<Rightarrow> string \<Rightarrow> nat option" where
  "read_number maxlen zero_prefix bound s =
     (if s = [] \<or> \<not> list_all is_digit s \<or> (case maxlen of None \<Rightarrow> False | Some m \<Rightarrow> m < length s)
        \<or> (\<not> zero_prefix \<and> 1 < length s \<and> hd s = CHR ''0'') \<or> bound \<le> digits_val s
      then None else Some (digits_val s))"

definition addr_show :: "socket_addr \<Rightarrow> string" where
  "addr_show a = join_with CHR ''.'' (map (\<lambda>b. decimal (unat b)) (fst a)) @ CHR '':'' # decimal (unat (snd a))"

definition addr_parse :: "string \<Rightarrow> socket_addr option" where
  "addr_parse s =
     (case split_on CHR '':'' s of
        [ip, port] \<Rightarrow>
          (case map (read_number (Some 3) False 256) (split_on CHR ''.'' ip) of
             [Some a, Some b, Some c, Some d] \<Rightarrow>
               map_option (\<lambda>p. (map word_of_nat [a, b, c, d], word_of_nat p))
                 (read_number None True 65536 port)
           | _ \<Rightarrow> None)
      | _ \<Rightarrow> None)"

section \<open>Lemmas\<close>

lemma of_char_digit [simp]: "n < 10 \<Longrightarrow> of_char (char_of (48 + n) :: char) = (48 + n :: nat)"
  by simp

lemma decimal_digits: "list_all is_digit (decimal n)"
proof (induction n rule: decimal.induct)
  case (1 n)
  then show ?case
    by (cases "n < 10") (simp_all add: decimal.simps[of n] is_digit_def)
qed

lemma digits_val_decimal [simp]: "digits_val (decimal n) = n"
proof (induction n rule: decimal.induct)
  case (1 n)
  show ?case
  proof (cases "n < 10")
    case True
    then show ?thesis by (simp add: decimal.simps[of n] digits_val_def)
  next
    case False
    then have "digits_val (decimal n) = 10 * digits_val (decimal (n div 10)) + n mod 10"
      by (subst decimal.simps) (simp add: digits_val_def)
    also have "\<dots> = n" using 1 False by simp
    finally show ?thesis .
  qed
qed

lemma decimal_nonempty [simp]: "decimal n \<noteq> []"
  by (subst decimal.simps) simp

lemma decimal_no_zero: "0 < n \<Longrightarrow> hd (decimal n) \<noteq> CHR ''0''"
proof (induction n rule: decimal.induct)
  case (1 n)
  show ?case
  proof (cases "n < 10")
    case True
    have "char_of (48 + n) \<noteq> CHR ''0''"
    proof
      assume "char_of (48 + n) = CHR ''0''"
      from arg_cong[OF this, of "of_char :: char \<Rightarrow> nat"] show False using 1 True by simp
    qed
    then show ?thesis using True by (subst decimal.simps) simp
  next
    case False
    then have "hd (decimal n) = hd (decimal (n div 10))"
      by (subst decimal.simps) (simp add: hd_append)
    then show ?thesis using 1 False by simp
  qed
qed

lemma length_decimal_small: "n < 10 \<Longrightarrow> length (decimal n) = 1"
  by (subst decimal.simps) simp

lemma length_decimal_step: "\<not> n < 10 \<Longrightarrow> length (decimal n) = Suc (length (decimal (n div 10)))"
  by (subst decimal.simps) simp

lemma length_decimal_octet: "n < 256 \<Longrightarrow> length (decimal n) \<le> 3"
proof -
  assume n: "n < 256"
  consider "n < 10" | "\<not> n < 10" "n div 10 < 10" | "\<not> n < 10" "\<not> n div 10 < 10" "n div 10 div 10 < 10"
    using n by linarith
  then show ?thesis by cases (simp_all add: length_decimal_small length_decimal_step)
qed

lemma read_decimal:
  assumes "n < bound" "\<And>m. ml = Some m \<Longrightarrow> length (decimal n) \<le> m"
  shows "read_number ml zp bound (decimal n) = Some n"
proof (cases "n = 0")
  case True
  then have "length (decimal n) = 1" by (simp add: length_decimal_small)
  with assms decimal_digits[of n] show ?thesis by (auto simp: read_number_def split: option.splits)
next
  case False
  with assms decimal_no_zero[of n] decimal_digits[of n] show ?thesis
    by (auto simp: read_number_def split: option.splits)
qed

lemma digit_not_sep: "list_all is_digit s \<Longrightarrow> c \<in> {CHR ''.'', CHR '':''} \<Longrightarrow> c \<notin> set s"
  by (auto simp: list_all_iff is_digit_def)

lemma octet_text: "CHR ''.'' \<notin> set (decimal n)" "CHR '':'' \<notin> set (decimal n)"
  using digit_not_sep[OF decimal_digits] by auto

lemma read_octet: "read_number (Some 3) False 256 (decimal (unat (b :: u8))) = Some (unat b)"
  using unsigned_less[of b] by (intro read_decimal) (auto intro: length_decimal_octet)

lemma read_port: "read_number None True 65536 (decimal (unat (p :: 16 word))) = Some (unat p)"
  using unsigned_less[of p] by (intro read_decimal) auto

lemma colon_not_in_join:
  "(\<And>p. p \<in> set ps \<Longrightarrow> CHR '':'' \<notin> set p) \<Longrightarrow> CHR '':'' \<notin> set (join_with CHR ''.'' ps)"
  by (induction "CHR ''.''" ps rule: join_with.induct) auto

lemma addr_round_trip [simp]: "length (fst a) = 4 \<Longrightarrow> addr_parse (addr_show a) = Some a"
proof -
  assume len: "length (fst a) = 4"
  let ?ps = "map (\<lambda>b. decimal (unat b)) (fst a)"
  have sep: "split_on CHR '':'' (addr_show a) = [join_with CHR ''.'' ?ps, decimal (unat (snd a))]"
    unfolding addr_show_def
    by (subst split_on_append) (auto intro!: colon_not_in_join simp: octet_text split_on_atom)
  have dots: "split_on CHR ''.'' (join_with CHR ''.'' ?ps) = ?ps"
    using len by (intro split_on_join) (auto simp: octet_text)
  have nums: "map (read_number (Some 3) False 256) ?ps = map (\<lambda>b. Some (unat b)) (fst a)"
    by (simp add: read_octet)
  obtain x y z u where xs: "fst a = [x, y, z, u]"
    using len by (auto simp: numeral_eq_Suc length_Suc_conv)
  have "addr_parse (addr_show a) = Some ([x, y, z, u], snd a)"
    unfolding addr_parse_def sep list.case dots nums by (simp add: xs read_port)
  then show ?thesis by (simp flip: xs)
qed

end
