(* ===== verification/RouteTable.thy ===== *)
theory RouteTable
  imports HashRing
begin

text \<open>
  The route table each node keeps of the cluster (\<^verbatim>\<open>crates/rex-cluster/src/route_table.rs\<close>): the
  hash ring that owns the titles, the nodes of the clients, the addresses of the nodes, and a
  version counter of 64 bits. The exported state carries no ring; the importer rebuilds it.
\<close>

record route_table =
  title_to_nodes :: hash_ring
  client_id_to_node :: "(u128, node_id) dmap"
  node_id_to_addr :: "(node_id, string) dmap"
  local_node_id :: "node_id option"
  rt_version :: u64

record route_table_state =
  st_version :: u64
  st_client_id_to_node :: "(u128 \<times> node_id) list"
  st_node_id_to_addr :: "(node_id \<times> string) list"

definition rt_new :: route_table where
  "rt_new = \<lparr>title_to_nodes = ring_new, client_id_to_node = [], node_id_to_addr = [],
     local_node_id = None, rt_version = 0\<rparr>"

definition with_local_node :: "node_id \<Rightarrow> route_table" where
  "with_local_node n = rt_new\<lparr>local_node_id := Some n\<rparr>"

definition set_local_node :: "node_id \<Rightarrow> route_table \<Rightarrow> route_table" where
  "set_local_node n t = t\<lparr>local_node_id := Some n\<rparr>"

definition rt_add_node :: "(string \<Rightarrow> u64) \<Rightarrow> node_id \<Rightarrow> string \<Rightarrow> route_table \<Rightarrow> route_table" where
  "rt_add_node hash n addr t =
     t\<lparr>node_id_to_addr := dm_insert n addr (node_id_to_addr t),
       title_to_nodes := ring_add_node hash n (title_to_nodes t),
       rt_version := rt_version t + 1\<rparr>"

definition rt_remove_node :: "node_id \<Rightarrow> route_table \<Rightarrow> route_table" where
  "rt_remove_node n t =
     t\<lparr>node_id_to_addr := dm_remove n (node_id_to_addr t),
       title_to_nodes := ring_remove_node n (title_to_nodes t),
       rt_version := rt_version t + 1\<rparr>"

definition rt_register_client :: "u128 \<Rightarrow> node_id \<Rightarrow> route_table \<Rightarrow> route_table" where
  "rt_register_client c n t =
     t\<lparr>client_id_to_node := dm_insert c n (client_id_to_node t), rt_version := rt_version t + 1\<rparr>"

definition rt_unregister_client :: "u128 \<Rightarrow> route_table \<Rightarrow> route_table" where
  "rt_unregister_client c t =
     t\<lparr>client_id_to_node := dm_remove c (client_id_to_node t), rt_version := rt_version t + 1\<rparr>"

definition get_node_by_title :: "(string \<Rightarrow> u64) \<Rightarrow> route_table \<Rightarrow> string \<Rightarrow> node_id option" where
  "get_node_by_title hash t title = ring_get hash (title_to_nodes t) title"

definition get_node_by_client :: "route_table \<Rightarrow> u128 \<Rightarrow> node_id option" where
  "get_node_by_client t c = dm_get (client_id_to_node t) c"

definition get_node_addr :: "route_table \<Rightarrow> node_id \<Rightarrow> string option" where
  "get_node_addr t n = dm_get (node_id_to_addr t) n"

definition get_all_nodes :: "route_table \<Rightarrow> node_id list" where
  "get_all_nodes t = dm_keys (node_id_to_addr t)"

definition get_nodes_by_title ::
    "(string \<Rightarrow> u64) \<Rightarrow> route_table \<Rightarrow> string \<Rightarrow> nat \<Rightarrow> (fault + node_id list) option" where
  "get_nodes_by_title hash t title n = get_n hash (title_to_nodes t) title n"

definition is_client_local :: "route_table \<Rightarrow> u128 \<Rightarrow> bool" where
  "is_client_local t c =
     (case local_node_id t of
        None \<Rightarrow> False
      | Some loc \<Rightarrow> (case get_node_by_client t c of None \<Rightarrow> False | Some node \<Rightarrow> node = loc))"

definition export_state :: "route_table \<Rightarrow> route_table_state" where
  "export_state t = \<lparr>st_version = rt_version t, st_client_id_to_node = client_id_to_node t,
     st_node_id_to_addr = node_id_to_addr t\<rparr>"

definition import_state :: "(string \<Rightarrow> u64) \<Rightarrow> route_table_state \<Rightarrow> route_table \<Rightarrow> route_table" where
  "import_state hash st t =
     t\<lparr>title_to_nodes := fold (\<lambda>(n, _). ring_add_node hash n) (st_node_id_to_addr st) ring_new,
       client_id_to_node := fold (\<lambda>(c, n). dm_insert c n) (st_client_id_to_node st) [],
       node_id_to_addr := fold (\<lambda>(n, a). dm_insert n a) (st_node_id_to_addr st) [],
       rt_version := st_version st\<rparr>"

section \<open>Specification\<close>

text \<open>The ring and the address book know the same nodes.\<close>

definition rt_ok :: "(string \<Rightarrow> u64) \<Rightarrow> route_table \<Rightarrow> bool" where
  "rt_ok hash t \<longleftrightarrow> ring_ok hash (title_to_nodes t) \<and> virtual_nodes (title_to_nodes t) = 150
     \<and> dm_ok (client_id_to_node t) \<and> dm_ok (node_id_to_addr t)
     \<and> set (ring_nodes (title_to_nodes t)) = set (get_all_nodes t)"

datatype rt_op = RtSetLocal node_id | RtAdd node_id string | RtRemove node_id
  | RtRegister u128 node_id | RtUnregister u128 | RtImport route_table_state

fun rt_apply :: "(string \<Rightarrow> u64) \<Rightarrow> rt_op \<Rightarrow> route_table \<Rightarrow> route_table" where
  "rt_apply hash (RtSetLocal n) t = set_local_node n t"
| "rt_apply hash (RtAdd n a) t = rt_add_node hash n a t"
| "rt_apply hash (RtRemove n) t = rt_remove_node n t"
| "rt_apply hash (RtRegister c n) t = rt_register_client c n t"
| "rt_apply hash (RtUnregister c) t = rt_unregister_client c t"
| "rt_apply hash (RtImport st) t = import_state hash st t"

section \<open>Lemmas\<close>

lemma ring_nodes_add [simp]:
  "set (ring_nodes (ring_add_node hash n r)) = insert n (set (ring_nodes r))"
proof (cases "dm_get (positions r) n")
  case (Some hs)
  then show ?thesis
    by (auto simp: ring_add_node_def ring_nodes_def dm_keys_def dest: map_of_SomeD
        intro: image_eqI[of _ _ "(n, hs)"])
qed (simp add: ring_nodes_def dm_keys_def ring_add_fresh)

lemma ring_nodes_remove [simp]:
  "set (ring_nodes (ring_remove_node n r)) = set (ring_nodes r) - {n}"
  by (auto simp: ring_remove_node_def ring_nodes_def dm_keys_def rebuild_sorted_def AList.delete_eq
      map_of_eq_None_iff image_iff split: option.splits)

lemma virtual_nodes_add [simp]: "virtual_nodes (ring_add_node hash n r) = virtual_nodes r"
  by (simp add: ring_add_node_def rebuild_sorted_def split: prod.splits)

lemma virtual_nodes_remove [simp]: "virtual_nodes (ring_remove_node n r) = virtual_nodes r"
  by (simp add: ring_remove_node_def rebuild_sorted_def split: option.splits)

lemma set_dm_keys_insert [simp]: "set (dm_keys (dm_insert k v m)) = insert k (set (dm_keys m))"
  by (auto simp: dm.keys_get)

lemma set_dm_keys_remove [simp]: "set (dm_keys (dm_remove k m)) = set (dm_keys m) - {k}"
  by (auto simp: dm.keys_get)

lemma dm_keys_Nil [simp]: "dm_keys [] = []"
  by (simp add: dm_keys_def)

lemma ring_new_facts [simp]: "virtual_nodes ring_new = 150" "ring_nodes ring_new = []"
  by (simp_all add: ring_new_def ring_nodes_def)

lemma fold_add_ring:
  "ring_ok hash r \<Longrightarrow> ring_ok hash (fold (\<lambda>(n, _). ring_add_node hash n) xs r)"
  "virtual_nodes (fold (\<lambda>(n, _). ring_add_node hash n) xs r) = virtual_nodes r"
  "set (ring_nodes (fold (\<lambda>(n, _). ring_add_node hash n) xs r)) = fst ` set xs \<union> set (ring_nodes r)"
  by (induction xs arbitrary: r) (auto simp: ring_add_ok)

lemma fold_insert_dm:
  "dm_ok m \<Longrightarrow> dm_ok (fold (\<lambda>(k, v). dm_insert k v) xs m)"
  "set (dm_keys (fold (\<lambda>(k, v). dm_insert k v) xs m)) = fst ` set xs \<union> set (dm_keys m)"
  by (induction xs arbitrary: m) auto

lemma fold_insert_copy:
  assumes "dm_ok (ys @ xs)"
  shows "fold (\<lambda>(k, v). dm_insert k v) xs ys = ys @ xs"
  using assms
proof (induction xs arbitrary: ys)
  case (Cons x xs)
  then have "dm_get ys (fst x) = None" by (auto simp: dm_ok_def map_of_eq_None_iff)
  with Cons show ?case by (cases x) (simp add: dm_insert_fresh)
qed simp

lemma rt_new_ok: "rt_ok hash rt_new"
  by (simp add: rt_ok_def rt_new_def ring_ok_new get_all_nodes_def)

lemma rt_step: "rt_ok hash t \<Longrightarrow> rt_ok hash (rt_apply hash op t)"
  by (cases op)
    (auto simp: rt_ok_def set_local_node_def rt_add_node_def rt_remove_node_def rt_register_client_def
      rt_unregister_client_def import_state_def get_all_nodes_def ring_add_ok ring_remove_ok
      fold_add_ring fold_insert_dm ring_ok_new)

lemma rt_run: "rt_ok hash t \<Longrightarrow> rt_ok hash (fold (rt_apply hash) ops t)"
  by (induction ops arbitrary: t) (simp_all add: rt_step)

section \<open>Properties\<close>

text \<open>
  C27: After any sequence of operations on a route table, imports of arbitrary foreign states
  included, the ring and the address book know the same nodes; so a title always resolves when a
  node is known, and to a node whose address is known.
\<close>

theorem title_resolves_to_address:
  "let t = fold (rt_apply hash) ops rt_new in
     (get_all_nodes t \<noteq> [] \<longrightarrow> (\<exists>n addr. get_node_by_title hash t title = Some n
        \<and> get_node_addr t n = Some addr))
   \<and> (get_all_nodes t = [] \<longrightarrow> get_node_by_title hash t title = None)"
proof -
  let ?t = "fold (rt_apply hash) ops rt_new"
  have ok: "rt_ok hash ?t" by (rule rt_run[OF rt_new_ok])
  let ?r = "title_to_nodes ?t"
  have rok: "ring_ok hash ?r" and v: "0 < unat (virtual_nodes ?r)"
    and nodes: "set (ring_nodes ?r) = set (get_all_nodes ?t)"
    using ok by (simp_all add: rt_ok_def)
  have empty: "ring ?r = [] \<longleftrightarrow> get_all_nodes ?t = []"
  proof
    assume "ring ?r = []"
    then show "get_all_nodes ?t = []"
      using node_has_entry[OF rok v] nodes by (fastforce simp: ring_nodes_def dm_keys_def)
  next
    assume "get_all_nodes ?t = []"
    then show "ring ?r = []"
      using ring_entry_node[OF rok] nodes by (cases "ring ?r") (force simp: ring_nodes_def dm_keys_def)+
  qed
  have "\<exists>n addr. get_node_by_title hash ?t title = Some n \<and> get_node_addr ?t n = Some addr"
    if ne: "get_all_nodes ?t \<noteq> []"
  proof -
    obtain n where "n \<in> set (ring_nodes ?r)" "get_by_hash ?r (hash title) = Some n"
      using owner_exists[OF rok, of "hash title"] ne empty by blast
    with nodes ne empty show ?thesis
      by (auto simp: get_node_by_title_def ring_get_def get_node_addr_def get_all_nodes_def dm.keys_get)
  qed
  with empty show ?thesis by (simp add: Let_def get_node_by_title_def ring_get_def)
qed

theorem title_resolves_to_address_witness:
  "let t = fold (rt_apply (\<lambda>_. 3)) [RtAdd ''n1'' ''addr'', RtRegister 7 ''n1''] rt_new in
     \<exists>n addr. get_node_by_title (\<lambda>_. 3) t ''news'' = Some n \<and> get_node_addr t n = Some addr"
proof -
  let ?t = "fold (rt_apply (\<lambda>_. 3)) [RtAdd ''n1'' ''addr'', RtRegister 7 ''n1''] rt_new"
  have "get_all_nodes ?t \<noteq> []"
    by (simp add: get_all_nodes_def rt_add_node_def rt_register_client_def rt_new_def dm_keys_def)
  then show ?thesis
    using title_resolves_to_address[of "\<lambda>_. 3" "[RtAdd ''n1'' ''addr'', RtRegister 7 ''n1'']" "''news''"]
    unfolding Let_def by blast
qed

text \<open>
  State transfer between nodes is lossless: importing what another table exported gives the
  same clients, nodes, addresses and version, keeps the importer's own identity, and, when no two
  nodes collide on the ring and both tables hash alike (which two processes do not), the same owner for
  every title.
\<close>

theorem import_export:
  assumes "t = fold (rt_apply hash) ops rt_new" "t' = import_state hash (export_state t) u"
  shows "client_id_to_node t' = client_id_to_node t \<and> node_id_to_addr t' = node_id_to_addr t
     \<and> rt_version t' = rt_version t \<and> local_node_id t' = local_node_id u
     \<and> (collision_free hash 150 (set (get_all_nodes t)) \<longrightarrow>
          get_node_by_title hash t' title = get_node_by_title hash t title)"
proof -
  have ok: "rt_ok hash t" unfolding assms(1) by (rule rt_run[OF rt_new_ok])
  then have dm: "dm_ok (client_id_to_node t)" "dm_ok (node_id_to_addr t)" by (simp_all add: rt_ok_def)
  have "get_node_by_title hash t' title = get_node_by_title hash t title"
    if cf: "collision_free hash 150 (set (get_all_nodes t))"
  proof -
    have rok: "ring_ok hash (title_to_nodes t)" "ring_ok hash (title_to_nodes t')"
      using ok by (simp_all add: rt_ok_def assms(2) import_state_def fold_add_ring ring_ok_new)
    have vn: "virtual_nodes (title_to_nodes t') = 150" "virtual_nodes (title_to_nodes t) = 150"
      using ok by (simp_all add: rt_ok_def assms(2) import_state_def fold_add_ring)
    have nd: "set (ring_nodes (title_to_nodes t')) = set (get_all_nodes t)"
        "set (ring_nodes (title_to_nodes t)) = set (get_all_nodes t)"
      using ok by (simp_all add: rt_ok_def assms(2) import_state_def export_state_def fold_add_ring
          get_all_nodes_def dm_keys_def)
    have "get_by_hash (title_to_nodes t') h = get_by_hash (title_to_nodes t) h" for h
      using rok vn nd cf by (intro same_nodes_same_owner[of hash]) simp_all
    moreover have "ring_get hash r title = get_by_hash r (hash title)" if "ring_ok hash r" for r
      using that get_by_hash_spec[OF that, of "hash title"] by (simp add: ring_get_def)
    ultimately show ?thesis using rok by (simp add: get_node_by_title_def)
  qed
  then show ?thesis
    using fold_insert_copy[of "[]" "client_id_to_node t"] fold_insert_copy[of "[]" "node_id_to_addr t"] dm
    by (simp add: assms(2) import_state_def export_state_def)
qed

theorem import_export_witness:
  "let t = fold (rt_apply (\<lambda>_. 3)) [RtAdd ''n1'' ''addr'', RtRegister 7 ''n1''] rt_new;
       t' = import_state (\<lambda>_. 3) (export_state t) (with_local_node ''me'') in
   client_id_to_node t' = [(7, ''n1'')] \<and> rt_version t' = 2 \<and> local_node_id t' = Some ''me''
   \<and> get_node_by_title (\<lambda>_. 3) t' ''x'' = get_node_by_title (\<lambda>_. 3) t ''x''"
proof -
  let ?t = "fold (rt_apply (\<lambda>_. 3)) [RtAdd ''n1'' ''addr'', RtRegister 7 ''n1''] rt_new"
  have "collision_free (\<lambda>_. 3) 150 (set (get_all_nodes ?t))"
    by (simp add: collision_free_def get_all_nodes_def rt_add_node_def rt_register_client_def
        rt_new_def dm_keys_def)
  moreover have "client_id_to_node ?t = [(7, ''n1'')]" "rt_version ?t = 2"
    by (simp_all add: rt_add_node_def rt_register_client_def rt_new_def)
  ultimately show ?thesis
    using import_export[OF refl refl, of "\<lambda>_. 3" "[RtAdd ''n1'' ''addr'', RtRegister 7 ''n1'']"
        "with_local_node ''me''" "''x''"]
    unfolding Let_def by (auto simp: with_local_node_def)
qed
end
