(* ===== verification/Cluster.thy ===== *)
theory Cluster
  imports NetAddr RouteTable
begin

text \<open>
  The cluster crate around the route table (\<^verbatim>\<open>crates/rex-cluster/src\<close>): the messages of
  \<^verbatim>\<open>types.rs\<close>, the framed connections of \<^verbatim>\<open>transport.rs\<close> and the node manager of \<^verbatim>\<open>node.rs\<close>. The
  serialiser of the messages is bincode, an argument (\<open>cluster_codec\<close>). A connection is known by the
  number of its \<open>mpsc\<close> channel; sending to a channel succeeds until its receiver is dropped (waiting
  for room in the channel is not modelled). Whether a TCP connect succeeds is an argument.
\<close>

unbundle bit_operations_syntax

section \<open>Messages and configuration\<close>

record node_info =
  ni_node_id :: node_id
  ni_listen_addr :: socket_addr
  ni_last_heartbeat :: u64

definition node_info_new :: "node_id \<Rightarrow> socket_addr \<Rightarrow> node_info" where
  "node_info_new n a = \<lparr>ni_node_id = n, ni_listen_addr = a, ni_last_heartbeat = 0\<rparr>"

record cluster_config =
  cc_enabled :: bool
  cc_node_id :: node_id
  cc_listen_addr :: socket_addr
  cc_seed_nodes :: "socket_addr list"
  cc_communication_timeout_ms :: u64
  cc_heartbeat_interval_ms :: u64
  cc_max_retries :: u32

text \<open>\<open>ClusterConfig::default\<close>: the random id is an argument.\<close>

definition cluster_config_default :: "u128 \<Rightarrow> cluster_config" where
  "cluster_config_default r = \<lparr>cc_enabled = False, cc_node_id = decimal (unat r),
     cc_listen_addr = ([127, 0, 0, 1], 0), cc_seed_nodes = [], cc_communication_timeout_ms = 1000,
     cc_heartbeat_interval_ms = 1000, cc_max_retries = 3\<rparr>"

definition cluster_config_new :: "u128 \<Rightarrow> node_id \<Rightarrow> socket_addr \<Rightarrow> cluster_config" where
  "cluster_config_new r n a =
     (cluster_config_default r)\<lparr>cc_enabled := True, cc_node_id := n, cc_listen_addr := a\<rparr>"

definition with_seed_nodes :: "socket_addr list \<Rightarrow> cluster_config \<Rightarrow> cluster_config" where
  "with_seed_nodes seeds cfg = cfg\<lparr>cc_seed_nodes := seeds\<rparr>"

definition with_heartbeat_interval :: "u64 \<Rightarrow> cluster_config \<Rightarrow> cluster_config" where
  "with_heartbeat_interval ms cfg = cfg\<lparr>cc_heartbeat_interval_ms := ms\<rparr>"

record heartbeat_message =
  hb_leader_id :: node_id

record ping_message =
  pg_node_id :: node_id
  pg_timestamp :: u64

record forward_message =
  fm_forward_id :: u64
  fm_original_source :: u128
  fm_target_client_id :: u128
  fm_title :: string
  fm_payload :: bytes
  fm_is_group :: bool
  fm_is_broadcast :: bool
  fm_require_ack :: bool

record forward_ack_message =
  fa_forward_id :: u64
  fa_from_node_id :: node_id
  fa_original_source :: u128
  fa_success :: bool
  fa_error :: "string option"

record title_register_message =
  tr_node_id :: node_id
  tr_title :: string
  tr_client_id :: u128

record title_unregister_message =
  tu_node_id :: node_id
  tu_title :: string

datatype cluster_message =
    Join node_info | NodeList "node_info list" | Heartbeat heartbeat_message
  | Forward forward_message | ForwardAck forward_ack_message | Ping ping_message
  | TitleRegister title_register_message | TitleUnregister title_unregister_message

record cluster_codec =
  cm_ser :: "cluster_message \<Rightarrow> bytes option"
  cm_de :: "bytes \<Rightarrow> cluster_message option"

section \<open>The transport\<close>

definition MAX_MESSAGE_SIZE :: nat where "MAX_MESSAGE_SIZE = 16 * 1024 * 1024"

definition HEADER_SIZE :: nat where "HEADER_SIZE = 4"

text \<open>The big-endian length both read loops compute, and \<open>put_u32\<close>.\<close>

definition frame_length :: "bytes \<Rightarrow> nat" where
  "frame_length buf = unat (push_bit 24 (ucast (buf ! 0)) OR push_bit 16 (ucast (buf ! 1))
     OR push_bit 8 (ucast (buf ! 2)) OR ucast (buf ! 3) :: u64)"

definition put_u32 :: "u32 \<Rightarrow> bytes" where
  "put_u32 n = rev (u32_le n)"

text \<open>
  The loop \<open>while buffer.len() >= HEADER_SIZE\<close>: the payloads it extracts, in order, and the bytes it
  leaves in the buffer. The treatment of a payload does not touch the buffer.
\<close>

function take_frames :: "bytes \<Rightarrow> bytes list \<times> bytes" where
  "take_frames buf =
     (if length buf < HEADER_SIZE then ([], buf)
      else let len = frame_length buf in
        if MAX_MESSAGE_SIZE < len then take_frames (drop HEADER_SIZE buf)
        else if length buf < HEADER_SIZE + len then ([], buf)
        else let data = take len (drop HEADER_SIZE buf) in
          (case take_frames (drop (HEADER_SIZE + len) buf) of (fs, rest) \<Rightarrow> (data # fs, rest)))"
  by pat_completeness auto
termination
  by (relation "measure length") (auto simp: HEADER_SIZE_def)

declare take_frames.simps [simp del]

type_synonym channel = nat

record transport =
  tp_local_node_id :: node_id
  tp_connections :: "(node_id, channel) dmap"
  tp_write_handles :: "(node_id, channel) dmap"
  tp_incoming :: "(node_id \<times> cluster_message) list"
  tp_shutdown :: bool
  tp_next :: channel
  tp_dropped :: "channel list"
  tp_accepted :: "(channel \<times> bytes) list"

text \<open>
  The last three fields are the channels: the next number, the channels whose receiver is gone, and
  the frames each channel took. \<open>tp_incoming\<close> is what went into \<open>message_tx\<close>.
\<close>

definition transport_new :: "node_id \<Rightarrow> transport" where
  "transport_new n = \<lparr>tp_local_node_id = n, tp_connections = [], tp_write_handles = [],
     tp_incoming = [], tp_shutdown = False, tp_next = 0, tp_dropped = [], tp_accepted = []\<rparr>"

definition drop_receiver :: "channel \<Rightarrow> transport \<Rightarrow> transport" where
  "drop_receiver ch t = t\<lparr>tp_dropped := ch # tp_dropped t\<rparr>"

definition new_channel :: "transport \<Rightarrow> channel \<times> transport" where
  "new_channel t = (tp_next t, t\<lparr>tp_next := tp_next t + 1\<rparr>)"

definition is_connected :: "node_id \<Rightarrow> transport \<Rightarrow> bool" where
  "is_connected n t \<longleftrightarrow> dm_get (tp_connections t) n \<noteq> None"

definition connected_nodes :: "transport \<Rightarrow> node_id list" where
  "connected_nodes t = dm_keys (tp_connections t)"

datatype send_error = NotConnected | SerializeError | ChannelClosed

text \<open>\<open>data.len() as u32\<close> wraps.\<close>

definition frame :: "bytes \<Rightarrow> bytes" where
  "frame data = put_u32 (word_of_nat (length data)) @ data"

definition send_to :: "cluster_codec \<Rightarrow> node_id \<Rightarrow> cluster_message \<Rightarrow> transport
    \<Rightarrow> (send_error + unit) \<times> transport" where
  "send_to C n m t =
     (case dm_get (tp_connections t) n of
        None \<Rightarrow> (Inl NotConnected, t)
      | Some ch \<Rightarrow> (case cm_ser C m of
            None \<Rightarrow> (Inl SerializeError, t)
          | Some data \<Rightarrow>
              if ch \<in> set (tp_dropped t) then (Inl ChannelClosed, t)
              else (Inr (), t\<lparr>tp_accepted := tp_accepted t @ [(ch, frame data)]\<rparr>)))"

definition transport_broadcast :: "cluster_codec \<Rightarrow> cluster_message \<Rightarrow> transport \<Rightarrow> transport" where
  "transport_broadcast C m t = fold (\<lambda>n t'. snd (send_to C n m t')) (connected_nodes t) t"

text \<open>\<open>handle.abort()\<close> drops the receiver the write task owns.\<close>

definition remove_connection :: "node_id \<Rightarrow> transport \<Rightarrow> transport" where
  "remove_connection n t =
     (let t1 = t\<lparr>tp_connections := dm_remove n (tp_connections t)\<rparr> in
      case dm_get (tp_write_handles t1) n of
        None \<Rightarrow> t1
      | Some ch \<Rightarrow> drop_receiver ch (t1\<lparr>tp_write_handles := dm_remove n (tp_write_handles t1)\<rparr>))"

text \<open>\<open>connect\<close>: \<open>ok\<close> says whether \<open>TcpStream::connect\<close> and \<open>set_nodelay\<close> succeed.\<close>

definition transport_connect :: "bool \<Rightarrow> node_id \<Rightarrow> transport \<Rightarrow> bool \<times> transport" where
  "transport_connect ok n t =
     (if dm_get (tp_connections t) n \<noteq> None then (True, t)
      else if \<not> ok then (False, t)
      else case new_channel t of (ch, t1) \<Rightarrow>
        (True, t1\<lparr>tp_connections := dm_insert n ch (tp_connections t1),
           tp_write_handles := dm_insert n ch (tp_write_handles t1)\<rparr>))"

definition transport_shutdown :: "transport \<Rightarrow> transport" where
  "transport_shutdown t = t\<lparr>tp_shutdown := True\<rparr>"

text \<open>The read loop of an outgoing connection, for one chunk: every message is attributed to the key
  the connection was opened under.\<close>

definition outgoing_payload :: "cluster_codec \<Rightarrow> node_id \<Rightarrow> bytes \<Rightarrow> transport \<Rightarrow> transport" where
  "outgoing_payload C n data t =
     (case cm_de C data of
        None \<Rightarrow> t
      | Some m \<Rightarrow> t\<lparr>tp_incoming := tp_incoming t @ [(n, m)]\<rparr>)"

definition outgoing_read :: "cluster_codec \<Rightarrow> node_id \<Rightarrow> bytes \<Rightarrow> bytes \<times> transport \<Rightarrow> bytes \<times> transport" where
  "outgoing_read C n chunk s =
     (case s of (buffer, t) \<Rightarrow> case take_frames (buffer @ chunk) of (fs, rest) \<Rightarrow>
        (rest, fold (outgoing_payload C n) fs t))"

text \<open>The task of an incoming connection: its channel, its buffer, and the peer once a \<open>Join\<close> named it.\<close>

record incoming =
  in_channel :: channel
  in_buffer :: bytes
  in_node :: "node_id option"
  in_stored :: bool

definition incoming_new :: "transport \<Rightarrow> incoming \<times> transport" where
  "incoming_new t = (case new_channel t of (ch, t1) \<Rightarrow>
     (\<lparr>in_channel = ch, in_buffer = [], in_node = None, in_stored = False\<rparr>, t1))"

definition incoming_payload :: "cluster_codec \<Rightarrow> bytes \<Rightarrow> incoming \<times> transport \<Rightarrow> incoming \<times> transport" where
  "incoming_payload C data s =
     (case s of (c, t) \<Rightarrow> case cm_de C data of
        None \<Rightarrow> (c, t)
      | Some m \<Rightarrow>
          let (c1, t1) = (case m of
                Join ni \<Rightarrow> if in_stored c then (c, t)
                  else (c\<lparr>in_node := Some (ni_node_id ni), in_stored := True\<rparr>,
                        t\<lparr>tp_connections := dm_insert (ni_node_id ni) (in_channel c) (tp_connections t)\<rparr>)
              | _ \<Rightarrow> (c, t));
            source_node = (case m of
                Join ni \<Rightarrow> ni_node_id ni
              | _ \<Rightarrow> (case in_node c1 of None \<Rightarrow> ''unknown'' | Some n \<Rightarrow> n))
          in (c1, t1\<lparr>tp_incoming := tp_incoming t1 @ [(source_node, m)]\<rparr>))"

text \<open>
  What the \<open>select!\<close> of the task can see: bytes read, bytes taken from the channel and written (or
  not), the end of the stream or a read error, and the shutdown signal. The parse loop runs after
  every event that does not end the task; the end drops the receiver of the channel.
\<close>

datatype conn_event = ConnRead bytes | ConnWrite bool | ConnEnd | ConnShutdown

definition incoming_parse :: "cluster_codec \<Rightarrow> incoming \<times> transport \<Rightarrow> incoming \<times> transport" where
  "incoming_parse C s =
     (case s of (c, t) \<Rightarrow> case take_frames (in_buffer c) of (fs, rest) \<Rightarrow>
        fold (incoming_payload C) fs (c\<lparr>in_buffer := rest\<rparr>, t))"

fun handle_incoming :: "cluster_codec \<Rightarrow> conn_event list \<Rightarrow> incoming \<times> transport \<Rightarrow> incoming \<times> transport" where
  "handle_incoming C [] s = s"
| "handle_incoming C (ConnRead chunk # es) (c, t) =
     (if chunk = [] then (c, drop_receiver (in_channel c) t)
      else handle_incoming C es (incoming_parse C (c\<lparr>in_buffer := in_buffer c @ chunk\<rparr>, t)))"
| "handle_incoming C (ConnWrite ok # es) (c, t) =
     (if ok then handle_incoming C es (incoming_parse C (c, t))
      else (c, drop_receiver (in_channel c) t))"
| "handle_incoming C (ConnEnd # es) (c, t) = (c, drop_receiver (in_channel c) t)"
| "handle_incoming C (ConnShutdown # es) (c, t) = (c, drop_receiver (in_channel c) t)"

section \<open>The node manager\<close>

text \<open>
  \<open>NodeManager\<close>. The forwarding task gets a map of its own, \<open>nm_task_nodes\<close>, which nothing else
  refers to. \<open>nm_forwarded\<close> is what went into the dispatcher's channel.
\<close>

record node_manager =
  nm_config :: cluster_config
  nm_nodes :: "(node_id, node_info) dmap"
  nm_task_nodes :: "(node_id, node_info) dmap"
  nm_transport :: transport
  nm_forwarded :: "cluster_message list"
  nm_shutdown_sent :: bool

definition nm_new :: "cluster_config \<Rightarrow> node_manager" where
  "nm_new cfg = \<lparr>nm_config = cfg, nm_nodes = [], nm_task_nodes = [],
     nm_transport = transport_new (cc_node_id cfg), nm_forwarded = [], nm_shutdown_sent = False\<rparr>"

definition forward_incoming :: "u64 \<Rightarrow> node_id \<times> cluster_message \<Rightarrow> node_manager \<Rightarrow> node_manager" where
  "forward_incoming now_ms inc nm =
     (case inc of (source_node, m) \<Rightarrow>
       let nm1 = (case dm_get (nm_task_nodes nm) source_node of
             None \<Rightarrow> nm
           | Some ni \<Rightarrow> nm\<lparr>nm_task_nodes :=
               dm_insert source_node (ni\<lparr>ni_last_heartbeat := now_ms\<rparr>) (nm_task_nodes nm)\<rparr>)
       in nm1\<lparr>nm_forwarded := nm_forwarded nm1 @ [m]\<rparr>)"

definition seed_key :: "socket_addr \<Rightarrow> node_id" where
  "seed_key a = ''seed-'' @ addr_show a"

definition connect_to_seed :: "cluster_codec \<Rightarrow> (socket_addr \<Rightarrow> bool) \<Rightarrow> socket_addr \<Rightarrow> node_manager
    \<Rightarrow> node_manager" where
  "connect_to_seed C reach a nm =
     (case transport_connect (reach a) (seed_key a) (nm_transport nm) of
        (False, t) \<Rightarrow> nm\<lparr>nm_transport := t\<rparr>
      | (True, t) \<Rightarrow> nm\<lparr>nm_transport := snd (send_to C (seed_key a)
            (Join (node_info_new (cc_node_id (nm_config nm)) (cc_listen_addr (nm_config nm)))) t)\<rparr>)"

definition connect_to_seeds :: "cluster_codec \<Rightarrow> (socket_addr \<Rightarrow> bool) \<Rightarrow> node_manager \<Rightarrow> node_manager" where
  "connect_to_seeds C reach nm = fold (connect_to_seed C reach) (cc_seed_nodes (nm_config nm)) nm"

text \<open>\<open>start\<close>: the listener is a task of its own, the heartbeat ticks below.\<close>

definition nm_start :: "cluster_codec \<Rightarrow> (socket_addr \<Rightarrow> bool) \<Rightarrow> node_manager \<Rightarrow> node_manager" where
  "nm_start C reach nm = (if cc_seed_nodes (nm_config nm) \<noteq> [] then connect_to_seeds C reach nm else nm)"

definition heartbeat_tick :: "cluster_codec \<Rightarrow> node_manager \<Rightarrow> node_manager" where
  "heartbeat_tick C nm = nm\<lparr>nm_transport :=
     transport_broadcast C (Heartbeat \<lparr>hb_leader_id = cc_node_id (nm_config nm)\<rparr>) (nm_transport nm)\<rparr>"

definition handle_join :: "node_info \<Rightarrow> node_manager \<Rightarrow> node_manager" where
  "handle_join ni nm = nm\<lparr>nm_nodes := dm_insert (ni_node_id ni) ni (nm_nodes nm)\<rparr>"

definition handle_message :: "cluster_message \<Rightarrow> node_manager \<Rightarrow> node_manager" where
  "handle_message m nm = (case m of Join ni \<Rightarrow> handle_join ni nm | _ \<Rightarrow> nm)"

definition nm_send_to :: "cluster_codec \<Rightarrow> node_id \<Rightarrow> cluster_message \<Rightarrow> node_manager
    \<Rightarrow> (send_error + unit) \<times> node_manager" where
  "nm_send_to C n m nm = (case send_to C n m (nm_transport nm) of (r, t) \<Rightarrow> (r, nm\<lparr>nm_transport := t\<rparr>))"

definition nm_shutdown :: "node_manager \<Rightarrow> node_manager" where
  "nm_shutdown nm = nm\<lparr>nm_shutdown_sent := True, nm_transport := transport_shutdown (nm_transport nm)\<rparr>"

end
