(* ===== verification/ClusterProps.thy ===== *)
theory ClusterProps
  imports Cluster
begin

text \<open>
  What the cluster crate delivers: the framing carries every sequence of messages through any
  chunking of the byte stream, except that a message over the size limit is taken apart; what is left
  of a connection after its end; and what the node manager knows of its peers.
\<close>

section \<open>Framing\<close>

lemma frame_length_le:
  assumes "4 \<le> length buf"
  shows "frame_length buf = le_dec (rev (take 4 buf))"
proof -
  obtain a b c d rest where buf: "buf = a # b # c # d # rest"
    using assms by (auto simp: numeral_eq_Suc Suc_le_length_iff)
  have dis:
    "push_bit 24 (ucast a :: u64) AND (push_bit 16 (ucast b) OR push_bit 8 (ucast c) OR ucast d) = 0"
    "push_bit 16 (ucast b :: u64) AND (push_bit 8 (ucast c) OR ucast d) = 0"
    "push_bit 8 (ucast c :: u64) AND (ucast d) = 0"
    by (auto intro!: bit_word_eqI simp: bit_simps dest!: u8_bit_less)
  let ?n = "unat d + 256 * (unat c + 256 * (unat b + 256 * unat a))"
  have "(push_bit 24 (ucast a) OR push_bit 16 (ucast b) OR push_bit 8 (ucast c) OR ucast d :: u64)
    = push_bit 24 (ucast a) + (push_bit 16 (ucast b) + (push_bit 8 (ucast c) + ucast d))"
    using dis by (simp add: disjunctive_add_eq_or ac_simps)
  also have "\<dots> = word_of_nat ?n"
    by (simp add: push_bit_eq_mult algebra_simps)
  finally have *: "frame_length buf = unat (word_of_nat ?n :: u64)" by (simp add: buf frame_length_def)
  have n: "le_dec (rev (take 4 buf)) = ?n" by (simp add: buf)
  have "le_dec (rev (take 4 buf)) < 2 ^ LENGTH(64)" using le_dec_bound[of "rev (take 4 buf)"] by (simp add: buf)
  then show ?thesis unfolding * n by (rule unat_word_of_nat_small)
qed

lemma length_put_u32 [simp]: "length (put_u32 n) = 4"
  by (simp add: put_u32_def u32_le_def)

lemma frame_length_put [simp]: "frame_length (put_u32 n @ x) = unat n"
proof -
  have "unat n < 256 ^ 4" using unsigned_less[of n] by simp
  then show ?thesis by (simp add: frame_length_le put_u32_def u32_le_def)
qed

lemma length_frame [simp]: "length (frame d) = 4 + length d"
  by (simp add: frame_def)

lemma frame_nonempty [simp]: "frame d \<noteq> []"
  by (simp flip: length_greater_0_conv)

lemma frame_length_frame: "length d < 2 ^ 32 \<Longrightarrow> frame_length (frame d @ rest) = length d"
  by (simp add: frame_def unat_word_of_nat_small)

lemma max_small: "MAX_MESSAGE_SIZE < 2 ^ 32"
  by (simp add: MAX_MESSAGE_SIZE_def)

lemma take_frames_frame:
  assumes "length d \<le> MAX_MESSAGE_SIZE"
  shows "take_frames (frame d @ rest) = (d # fst (take_frames rest), snd (take_frames rest))"
proof -
  have "length d < 2 ^ 32" using assms max_small by linarith
  then have len: "frame_length (frame d @ rest) = length d" by (rule frame_length_frame)
  have "drop HEADER_SIZE (frame d @ rest) = d @ rest" "drop (HEADER_SIZE + length d) (frame d @ rest) = rest"
    by (simp_all add: frame_def HEADER_SIZE_def)
  then show ?thesis
    using assms by (subst take_frames.simps) (simp add: len Let_def HEADER_SIZE_def split: prod.splits)
qed

lemma take_frames_oversized:
  assumes "MAX_MESSAGE_SIZE < length d" "length d < 2 ^ 32"
  shows "take_frames (frame d @ rest) = take_frames (d @ rest)"
proof -
  have "drop HEADER_SIZE (frame d @ rest) = d @ rest" by (simp add: frame_def HEADER_SIZE_def)
  then show ?thesis
    using assms by (subst take_frames.simps) (simp add: frame_length_frame Let_def HEADER_SIZE_def)
qed

lemma take_frames_frames:
  "\<forall>d \<in> set ds. length d \<le> MAX_MESSAGE_SIZE \<Longrightarrow> take_frames (concat (map frame ds)) = (ds, [])"
  by (induction ds) (simp_all add: take_frames_frame take_frames.simps[of "[]"] HEADER_SIZE_def)

text \<open>Parsing what arrived first and then the rest is parsing everything at once.\<close>

lemma take_frames_append:
  "take_frames (a @ b) = (fst (take_frames a) @ fst (take_frames (snd (take_frames a) @ b)),
     snd (take_frames (snd (take_frames a) @ b)))"
proof (induction a rule: take_frames.induct)
  case (1 a)
  let ?len = "frame_length a"
  consider "length a < HEADER_SIZE" | "\<not> length a < HEADER_SIZE" "MAX_MESSAGE_SIZE < ?len"
    | "\<not> length a < HEADER_SIZE" "\<not> MAX_MESSAGE_SIZE < ?len" "length a < HEADER_SIZE + ?len"
    | "\<not> length a < HEADER_SIZE" "\<not> MAX_MESSAGE_SIZE < ?len" "\<not> length a < HEADER_SIZE + ?len"
    by blast
  then show ?case
  proof cases
    case 1
    then have "take_frames a = ([], a)" by (subst take_frames.simps) simp
    then show ?thesis by simp
  next
    case 3
    then have "take_frames a = ([], a)" by (subst take_frames.simps) (simp add: Let_def)
    then show ?thesis by simp
  next
    case 2
    then have len: "frame_length (a @ b) = ?len" by (simp add: frame_length_le HEADER_SIZE_def)
    have "take_frames (a @ b) = take_frames (drop HEADER_SIZE a @ b)"
      using 2 by (subst take_frames.simps) (simp add: Let_def len)
    moreover have "take_frames a = take_frames (drop HEADER_SIZE a)"
      using 2 by (subst take_frames.simps) (simp add: Let_def)
    ultimately show ?thesis using 1(1)[OF 2(1) refl 2(2)] by simp
  next
    case 4
    then have len: "frame_length (a @ b) = ?len" by (simp add: frame_length_le HEADER_SIZE_def)
    have "take_frames (a @ b) = (take ?len (drop HEADER_SIZE a) #
        fst (take_frames (drop (HEADER_SIZE + ?len) a @ b)), snd (take_frames (drop (HEADER_SIZE + ?len) a @ b)))"
      using 4 by (subst take_frames.simps) (simp add: Let_def len split: prod.splits)
    moreover have "take_frames a = (take ?len (drop HEADER_SIZE a) #
        fst (take_frames (drop (HEADER_SIZE + ?len) a)), snd (take_frames (drop (HEADER_SIZE + ?len) a)))"
      using 4 by (subst take_frames.simps) (simp add: Let_def split: prod.splits)
    ultimately show ?thesis using 1(2)[OF 4(1) refl 4(2,3) refl] by simp
  qed
qed

section \<open>An incoming connection\<close>

abbreviation parse_all :: "cluster_codec \<Rightarrow> bytes \<Rightarrow> incoming \<times> transport \<Rightarrow> incoming \<times> transport" where
  "parse_all C bs s \<equiv> (case s of (c, t) \<Rightarrow> incoming_parse C (c\<lparr>in_buffer := in_buffer c @ bs\<rparr>, t))"

lemma incoming_payload_buffer:
  "incoming_payload C d (c\<lparr>in_buffer := b\<rparr>, t) =
     (case incoming_payload C d (c, t) of (c', t') \<Rightarrow> (c'\<lparr>in_buffer := b\<rparr>, t'))"
  by (auto simp: incoming_payload_def split: option.splits cluster_message.splits prod.splits)

lemma fold_payload_buffer:
  "fold (incoming_payload C) fs (c\<lparr>in_buffer := b\<rparr>, t) =
     (case fold (incoming_payload C) fs (c, t) of (c', t') \<Rightarrow> (c'\<lparr>in_buffer := b\<rparr>, t'))"
proof (induction fs arbitrary: c t)
  case (Cons d fs)
  obtain c1 t1 where "incoming_payload C d (c, t) = (c1, t1)" by fastforce
  with Cons[of c1 t1] show ?case by (simp add: incoming_payload_buffer)
qed simp

lemma parse_all_append: "parse_all C b (parse_all C a s) = parse_all C (a @ b) s"
proof -
  obtain c t where s: "s = (c, t)" by fastforce
  obtain fs r where a: "take_frames (in_buffer c @ a) = (fs, r)" by fastforce
  obtain c1 t1 where f: "fold (incoming_payload C) fs (c, t) = (c1, t1)" by fastforce
  obtain fs' r' where b: "take_frames (r @ b) = (fs', r')" by fastforce
  have ab: "take_frames (in_buffer c @ a @ b) = (fs @ fs', r')"
    using take_frames_append[of "in_buffer c @ a" b] by (simp add: a b)
  show ?thesis
    by (simp add: s incoming_parse_def a f b ab fold_payload_buffer split: prod.splits)
qed

lemma handle_incoming_reads:
  "[] \<notin> set chunks \<Longrightarrow> handle_incoming C (map ConnRead chunks) s = fold (parse_all C) chunks s"
  by (induction chunks arbitrary: s) (auto split: prod.splits)

lemma fold_parse_all: "fold (parse_all C) chunks s =
    (if chunks = [] then s else parse_all C (concat chunks) s)"
proof (induction chunks arbitrary: s)
  case (Cons a chunks)
  then show ?case by (cases "chunks = []") (simp_all add: parse_all_append)
qed simp

text \<open>The peer a connection is attributed to, and what the messages of a stream are attributed to.\<close>

fun sources :: "node_id option \<Rightarrow> bool \<Rightarrow> cluster_message list \<Rightarrow> (node_id \<times> cluster_message) list" where
  "sources n st [] = []"
| "sources n st (Join ni # ms) = (ni_node_id ni, Join ni)
     # sources (if st then n else Some (ni_node_id ni)) True ms"
| "sources n st (m # ms) = ((case n of None \<Rightarrow> ''unknown'' | Some k \<Rightarrow> k), m) # sources n st ms"

lemma fold_payload_incoming:
  assumes "list_all2 (\<lambda>d m. cm_de C d = Some m) ds ms"
  shows "tp_incoming (snd (fold (incoming_payload C) ds (c, t))) =
    tp_incoming t @ sources (in_node c) (in_stored c) ms"
  using assms
proof (induction ds ms arbitrary: c t rule: list_all2_induct)
  case (Cons d ds m ms)
  obtain c1 t1 where step: "incoming_payload C d (c, t) = (c1, t1)" by fastforce
  show ?case
    using Cons(1) Cons(3)[of c1 t1] step
    by (cases m) (auto simp: incoming_payload_def split: if_splits)
qed simp

lemma sources_messages: "map snd (sources n st ms) = ms"
  by (induction n st ms rule: sources.induct) simp_all

section \<open>The sending side\<close>

definition channel_bytes :: "channel \<Rightarrow> transport \<Rightarrow> bytes" where
  "channel_bytes ch t = concat (map snd (filter (\<lambda>(ch', _). ch' = ch) (tp_accepted t)))"

lemma send_to_ok:
  assumes "dm_get (tp_connections t) n = Some ch" "ch \<notin> set (tp_dropped t)" "cm_ser C m = Some d"
  shows "send_to C n m t = (Inr (), t\<lparr>tp_accepted := tp_accepted t @ [(ch, frame d)]\<rparr>)"
  using assms by (simp add: send_to_def)

lemma sends_bytes:
  assumes "dm_get (tp_connections t) n = Some ch" "ch \<notin> set (tp_dropped t)"
    and "list_all2 (\<lambda>m d. cm_ser C m = Some d) ms ds"
  shows "channel_bytes ch (fold (\<lambda>m t'. snd (send_to C n m t')) ms t) =
    channel_bytes ch t @ concat (map frame ds)"
  using assms(3,1,2)
proof (induction ms ds arbitrary: t rule: list_all2_induct)
  case (Cons m ms d ds)
  show ?case
    using Cons(1,4,5) Cons(3)[of "t\<lparr>tp_accepted := tp_accepted t @ [(ch, frame d)]\<rparr>"]
    by (simp add: send_to_ok channel_bytes_def)
qed simp

section \<open>The node manager\<close>

datatype nm_op = NmIncoming u64 node_id cluster_message | NmHandle cluster_message | NmSeeds
  | NmTick | NmSend node_id cluster_message | NmShutdown

fun nm_apply :: "cluster_codec \<Rightarrow> (socket_addr \<Rightarrow> bool) \<Rightarrow> nm_op \<Rightarrow> node_manager \<Rightarrow> node_manager" where
  "nm_apply C reach (NmIncoming now n m) nm = forward_incoming now (n, m) nm"
| "nm_apply C reach (NmHandle m) nm = handle_message m nm"
| "nm_apply C reach NmSeeds nm = connect_to_seeds C reach nm"
| "nm_apply C reach NmTick nm = heartbeat_tick C nm"
| "nm_apply C reach (NmSend n m) nm = snd (nm_send_to C n m nm)"
| "nm_apply C reach NmShutdown nm = nm_shutdown nm"

text \<open>The information of the last \<open>Join\<close> of a node a history handles, and what it forwards.\<close>

fun last_join :: "node_id \<Rightarrow> nm_op list \<Rightarrow> node_info option \<Rightarrow> node_info option" where
  "last_join n [] acc = acc"
| "last_join n (x # ops) acc = last_join n ops (case x of
       NmHandle (Join ni) \<Rightarrow> if ni_node_id ni = n then Some ni else acc | _ \<Rightarrow> acc)"

fun arrivals :: "nm_op list \<Rightarrow> cluster_message list" where
  "arrivals [] = []"
| "arrivals (NmIncoming now n m # ops) = m # arrivals ops"
| "arrivals (_ # ops) = arrivals ops"

lemma connect_to_seed_frame [simp]:
  "nm_nodes (connect_to_seed C reach a nm) = nm_nodes nm"
  "nm_task_nodes (connect_to_seed C reach a nm) = nm_task_nodes nm"
  "nm_forwarded (connect_to_seed C reach a nm) = nm_forwarded nm"
  by (simp_all add: connect_to_seed_def split: prod.splits bool.splits)

lemma fold_seeds_frame [simp]:
  "nm_nodes (fold (connect_to_seed C reach) as nm) = nm_nodes nm"
  "nm_task_nodes (fold (connect_to_seed C reach) as nm) = nm_task_nodes nm"
  "nm_forwarded (fold (connect_to_seed C reach) as nm) = nm_forwarded nm"
  by (induction as arbitrary: nm) simp_all

lemmas nm_op_defs = forward_incoming_def handle_message_def handle_join_def connect_to_seeds_def
  heartbeat_tick_def nm_send_to_def nm_shutdown_def

lemma nm_run:
  assumes "nm_task_nodes nm = []"
  shows "nm_task_nodes (fold (nm_apply C reach) ops nm) = []
    \<and> nm_forwarded (fold (nm_apply C reach) ops nm) = nm_forwarded nm @ arrivals ops
    \<and> dm_get (nm_nodes (fold (nm_apply C reach) ops nm)) n = last_join n ops (dm_get (nm_nodes nm) n)"
  using assms
proof (induction ops arbitrary: nm)
  case (Cons x ops)
  have "nm_task_nodes (nm_apply C reach x nm) = []"
    using Cons(2) by (cases x) (simp_all add: nm_op_defs split: cluster_message.splits prod.splits)
  note IH = Cons(1)[OF this]
  have st: "nm_forwarded (nm_apply C reach x nm) = nm_forwarded nm @ arrivals [x]
      \<and> dm_get (nm_nodes (nm_apply C reach x nm)) n = last_join n [x] (dm_get (nm_nodes nm) n)"
    using Cons(2) by (cases x) (auto simp: nm_op_defs update_conv split: cluster_message.splits prod.splits)
  have "arrivals (x # ops) = arrivals [x] @ arrivals ops" by (cases x) simp_all
  then show ?case using IH st by simp
qed simp

section \<open>Properties\<close>

text \<open>
  C9: Cluster messages survive the byte stream. When a node queues a list of messages for a peer over
  a live connection, and the bytes of that channel reach the peer's task cut into any non-empty chunks,
  the task hands exactly these messages on, in order, attributed to the node its \<open>Join\<close> named, and
  leaves nothing in its buffer, provided that every message serialises to at most the size limit and
  reads back.
\<close>

theorem cluster_stream_delivery:
  assumes "dm_get (tp_connections s) n = Some ch" "ch \<notin> set (tp_dropped s)"
    and "\<forall>m \<in> set ms. \<exists>d. cm_ser C m = Some d \<and> cm_de C d = Some m \<and> length d \<le> MAX_MESSAGE_SIZE"
    and "channel_bytes ch (fold (\<lambda>m t'. snd (send_to C n m t')) ms s) = channel_bytes ch s @ concat chunks"
    and "[] \<notin> set chunks" "in_buffer c = []"
  shows "in_buffer (fst (handle_incoming C (map ConnRead chunks) (c, t))) = []
    \<and> tp_incoming (snd (handle_incoming C (map ConnRead chunks) (c, t)))
      = tp_incoming t @ sources (in_node c) (in_stored c) ms
    \<and> map snd (sources (in_node c) (in_stored c) ms) = ms"
proof -
  define ds where "ds = map (\<lambda>m. the (cm_ser C m)) ms"
  have ser: "list_all2 (\<lambda>m d. cm_ser C m = Some d) ms ds"
    using assms(3) by (fastforce simp: ds_def list.rel_map intro: list.rel_refl_strong)
  have de: "list_all2 (\<lambda>d m. cm_de C d = Some m) ds ms"
    using assms(3) by (fastforce simp: ds_def list.rel_map intro: list.rel_refl_strong)
  have small: "\<forall>d \<in> set ds. length d \<le> MAX_MESSAGE_SIZE"
    using assms(3) by (fastforce simp: ds_def)
  have bytes: "concat chunks = concat (map frame ds)"
    using sends_bytes[OF assms(1,2) ser] assms(4) by simp
  have par: "incoming_parse C (c\<lparr>in_buffer := concat (map frame ds)\<rparr>, t) =
      (case fold (incoming_payload C) ds (c, t) of (c', t') \<Rightarrow> (c'\<lparr>in_buffer := []\<rparr>, t'))"
    using fold_payload_buffer[where C = C and fs = ds and c = c and b = "[]" and t = t] by (simp add: incoming_parse_def take_frames_frames[OF small])
  have all: "handle_incoming C (map ConnRead chunks) (c, t) =
      (case fold (incoming_payload C) ds (c, t) of (c', t') \<Rightarrow> (c'\<lparr>in_buffer := []\<rparr>, t'))"
  proof (cases "chunks = []")
    case True
    then have "ds = []" using bytes by (cases ds) auto
    with True assms(6) show ?thesis by simp
  next
    case False
    then show ?thesis
      using par assms(6) by (simp add: handle_incoming_reads[OF assms(5)] fold_parse_all bytes)
  qed
  show ?thesis
    using fold_payload_incoming[OF de, of c t] by (simp add: all sources_messages case_prod_unfold)
qed

text \<open>
  A message over the size limit is not refused by the sender and not skipped by the receiver: the
  sender queues the frame, and the receiver drops only the length and reads the payload as if it were
  a sequence of frames, so bytes of the payload become messages.
\<close>

theorem oversized_frame_reparsed:
  assumes "dm_get (tp_connections s) n = Some ch" "ch \<notin> set (tp_dropped s)"
    and "cm_ser C m = Some d" "MAX_MESSAGE_SIZE < length d" "length d < 2 ^ 32"
    and "d = frame x @ pad" "length x \<le> MAX_MESSAGE_SIZE"
  shows "fst (send_to C n m s) = Inr ()
    \<and> channel_bytes ch (snd (send_to C n m s)) = channel_bytes ch s @ frame d
    \<and> hd (fst (take_frames (frame d @ rest))) = x"
  using assms(4-7) send_to_ok[OF assms(1-3)]
  by (simp add: channel_bytes_def take_frames_oversized take_frames_frame del: length_append)

text \<open>
  What the node manager knows of a peer is the information of its last \<open>Join\<close>: in every history
  the messages are forwarded to the dispatcher in order, and no message from a peer ever changes the
  recorded \<open>last_heartbeat\<close>, because the forwarding task stamps a map of its own that stays empty.
\<close>

theorem heartbeats_never_recorded:
  "dm_get (nm_nodes (fold (nm_apply C reach) ops (nm_new cfg))) n = last_join n ops None
    \<and> nm_task_nodes (fold (nm_apply C reach) ops (nm_new cfg)) = []
    \<and> nm_forwarded (fold (nm_apply C reach) ops (nm_new cfg)) = arrivals ops"
  using nm_run[of "nm_new cfg" C reach ops n] by (simp add: nm_new_def)

text \<open>
  When an incoming connection that introduced itself as \<open>n\<close> ends, its entry stays: the peer still
  counts as connected, connecting to it again does nothing and reports success, and every message to
  it is refused, until the entry is removed; then a reachable peer can be connected and sent to.
\<close>

theorem ended_connection_stays:
  assumes "dm_get (tp_connections t) n = Some (in_channel c)" "dm_get (tp_write_handles t) n = None"
    and "in_channel c < tp_next t" "list_all (\<lambda>k. k < tp_next t) (tp_dropped t)"
    and "cm_ser C m = Some d" "e \<in> {ConnEnd, ConnShutdown, ConnRead [], ConnWrite False}"
  shows "let t1 = snd (handle_incoming C (e # es) (c, t)) in
    is_connected n t1 \<and> transport_connect ok n t1 = (True, t1)
    \<and> send_to C n m t1 = (Inl ChannelClosed, t1)
    \<and> fst (send_to C n m (snd (transport_connect True n (remove_connection n t1)))) = Inr ()"
proof -
  have t1: "snd (handle_incoming C (e # es) (c, t)) = drop_receiver (in_channel c) t"
    using assms(6) by auto
  have "tp_next t \<notin> set (tp_dropped t)" "tp_next t \<noteq> in_channel c"
    using assms(3,4) by (auto simp: list_all_iff)
  then show ?thesis
    using assms(1,2,5) by (auto simp: t1 is_connected_def transport_connect_def send_to_def
        drop_receiver_def remove_connection_def new_channel_def Let_def delete_conv' update_conv)
qed

section \<open>Witnesses\<close>

definition beat :: "node_id \<Rightarrow> cluster_message" where
  "beat n = Heartbeat \<lparr>hb_leader_id = n\<rparr>"

text \<open>A codec for the heartbeats, as an instance.\<close>

definition beat_codec :: cluster_codec where
  "beat_codec = \<lparr>cm_ser = (\<lambda>m. case m of Heartbeat h \<Rightarrow> Some (str_bytes (hb_leader_id h)) | _ \<Rightarrow> None),
     cm_de = (\<lambda>bs. Some (beat (bytes_str bs)))\<rparr>"

definition linked :: transport where
  "linked = snd (transport_connect True ''b'' (transport_new ''a''))"

theorem cluster_stream_delivery_witness:
  "let ms = [beat ''x'', beat ''yz''];
       c = \<lparr>in_channel = 0, in_buffer = [], in_node = Some ''a'', in_stored = True\<rparr>;
       chunks = [[0, 0], [0, 1, 120, 0, 0, 0, 2, 121], [122]] in
   map snd (tp_incoming (snd (handle_incoming beat_codec (map ConnRead chunks) (c, transport_new ''b'')))) = ms"
proof -
  have "\<forall>m \<in> set [beat ''x'', beat ''yz'']. \<exists>d. cm_ser beat_codec m = Some d
      \<and> cm_de beat_codec d = Some m \<and> length d \<le> MAX_MESSAGE_SIZE"
    by (simp add: beat_def beat_codec_def MAX_MESSAGE_SIZE_def)
  moreover have "dm_get (tp_connections linked) ''b'' = Some 0" "0 \<notin> set (tp_dropped linked)"
    by (simp_all add: linked_def transport_connect_def transport_new_def new_channel_def)
  moreover have "channel_bytes 0 (fold (\<lambda>m t'. snd (send_to beat_codec ''b'' m t')) [beat ''x'', beat ''yz''] linked)
      = channel_bytes 0 linked @ concat [[0, 0], [0, 1, 120, 0, 0, 0, 2, 121], [122]]"
    by code_simp
  ultimately show ?thesis
    using cluster_stream_delivery[of linked "''b''" 0 "[beat ''x'', beat ''yz'']" beat_codec
        "[[0, 0], [0, 1, 120, 0, 0, 0, 2, 121], [122]]"
        "\<lparr>in_channel = 0, in_buffer = [], in_node = Some ''a'', in_stored = True\<rparr>" "transport_new ''b''"]
    by (simp add: transport_new_def)
qed

theorem oversized_frame_reparsed_witness:
  "hd (fst (take_frames (frame (frame [7] @ replicate MAX_MESSAGE_SIZE 0) @ []))) = [7]"
proof -
  let ?d = "frame [7] @ replicate MAX_MESSAGE_SIZE 0"
  let ?C = "\<lparr>cm_ser = (\<lambda>_. Some ?d), cm_de = (\<lambda>_. None)\<rparr>"
  have "dm_get (tp_connections linked) ''b'' = Some 0" "0 \<notin> set (tp_dropped linked)"
    by (simp_all add: linked_def transport_connect_def transport_new_def new_channel_def)
  moreover have "length ?d < 2 ^ 32" by (simp add: MAX_MESSAGE_SIZE_def)
  ultimately show ?thesis
    using oversized_frame_reparsed[of linked "''b''" 0 ?C "beat ''x''" ?d "[7]" "replicate MAX_MESSAGE_SIZE 0" "[]"]
    by (simp add: MAX_MESSAGE_SIZE_def)
qed

theorem ended_connection_stays_witness:
  "let t = snd (incoming_payload beat_codec [] (incoming_new (transport_new ''a''))) in
   let c = \<lparr>in_channel = 0, in_buffer = [], in_node = Some ''b'', in_stored = True\<rparr>;
       t0 = t\<lparr>tp_connections := [(''b'', 0)]\<rparr>;
       t1 = snd (handle_incoming beat_codec [ConnEnd] (c, t0)) in
   is_connected ''b'' t1 \<and> send_to beat_codec ''b'' (beat ''x'') t1 = (Inl ChannelClosed, t1)"
  using ended_connection_stays[of
      "(snd (incoming_payload beat_codec [] (incoming_new (transport_new ''a''))))\<lparr>tp_connections := [(''b'', 0)]\<rparr>"
      "''b''" "\<lparr>in_channel = 0, in_buffer = [], in_node = Some ''b'', in_stored = True\<rparr>"
      beat_codec "beat ''x''" "str_bytes ''x''" ConnEnd "[]" True]
  by (simp add: incoming_payload_def incoming_new_def transport_new_def new_channel_def beat_codec_def
      beat_def Let_def)

end
