(* ===== verification/Registry.thy ===== *)
theory Registry
  imports Client
begin

text \<open>
  The client registry (\<^verbatim>\<open>crates/rex-server/src/system/client_registry.rs\<close>): the id map, the title
  index and the ghosts. The maps hold \<open>Arc<RexClientInner>\<close>, and the same object is reached from the
  id map, from every title list and from the connection task; the state therefore carries the heap
  of client objects and the maps hold references into it.
\<close>

type_synonym cref = nat

record registry =
  heap :: "cref \<Rightarrow> client"
  id2client :: "(u128, cref) dmap"
  title2clients :: "(string, cref list) dmap"
  ghosts :: "(u128, string list \<times> u64) dmap"

record client_snapshot =
  sn_id :: u128
  sn_transport :: string
  sn_titles :: "string list"
  sn_connected_secs :: u64

datatype duplicate_client = DupLive | DupGhost

definition registry_new :: "(cref \<Rightarrow> client) \<Rightarrow> registry" where
  "registry_new h = \<lparr>heap = h, id2client = [], title2clients = [], ghosts = []\<rparr>"

abbreviation id_of :: "registry \<Rightarrow> cref \<Rightarrow> u128" where
  "id_of r c \<equiv> cl_id (heap r c)"

abbreviation titles_of :: "registry \<Rightarrow> cref \<Rightarrow> string list" where
  "titles_of r c \<equiv> cl_titles (heap r c)"

text \<open>A write through a shared reference: \<open>client.f(..)\<close>.\<close>

definition upd_client :: "cref \<Rightarrow> (client \<Rightarrow> client) \<Rightarrow> registry \<Rightarrow> registry" where
  "upd_client c f r = r\<lparr>heap := (heap r)(c := f (heap r c))\<rparr>"

text \<open>\<open>entry(title).or_default()\<close>, then push unless a client with the same id is listed.\<close>

definition index_push :: "u128 \<Rightarrow> cref \<Rightarrow> string \<Rightarrow> registry \<Rightarrow> registry" where
  "index_push cid client title r =
     (let clients = (case dm_get (title2clients r) title of None \<Rightarrow> [] | Some cs \<Rightarrow> cs) in
      r\<lparr>title2clients := dm_insert title
          (if list_ex (\<lambda>c. id_of r c = cid) clients then clients else clients @ [client])
          (title2clients r)\<rparr>)"

text \<open>\<open>get_mut(title)\<close>, retain the other ids, and remove the entry when it became empty.\<close>

definition index_drop :: "u128 \<Rightarrow> string \<Rightarrow> registry \<Rightarrow> registry" where
  "index_drop client_id title r =
     (case dm_get (title2clients r) title of
        None \<Rightarrow> r
      | Some clients \<Rightarrow>
          let kept = filter (\<lambda>c. id_of r c \<noteq> client_id) clients in
          r\<lparr>title2clients := (if kept = [] then dm_remove title (title2clients r)
               else dm_insert title kept (title2clients r))\<rparr>)"

definition add_client :: "cref \<Rightarrow> registry \<Rightarrow> registry" where
  "add_client client r =
     (let id = id_of r client in
      fold (index_push id client) (titles_of r client)
        (r\<lparr>id2client := dm_insert id client (id2client r)\<rparr>))"

definition remove_client :: "u128 \<Rightarrow> registry \<Rightarrow> cref option \<times> registry" where
  "remove_client client_id r =
     (case dm_get (id2client r) client_id of
        None \<Rightarrow> (None, r)
      | Some client \<Rightarrow> (Some client, fold (index_drop client_id) (titles_of r client)
            (r\<lparr>id2client := dm_remove client_id (id2client r)\<rparr>)))"

definition register_title :: "u128 \<Rightarrow> string \<Rightarrow> registry \<Rightarrow> registry" where
  "register_title client_id title r =
     (case dm_get (id2client r) client_id of
        None \<Rightarrow> r
      | Some client \<Rightarrow>
          index_push client_id client title (upd_client client (insert_title title) r))"

definition unregister_title :: "u128 \<Rightarrow> string \<Rightarrow> registry \<Rightarrow> registry" where
  "unregister_title client_id title r =
     (case dm_get (id2client r) client_id of
        None \<Rightarrow> r
      | Some client \<Rightarrow> index_drop client_id title (upd_client client (remove_title title) r))"

definition find_all :: "registry \<Rightarrow> cref list" where
  "find_all r = map snd (id2client r)"

definition find_all_by_title :: "string \<Rightarrow> u128 option \<Rightarrow> registry \<Rightarrow> cref list" where
  "find_all_by_title title exclude r =
     (case dm_get (title2clients r) title of
        None \<Rightarrow> []
      | Some clients \<Rightarrow> filter (\<lambda>c. exclude \<noteq> Some (id_of r c)) clients)"

text \<open>\<open>pick\<close> is \<open>rand::seq::IteratorRandom::choose\<close>.\<close>

definition find_one_by_title ::
    "(cref list \<Rightarrow> cref option) \<Rightarrow> string \<Rightarrow> u128 option \<Rightarrow> registry \<Rightarrow> cref option" where
  "find_one_by_title pick title exclude r =
     (case dm_get (title2clients r) title of
        None \<Rightarrow> None
      | Some clients \<Rightarrow> pick (filter (\<lambda>c. exclude \<noteq> Some (id_of r c)) clients))"

definition find_some_by_id :: "u128 \<Rightarrow> registry \<Rightarrow> cref option" where
  "find_some_by_id cid r = dm_get (id2client r) cid"

definition take_inactive :: "u64 \<Rightarrow> u64 \<Rightarrow> registry \<Rightarrow> u128 list" where
  "take_inactive now timeout_secs r =
     map fst (filter (\<lambda>(i, c). timeout_secs < sat_sub now (cl_last_recv (heap r c))) (id2client r))"

definition snapshot_of :: "u64 \<Rightarrow> client \<Rightarrow> client_snapshot" where
  "snapshot_of now c = \<lparr>sn_id = cl_id c, sn_transport = transport_label c, sn_titles = cl_titles c,
     sn_connected_secs = sat_sub now (cl_connected_at c)\<rparr>"

definition list_snapshots :: "u64 \<Rightarrow> registry \<Rightarrow> client_snapshot list" where
  "list_snapshots now r = map (\<lambda>(i, c). snapshot_of now (heap r c)) (id2client r)"

definition client_count :: "registry \<Rightarrow> nat" where
  "client_count r = length (id2client r)"

definition title_count :: "registry \<Rightarrow> nat" where
  "title_count r = length (title2clients r)"

definition get_snapshot :: "u64 \<Rightarrow> u128 \<Rightarrow> registry \<Rightarrow> client_snapshot option" where
  "get_snapshot now cid r =
     (case dm_get (id2client r) cid of None \<Rightarrow> None | Some c \<Rightarrow> Some (snapshot_of now (heap r c)))"

definition add_ghost ::
    "u128 \<Rightarrow> string list \<Rightarrow> u64 \<Rightarrow> registry \<Rightarrow> (duplicate_client + unit) \<times> registry" where
  "add_ghost client_id titles ghost_until r =
     (if dm_get (id2client r) client_id \<noteq> None then (Inl DupLive, r)
      else if dm_get (ghosts r) client_id \<noteq> None then (Inl DupGhost, r)
      else (Inr (), r\<lparr>ghosts := dm_insert client_id (titles, ghost_until) (ghosts r)\<rparr>))"

definition claim_ghost :: "u128 \<Rightarrow> registry \<Rightarrow> bool \<times> registry" where
  "claim_ghost client_id r =
     (dm_get (ghosts r) client_id \<noteq> None, r\<lparr>ghosts := dm_remove client_id (ghosts r)\<rparr>)"

definition remove_ghost :: "u128 \<Rightarrow> registry \<Rightarrow> bool \<times> registry" where
  "remove_ghost client_id r =
     (dm_get (ghosts r) client_id \<noteq> None, r\<lparr>ghosts := dm_remove client_id (ghosts r)\<rparr>)"

definition ghost_count :: "registry \<Rightarrow> nat" where
  "ghost_count r = length (ghosts r)"

definition ghost_titles :: "u128 \<Rightarrow> registry \<Rightarrow> string list option" where
  "ghost_titles client_id r = map_option fst (dm_get (ghosts r) client_id)"

section \<open>The specification and the invariant\<close>

definition subscribers :: "registry \<Rightarrow> string \<Rightarrow> cref list" where
  "subscribers r t = (case dm_get (title2clients r) t of None \<Rightarrow> [] | Some cs \<Rightarrow> cs)"

definition registered :: "registry \<Rightarrow> cref \<Rightarrow> bool" where
  "registered r c \<longleftrightarrow> dm_get (id2client r) (id_of r c) = Some c"

definition reg_ok :: "registry \<Rightarrow> bool" where
  "reg_ok r \<longleftrightarrow> dm_ok (id2client r) \<and> dm_ok (title2clients r) \<and> dm_ok (ghosts r)
     \<and> (\<forall>i c. dm_get (id2client r) i = Some c \<longrightarrow> id_of r c = i)
     \<and> (\<forall>c. registered r c \<longrightarrow> (\<forall>t \<in> set (titles_of r c). atomic t))
     \<and> (\<forall>t. dm_get (title2clients r) t \<noteq> Some [])
     \<and> (\<forall>t. distinct (subscribers r t))
     \<and> (\<forall>t c. c \<in> set (subscribers r t) \<longleftrightarrow> registered r c \<and> t \<in> set (titles_of r c))"

text \<open>What the registry promises: a finite map from the connected ids to their title sets.\<close>

type_synonym subscriptions = "u128 \<Rightarrow> string set option"

definition subs :: "registry \<Rightarrow> subscriptions" where
  "subs r i = map_option (\<lambda>c. set (titles_of r c)) (dm_get (id2client r) i)"

definition routed_ids :: "string \<Rightarrow> u128 option \<Rightarrow> registry \<Rightarrow> u128 list" where
  "routed_ids t exclude r = map (id_of r) (find_all_by_title t exclude r)"

text \<open>The histories of a registry, when a step is one the server takes, and what it means.\<close>

datatype reg_op = Connect cref client | Disconnect u128 | Subscribe u128 string
  | Unsubscribe u128 string | Touch cref u64

fun op_ok :: "reg_op \<Rightarrow> registry \<Rightarrow> bool" where
  "op_ok (Connect c cl) r \<longleftrightarrow> c \<notin> snd ` set (id2client r)
     \<and> dm_get (id2client r) (cl_id cl) = None \<and> (\<forall>t \<in> set (cl_titles cl). atomic t)"
| "op_ok (Subscribe i t) r \<longleftrightarrow> atomic t"
| "op_ok _ r \<longleftrightarrow> True"

fun spec_apply :: "reg_op \<Rightarrow> subscriptions \<Rightarrow> subscriptions" where
  "spec_apply (Connect c cl) s = s(cl_id cl \<mapsto> set (cl_titles cl))"
| "spec_apply (Disconnect i) s = s(i := None)"
| "spec_apply (Subscribe i t) s = s(i := map_option (insert t) (s i))"
| "spec_apply (Unsubscribe i t) s = s(i := map_option (\<lambda>T. T - {t}) (s i))"
| "spec_apply (Touch c now) s = s"

fun reg_apply :: "reg_op \<Rightarrow> registry \<Rightarrow> registry" where
  "reg_apply (Connect c cl) r = add_client c (upd_client c (\<lambda>_. cl) r)"
| "reg_apply (Disconnect i) r = snd (remove_client i r)"
| "reg_apply (Subscribe i t) r = register_title i t r"
| "reg_apply (Unsubscribe i t) r = unregister_title i t r"
| "reg_apply (Touch c now) r = upd_client c (update_last_recv now) r"

fun run_ok :: "reg_op list \<Rightarrow> registry \<Rightarrow> bool" where
  "run_ok [] r \<longleftrightarrow> True"
| "run_ok (op # ops) r \<longleftrightarrow> op_ok op r \<and> run_ok ops (reg_apply op r)"

section \<open>The title index\<close>

lemma index_push_frame [simp]:
  "heap (index_push i c t r) = heap r" "id2client (index_push i c t r) = id2client r"
  "ghosts (index_push i c t r) = ghosts r"
  by (simp_all add: index_push_def Let_def)

lemma index_drop_frame [simp]:
  "heap (index_drop i t r) = heap r" "id2client (index_drop i t r) = id2client r"
  "ghosts (index_drop i t r) = ghosts r"
  by (simp_all add: index_drop_def Let_def split: option.splits)

lemma fold_index_push_frame [simp]:
  "heap (fold (index_push i c) ts r) = heap r" "id2client (fold (index_push i c) ts r) = id2client r"
  "ghosts (fold (index_push i c) ts r) = ghosts r"
  by (induction ts arbitrary: r) simp_all

lemma fold_index_drop_frame [simp]:
  "heap (fold (index_drop i) ts r) = heap r" "id2client (fold (index_drop i) ts r) = id2client r"
  "ghosts (fold (index_drop i) ts r) = ghosts r"
  by (induction ts arbitrary: r) simp_all

lemma index_push_ok: "dm_ok (title2clients r) \<Longrightarrow> dm_ok (title2clients (index_push i c t r))"
  by (simp add: index_push_def Let_def)

lemma index_drop_ok: "dm_ok (title2clients r) \<Longrightarrow> dm_ok (title2clients (index_drop i t r))"
  by (simp add: index_drop_def Let_def split: option.splits)

lemma fold_index_ok:
  "dm_ok (title2clients r) \<Longrightarrow> dm_ok (title2clients (fold (index_push i c) ts r))"
  "dm_ok (title2clients r) \<Longrightarrow> dm_ok (title2clients (fold (index_drop i) ts r))"
  by (induction ts arbitrary: r) (simp_all add: index_push_ok index_drop_ok)

lemma subscribers_push:
  "subscribers (index_push i c t r) t' = subscribers r t' @
     (if t' = t \<and> \<not> list_ex (\<lambda>x. id_of r x = i) (subscribers r t) then [c] else [])"
  by (simp add: subscribers_def index_push_def Let_def)

lemma subscribers_drop:
  "subscribers (index_drop i t r) t' =
     (if t' = t then filter (\<lambda>x. id_of r x \<noteq> i) (subscribers r t) else subscribers r t')"
  by (auto simp: subscribers_def index_drop_def Let_def split: option.splits)

lemma nonempty_push:
  "\<forall>t. dm_get (title2clients r) t \<noteq> Some [] \<Longrightarrow>
   dm_get (title2clients (index_push i c t r)) t' \<noteq> Some []"
  by (auto simp: index_push_def Let_def split: option.splits)

lemma nonempty_drop:
  "\<forall>t. dm_get (title2clients r) t \<noteq> Some [] \<Longrightarrow>
   dm_get (title2clients (index_drop i t r)) t' \<noteq> Some []"
  by (auto simp: index_drop_def Let_def split: option.splits)

lemma fold_nonempty:
  "\<forall>t. dm_get (title2clients r) t \<noteq> Some [] \<Longrightarrow>
   dm_get (title2clients (fold (index_push i c) ts r)) t' \<noteq> Some []"
  "\<forall>t. dm_get (title2clients r) t \<noteq> Some [] \<Longrightarrow>
   dm_get (title2clients (fold (index_drop i) ts r)) t' \<noteq> Some []"
  by (induction ts arbitrary: r) (simp_all add: nonempty_push nonempty_drop)

lemma subscribers_fold_push:
  assumes "id_of r c = i"
  shows "subscribers (fold (index_push i c) ts r) t = subscribers r t @
     (if t \<in> set ts \<and> \<not> list_ex (\<lambda>x. id_of r x = i) (subscribers r t) then [c] else [])"
  using assms
proof (induction ts arbitrary: r)
  case (Cons s ts)
  have "subscribers (fold (index_push i c) (s # ts) r) t = subscribers (index_push i c s r) t @
      (if t \<in> set ts \<and> \<not> list_ex (\<lambda>x. id_of r x = i) (subscribers (index_push i c s r) t)
       then [c] else [])"
    using Cons.IH[of "index_push i c s r"] Cons.prems by simp
  then show ?case using Cons.prems by (cases "t = s") (simp_all add: subscribers_push)
qed simp

lemma subscribers_fold_drop:
  "subscribers (fold (index_drop i) ts r) t =
     (if t \<in> set ts then filter (\<lambda>x. id_of r x \<noteq> i) (subscribers r t) else subscribers r t)"
  by (induction ts arbitrary: r) (auto simp: subscribers_drop)

section \<open>Every operation keeps the invariant and refines the specification\<close>

lemma reg_okD:
  assumes "reg_ok r"
  shows "dm_get (id2client r) i = Some c \<Longrightarrow> id_of r c = i"
    and "registered r c \<Longrightarrow> t \<in> set (titles_of r c) \<Longrightarrow> atomic t"
    and "distinct (subscribers r t)"
    and "c \<in> set (subscribers r t) \<longleftrightarrow> registered r c \<and> t \<in> set (titles_of r c)"
  using assms unfolding reg_ok_def by blast+

lemma reg_okI:
  assumes "dm_ok (id2client r)" "dm_ok (title2clients r)" "dm_ok (ghosts r)"
    and "\<And>i c. dm_get (id2client r) i = Some c \<Longrightarrow> id_of r c = i"
    and "\<And>c t. registered r c \<Longrightarrow> t \<in> set (titles_of r c) \<Longrightarrow> atomic t"
    and "\<And>t. dm_get (title2clients r) t \<noteq> Some []"
    and "\<And>t. distinct (subscribers r t)"
    and "\<And>t c. c \<in> set (subscribers r t) \<longleftrightarrow> registered r c \<and> t \<in> set (titles_of r c)"
  shows "reg_ok r"
  unfolding reg_ok_def by (intro conjI allI impI ballI) (rule assms; assumption)+

lemma reg_ok_maps: "reg_ok r \<Longrightarrow> dm_ok (id2client r) \<and> dm_ok (title2clients r) \<and> dm_ok (ghosts r)"
  by (simp add: reg_ok_def)

lemma reg_ok_new: "reg_ok (registry_new h)"
  by (simp add: reg_ok_def registry_new_def subscribers_def registered_def)

lemma subscribers_eq: "title2clients r = title2clients r' \<Longrightarrow> subscribers r t = subscribers r' t"
  by (simp add: subscribers_def)

lemma add_client_ok:
  assumes ok: "reg_ok r" and fresh: "dm_get (id2client r) (id_of r c) = None"
    and atom: "\<forall>t \<in> set (titles_of r c). atomic t"
  shows "reg_ok (add_client c r)"
proof -
  let ?i = "id_of r c" and ?r = "r\<lparr>id2client := dm_insert (id_of r c) c (id2client r)\<rparr>"
  have no: "\<not> list_ex (\<lambda>x. id_of r x = ?i) (subscribers r t)" "c \<notin> set (subscribers r t)" for t
    using reg_okD(4)[OF ok] fresh by (auto simp: list_ex_iff registered_def)
  have sub: "subscribers (add_client c r) t
      = subscribers r t @ (if t \<in> set (titles_of r c) then [c] else [])" for t
    using no subscribers_fold_push[of ?r c ?i "titles_of r c" t]
    by (simp add: add_client_def Let_def subscribers_eq[of ?r r])
  have reg: "registered (add_client c r) x \<longleftrightarrow> x = c \<or> registered r x" for x
    using fresh by (auto simp: registered_def add_client_def Let_def)
  have "dm_get (title2clients (add_client c r)) t \<noteq> Some []" for t
    using ok by (simp add: add_client_def Let_def fold_nonempty reg_ok_def)
  moreover have "dm_ok (title2clients (add_client c r))" "dm_ok (id2client (add_client c r))"
    "dm_ok (ghosts (add_client c r))" "heap (add_client c r) = heap r"
    "id2client (add_client c r) = dm_insert ?i c (id2client r)"
    using ok by (simp_all add: add_client_def Let_def fold_index_ok reg_ok_def)
  ultimately show ?thesis
    unfolding reg_ok_def using ok no atom
    by (auto simp: sub reg reg_okD)
qed

lemma remove_client_ok:
  assumes ok: "reg_ok r"
  shows "reg_ok (snd (remove_client i r))"
proof (cases "dm_get (id2client r) i")
  case (Some c)
  let ?r = "r\<lparr>id2client := dm_remove i (id2client r)\<rparr>" and ?s = "snd (remove_client i r)"
  have ci: "id_of r c = i" using reg_okD(1)[OF ok Some] .
  have fr: "heap ?s = heap r" "id2client ?s = dm_remove i (id2client r)" "ghosts ?s = ghosts r"
    using Some by (simp_all add: remove_client_def)
  have only: "x = c" if "registered r x" "id_of r x = i" for x
    using that Some by (simp add: registered_def)
  have sub: "subscribers ?s t = filter (\<lambda>x. id_of r x \<noteq> i) (subscribers r t)" for t
  proof (cases "t \<in> set (titles_of r c)")
    case False
    then have "\<forall>x \<in> set (subscribers r t). id_of r x \<noteq> i"
      using only reg_okD(4)[OF ok] by blast
    then show ?thesis using Some False
      by (simp add: remove_client_def subscribers_fold_drop subscribers_eq[of ?r r] filter_id_conv)
  qed (use Some in \<open>simp add: remove_client_def subscribers_fold_drop subscribers_eq[of ?r r]\<close>)
  have reg: "registered ?s x \<longleftrightarrow> id_of r x \<noteq> i \<and> registered r x" for x
    by (auto simp: registered_def fr)
  have "dm_get (title2clients ?s) t \<noteq> Some []" for t
    using ok Some by (simp add: remove_client_def fold_nonempty reg_ok_def)
  moreover have "dm_ok (title2clients ?s)" "dm_ok (id2client ?s)" "dm_ok (ghosts ?s)"
    using ok Some by (simp_all add: remove_client_def fold_index_ok reg_ok_def)
  ultimately show ?thesis
    unfolding reg_ok_def using ok by (auto simp: sub reg fr reg_okD)
qed (simp add: remove_client_def ok)

lemma upd_client_frame [simp]:
  "id2client (upd_client c f r) = id2client r" "title2clients (upd_client c f r) = title2clients r"
  "ghosts (upd_client c f r) = ghosts r" "heap (upd_client c f r) = (heap r)(c := f (heap r c))"
  by (simp_all add: upd_client_def)

lemma subscribers_upd_client [simp]: "subscribers (upd_client c f r) = subscribers r"
  by (simp add: subscribers_def fun_eq_iff)

lemma registered_upd_client:
  "cl_id (f (heap r c)) = cl_id (heap r c) \<Longrightarrow> registered (upd_client c f r) x = registered r x"
  by (simp add: registered_def)

text \<open>A write to a client object that keeps its id and its titles is invisible to the registry.\<close>

lemma upd_client_ok:
  assumes "reg_ok r" "cl_id (f (heap r c)) = cl_id (heap r c)"
    "cl_titles (f (heap r c)) = cl_titles (heap r c)"
  shows "reg_ok (upd_client c f r)"
  using assms by (simp add: reg_ok_def registered_upd_client)

lemma upd_client_subs:
  assumes "cl_titles (f (heap r c)) = cl_titles (heap r c)"
  shows "subs (upd_client c f r) = subs r"
  using assms by (auto simp: subs_def fun_eq_iff intro!: map_option_cong split: if_splits)

lemma register_title_ok:
  assumes ok: "reg_ok r" and atom: "atomic t"
  shows "reg_ok (register_title i t r)"
proof (cases "dm_get (id2client r) i")
  case (Some c)
  let ?u = "upd_client c (insert_title t) r" and ?s = "register_title i t r"
  have ci: "id_of r c = i" using reg_okD(1)[OF ok Some] .
  have rc: "registered r c" using Some ci by (simp add: registered_def)
  have fr: "id2client ?s = id2client r" "ghosts ?s = ghosts r" "heap ?s = heap ?u"
    using Some by (simp_all add: register_title_def)
  have ids: "id_of ?u x = id_of r x" for x by simp
  have tit: "set (titles_of ?u x) = set (titles_of r x) \<union> (if x = c then {t} else {})" for x
    by (simp add: insert_title_set title_parts_of_atomic[OF atom])
  have reg: "registered ?s x = registered r x" for x by (simp add: registered_def fr)
  have only: "registered r x \<Longrightarrow> id_of r x = i \<Longrightarrow> x = c" for x
    using Some by (simp add: registered_def)
  have any: "list_ex (\<lambda>x. id_of ?u x = i) (subscribers ?u t) \<longleftrightarrow> c \<in> set (subscribers r t)"
    using reg_okD(4)[OF ok, of _ t] only ci unfolding list_ex_iff ids subscribers_upd_client by blast
  have sub: "subscribers ?s t' = subscribers r t' @
      (if t' = t \<and> c \<notin> set (subscribers r t) then [c] else [])" for t'
    using Some any by (simp add: register_title_def subscribers_push del: upd_client_frame)
  have "dm_get (title2clients ?s) t' \<noteq> Some []" for t'
    using ok Some by (simp add: register_title_def nonempty_push reg_ok_def)
  moreover have "dm_ok (title2clients ?s)"
    using ok Some by (simp add: register_title_def index_push_ok reg_ok_def)
  ultimately show ?thesis
  proof (intro reg_okI, unfold fr reg sub ids tit)
    show "c' \<in> set (subscribers r t' @ (if t' = t \<and> c \<notin> set (subscribers r t) then [c] else []))
        \<longleftrightarrow> registered r c' \<and> t' \<in> set (titles_of r c') \<union> (if c' = c then {t} else {})" for t' c'
      using reg_okD(4)[OF ok, of c' t'] reg_okD(4)[OF ok, of c t] rc by auto
    show "distinct (subscribers r t' @ (if t' = t \<and> c \<notin> set (subscribers r t) then [c] else []))"
      for t' using reg_okD(3)[OF ok] by auto
    show "t' \<in> set (titles_of r c') \<union> (if c' = c then {t} else {}) \<Longrightarrow> atomic t'"
      if "registered r c'" for c' t'
      using reg_okD(2)[OF ok that] atom by (auto split: if_splits)
    show "dm_get (id2client r) j = Some x \<Longrightarrow> id_of r x = j" for j x
      by (rule reg_okD(1)[OF ok])
  qed (use reg_ok_maps[OF ok] in simp_all)
qed (simp add: register_title_def ok)

lemma unregister_title_ok:
  assumes ok: "reg_ok r"
  shows "reg_ok (unregister_title i t r)"
proof (cases "dm_get (id2client r) i")
  case (Some c)
  let ?u = "upd_client c (remove_title t) r" and ?s = "unregister_title i t r"
  have ci: "id_of r c = i" using reg_okD(1)[OF ok Some] .
  have fr: "id2client ?s = id2client r" "ghosts ?s = ghosts r" "heap ?s = heap ?u"
    using Some by (simp_all add: unregister_title_def)
  have ids: "id_of ?u x = id_of r x" for x by simp
  have tit: "set (titles_of ?u x) = set (titles_of r x) - (if x = c then {t} else {})" for x
    by simp
  have reg: "registered ?s x = registered r x" for x by (simp add: registered_def fr)
  have only: "registered r x \<Longrightarrow> id_of r x = i \<Longrightarrow> x = c" for x
    using Some by (simp add: registered_def)
  have sub: "subscribers ?s t' = (if t' = t then filter (\<lambda>x. id_of r x \<noteq> i) (subscribers r t)
      else subscribers r t')" for t'
    using Some by (simp add: unregister_title_def subscribers_drop ids del: upd_client_frame)
  have "dm_get (title2clients ?s) t' \<noteq> Some []" for t'
    using ok Some by (simp add: unregister_title_def nonempty_drop reg_ok_def)
  moreover have "dm_ok (title2clients ?s)"
    using ok Some by (simp add: unregister_title_def index_drop_ok reg_ok_def)
  ultimately show ?thesis
  proof (intro reg_okI, unfold fr reg sub ids tit)
    show "c' \<in> set (if t' = t then filter (\<lambda>x. id_of r x \<noteq> i) (subscribers r t)
        else subscribers r t')
        \<longleftrightarrow> registered r c' \<and> t' \<in> set (titles_of r c') - (if c' = c then {t} else {})" for t' c'
      using reg_okD(4)[OF ok, of c' t'] only[of c'] ci by (cases "c' = c") auto
    show "distinct (if t' = t then filter (\<lambda>x. id_of r x \<noteq> i) (subscribers r t)
        else subscribers r t')" for t' using reg_okD(3)[OF ok] by simp
    show "t' \<in> set (titles_of r c') - (if c' = c then {t} else {}) \<Longrightarrow> atomic t'"
      if "registered r c'" for c' t' using reg_okD(2)[OF ok that] by simp
    show "dm_get (id2client r) j = Some x \<Longrightarrow> id_of r x = j" for j x
      by (rule reg_okD(1)[OF ok])
  qed (use reg_ok_maps[OF ok] in simp_all)
qed (simp add: unregister_title_def ok)

lemma subs_add_client:
  "subs (add_client c r) = (subs r)(id_of r c \<mapsto> set (titles_of r c))"
  by (auto simp: subs_def add_client_def Let_def fun_eq_iff)

lemma subs_remove_client: "subs (snd (remove_client i r)) = (subs r)(i := None)"
  by (auto simp: subs_def remove_client_def fun_eq_iff split: option.splits)

lemma subs_upd_titles:
  assumes "reg_ok r" "dm_get (id2client r) i = Some c"
  shows "subs (upd_client c f r) = (subs r)(i \<mapsto> set (cl_titles (f (heap r c))))"
proof
  fix j
  show "subs (upd_client c f r) j = ((subs r)(i \<mapsto> set (cl_titles (f (heap r c))))) j"
  proof (cases "j = i")
    case False
    then have "d \<noteq> c" if "dm_get (id2client r) j = Some d" for d
      using reg_okD(1)[OF assms(1) that] reg_okD(1)[OF assms] by auto
    with False show ?thesis by (cases "dm_get (id2client r) j") (simp_all add: subs_def)
  qed (simp add: subs_def assms(2))
qed

lemma subs_index [simp]:
  "subs (index_push i c t r) = subs r" "subs (index_drop i t r) = subs r"
  by (simp_all add: subs_def fun_eq_iff)

lemma subs_register_title:
  assumes "reg_ok r" "atomic t"
  shows "subs (register_title i t r) = (subs r)(i := map_option (insert t) (subs r i))"
proof (cases "dm_get (id2client r) i")
  case (Some c)
  then show ?thesis
    using subs_upd_titles[OF assms(1) Some, of "insert_title t"]
    by (simp add: register_title_def insert_title_set title_parts_of_atomic[OF assms(2)] subs_def)
qed (simp add: register_title_def subs_def fun_eq_iff)

lemma subs_unregister_title:
  assumes "reg_ok r"
  shows "subs (unregister_title i t r) = (subs r)(i := map_option (\<lambda>T. T - {t}) (subs r i))"
proof (cases "dm_get (id2client r) i")
  case (Some c)
  then show ?thesis
    using subs_upd_titles[OF assms Some, of "remove_title t"]
    by (simp add: unregister_title_def subs_def)
qed (simp add: unregister_title_def subs_def fun_eq_iff)

lemma find_all_by_title_eq:
  "find_all_by_title t e r = filter (\<lambda>c. e \<noteq> Some (id_of r c)) (subscribers r t)"
  by (simp add: find_all_by_title_def subscribers_def split: option.splits)

lemma find_all_by_title_iff:
  assumes "reg_ok r"
  shows "c \<in> set (find_all_by_title t e r) \<longleftrightarrow>
    registered r c \<and> t \<in> set (titles_of r c) \<and> e \<noteq> Some (id_of r c)"
  using reg_okD(4)[OF assms] by (auto simp: find_all_by_title_eq)

lemma registered_inj: "inj_on (id_of r) {c. registered r c}"
  by (rule inj_onI) (metis mem_Collect_eq option.inject registered_def)

lemma routed_ids_iff:
  assumes "reg_ok r"
  shows "i \<in> set (routed_ids t e r) \<longleftrightarrow> (\<exists>T. subs r i = Some T \<and> t \<in> T) \<and> e \<noteq> Some i"
proof
  assume "i \<in> set (routed_ids t e r)"
  then show "(\<exists>T. subs r i = Some T \<and> t \<in> T) \<and> e \<noteq> Some i"
    by (auto simp: routed_ids_def find_all_by_title_iff[OF assms] registered_def subs_def)
next
  assume "(\<exists>T. subs r i = Some T \<and> t \<in> T) \<and> e \<noteq> Some i"
  then obtain c where c: "dm_get (id2client r) i = Some c" "t \<in> set (titles_of r c)" "e \<noteq> Some i"
    by (auto simp: subs_def)
  then have "registered r c" "id_of r c = i" using reg_okD(1)[OF assms] by (auto simp: registered_def)
  with c show "i \<in> set (routed_ids t e r)"
    by (force simp: routed_ids_def find_all_by_title_iff[OF assms])
qed

lemma routed_ids_distinct:
  assumes "reg_ok r"
  shows "distinct (routed_ids t e r)"
proof -
  have "inj_on (id_of r) (set (find_all_by_title t e r))"
    by (rule inj_on_subset[OF registered_inj]) (auto simp: find_all_by_title_iff[OF assms])
  moreover have "distinct (find_all_by_title t e r)"
    using reg_okD(3)[OF assms] by (simp add: find_all_by_title_eq)
  ultimately show ?thesis by (simp add: routed_ids_def distinct_map)
qed

lemma alloc_ok:
  assumes ok: "reg_ok r" and unused: "\<And>i. dm_get (id2client r) i \<noteq> Some c"
  shows "reg_ok (upd_client c (\<lambda>_. cl) r)" "subs (upd_client c (\<lambda>_. cl) r) = subs r"
proof -
  let ?s = "upd_client c (\<lambda>_. cl) r"
  have reg: "registered ?s x = registered r x" for x
    using unused by (simp add: registered_def)
  have ne: "registered r x \<Longrightarrow> x \<noteq> c" for x using unused by (auto simp: registered_def)
  show "reg_ok ?s"
  proof (rule reg_okI)
    show "x \<in> set (subscribers ?s t) \<longleftrightarrow> registered ?s x \<and> t \<in> set (titles_of ?s x)" for t x
      using ne[of x] reg_okD(4)[OF ok, of x t] by (cases "x = c") (auto simp: reg)
    show "t \<in> set (titles_of ?s x) \<Longrightarrow> atomic t" if "registered ?s x" for x t
      using ne[of x] reg_okD(2)[OF ok, of x t] that by (simp add: reg)
    show "dm_get (id2client ?s) i = Some x \<Longrightarrow> id_of ?s x = i" for i x
      using unused reg_okD(1)[OF ok, of i x] by auto
  qed (use ok in \<open>simp_all add: reg_ok_def\<close>)
  show "subs ?s = subs r"
    using unused by (auto simp: subs_def fun_eq_iff intro!: map_option_cong split: if_splits)
qed

section \<open>The interface the server relies on\<close>

text \<open>
  The promises of the \<^verbatim>\<open>ClientRegistry\<close> trait: \<open>ids\<close> answers a routing query from the subscriptions
  alone, and the three operations on a connected client change the subscriptions as documented.
\<close>

locale client_registry =
  fixes ok :: "'r \<Rightarrow> bool"
    and sub :: "'r \<Rightarrow> subscriptions"
    and ids :: "string \<Rightarrow> u128 option \<Rightarrow> 'r \<Rightarrow> u128 list"
    and enrol :: "u128 \<Rightarrow> string \<Rightarrow> 'r \<Rightarrow> 'r"
    and revoke :: "u128 \<Rightarrow> string \<Rightarrow> 'r \<Rightarrow> 'r"
    and expel :: "u128 \<Rightarrow> 'r \<Rightarrow> 'r"
  assumes ids_iff: "ok r \<Longrightarrow>
      i \<in> set (ids t e r) \<longleftrightarrow> (\<exists>T. sub r i = Some T \<and> t \<in> T) \<and> e \<noteq> Some i"
    and ids_distinct: "ok r \<Longrightarrow> distinct (ids t e r)"
    and enrol_ok: "ok r \<Longrightarrow> atomic t \<Longrightarrow> ok (enrol i t r)"
    and enrol_sub: "ok r \<Longrightarrow> atomic t \<Longrightarrow> sub (enrol i t r) = (sub r)(i := map_option (insert t) (sub r i))"
    and revoke_ok: "ok r \<Longrightarrow> ok (revoke i t r)"
    and revoke_sub: "ok r \<Longrightarrow> sub (revoke i t r) = (sub r)(i := map_option (\<lambda>T. T - {t}) (sub r i))"
    and expel_ok: "ok r \<Longrightarrow> ok (expel i r)"
    and expel_sub: "ok r \<Longrightarrow> sub (expel i r) = (sub r)(i := None)"
begin

lemma enrolled_is_routed:
  "ok r \<Longrightarrow> atomic t \<Longrightarrow> sub r i \<noteq> None \<Longrightarrow> e \<noteq> Some i \<Longrightarrow> i \<in> set (ids t e (enrol i t r))"
  by (auto simp: ids_iff enrol_ok enrol_sub)

lemma enrol_frame:
  "ok r \<Longrightarrow> atomic t \<Longrightarrow> j \<noteq> i \<or> t' \<noteq> t \<Longrightarrow>
    j \<in> set (ids t' e (enrol i t r)) \<longleftrightarrow> j \<in> set (ids t' e r)"
  by (auto simp: ids_iff enrol_ok enrol_sub)

lemma revoked_not_routed: "ok r \<Longrightarrow> i \<notin> set (ids t e (revoke i t r))"
  by (auto simp: ids_iff revoke_ok revoke_sub)

lemma revoke_frame:
  "ok r \<Longrightarrow> j \<noteq> i \<or> t' \<noteq> t \<Longrightarrow> j \<in> set (ids t' e (revoke i t r)) \<longleftrightarrow> j \<in> set (ids t' e r)"
  by (auto simp: ids_iff revoke_ok revoke_sub)

lemma expelled_not_routed: "ok r \<Longrightarrow> i \<notin> set (ids t e (expel i r))"
  by (auto simp: ids_iff expel_ok expel_sub)

lemma expel_frame: "ok r \<Longrightarrow> j \<noteq> i \<Longrightarrow> j \<in> set (ids t e (expel i r)) \<longleftrightarrow> j \<in> set (ids t e r)"
  by (auto simp: ids_iff expel_ok expel_sub)

lemma excluded_not_routed: "ok r \<Longrightarrow> i \<notin> set (ids t (Some i) r)"
  by (simp add: ids_iff)

end

interpretation cr: client_registry reg_ok subs routed_ids register_title unregister_title
    "\<lambda>i r. snd (remove_client i r)"
  by unfold_locales
    (simp_all add: routed_ids_iff routed_ids_distinct register_title_ok subs_register_title
      unregister_title_ok subs_unregister_title remove_client_ok subs_remove_client)

section \<open>Histories\<close>

lemma reg_step:
  assumes "reg_ok r" "op_ok op r"
  shows "reg_ok (reg_apply op r) \<and> subs (reg_apply op r) = spec_apply op (subs r)"
proof (cases op)
  case (Connect c cl)
  have un: "dm_get (id2client r) i \<noteq> Some c" for i
    using assms(2) Connect by (force dest: map_of_SomeD)
  let ?u = "upd_client c (\<lambda>_. cl) r"
  have "reg_ok (add_client c ?u)"
    using alloc_ok(1)[OF assms(1) un, of cl] assms(2) Connect by (intro add_client_ok) simp_all
  then show ?thesis
    using alloc_ok(2)[OF assms(1) un, of cl] Connect by (simp add: subs_add_client)
qed (use assms in \<open>simp_all add: remove_client_ok subs_remove_client register_title_ok
      subs_register_title unregister_title_ok subs_unregister_title upd_client_ok upd_client_subs
      update_last_recv_def\<close>)

lemma reg_run:
  assumes "reg_ok r" "run_ok ops r"
  shows "reg_ok (fold reg_apply ops r) \<and> subs (fold reg_apply ops r) = fold spec_apply ops (subs r)"
  using assms by (induction ops arbitrary: r) (auto dest: reg_step)

section \<open>Properties\<close>

text \<open>
  C2: After every history of connections (with an id not connected, a client object not in use, and
  titles that are neither empty nor contain a semicolon), disconnections, subscriptions to one title
  that is neither empty nor contains a semicolon, unsubscriptions of any title, and activity stamps, the
  registry is consistent and routes exactly by the subscriptions: a query for a title returns, once
  each, the ids of the connected clients that hold the title, the excluded id left out. The condition on
  the titles is needed: \<open>composite_title_leaks\<close> below shows what a title with a semicolon does.
\<close>

theorem registry_history:
  assumes "run_ok ops (registry_new h)"
  shows "let r = fold reg_apply ops (registry_new h); s = fold spec_apply ops Map.empty in
     reg_ok r \<and> subs r = s \<and> distinct (routed_ids t e r)
     \<and> set (routed_ids t e r) = {i. (\<exists>T. s i = Some T \<and> t \<in> T) \<and> e \<noteq> Some i}"
proof -
  have "subs (registry_new h) = Map.empty" by (simp add: subs_def registry_new_def fun_eq_iff)
  with reg_run[OF reg_ok_new assms] show ?thesis
    by (simp add: Let_def cr.ids_distinct set_eq_iff cr.ids_iff)
qed

theorem registry_history_witness:
  "let cl = client_new 0 7 ([], 0) ''a;b'' 1;
       ops = [Connect 0 cl, Subscribe 7 ''c'', Connect 1 (cl\<lparr>cl_id := 8\<rparr>), Unsubscribe 7 ''b'', Disconnect 8];
       r = fold reg_apply ops (registry_new (\<lambda>_. cl)) in
   set (routed_ids ''a'' None r) = {7} \<and> set (routed_ids ''b'' None r) = {}
   \<and> set (routed_ids ''c'' (Some 7) r) = {}"
proof -
  define cl where "cl = client_new 0 7 ([], 0) ''a;b'' 1"
  define ops where "ops = [Connect 0 cl, Subscribe 7 ''c'', Connect 1 (cl\<lparr>cl_id := 8\<rparr>),
    Unsubscribe 7 ''b'', Disconnect 8]"
  have tp: "title_parts ''a;b'' = [''a'', ''b'']" by (simp add: title_parts_def)
  have "run_ok ops (registry_new (\<lambda>_. cl))"
    unfolding ops_def cl_def registry_new_def client_new_def tp by code_simp
  note h = registry_history[OF this]
  have "fold spec_apply ops Map.empty = [7 \<mapsto> {''a'', ''c''}]"
    by (auto simp: ops_def cl_def client_new_def tp fun_eq_iff)
  then show ?thesis
    using h[of "''a''" None] h[of "''b''" None] h[of "''c''" "Some 7"]
    unfolding Let_def ops_def[symmetric] cl_def[symmetric] by auto
qed

text \<open>
  Subscribing a connected client to a title that is empty or contains a semicolon puts an entry
  in the title index that the client's own title list does not carry, so it outlives the client:
  after the client is removed, a query for that title still returns the removed object.
\<close>

theorem composite_title_leaks:
  assumes "reg_ok r" "dm_get (id2client r) i = Some c" "\<not> atomic t"
  shows "let r' = snd (remove_client i (register_title i t r)) in
     find_some_by_id i r' = None \<and> find_all_by_title t None r' = [c]"
proof -
  let ?u = "upd_client c (insert_title t) r" and ?s = "register_title i t r"
  have ci: "id_of r c = i" using reg_okD(1)[OF assms(1,2)] .
  have none: "subscribers r t = []"
    using reg_okD(2,4)[OF assms(1)] assms(3) by (metis ex_in_conv set_empty)
  have s: "subscribers ?s t = [c]" "id2client ?s = id2client r" "heap ?s = heap ?u"
    using assms(2) none by (simp_all add: register_title_def subscribers_push)
  have "t \<notin> set (titles_of ?s c)"
    using assms(3) reg_okD(2)[OF assms(1), of c t] assms(2) ci
    by (auto simp: s insert_title_set registered_def dest: title_parts_atomic)
  then have "subscribers (snd (remove_client i ?s)) t = [c]"
    using assms(2) s by (simp add: remove_client_def subscribers_fold_drop)
       (metis subscribers_eq registry.select_convs(3) registry.update_convs(2) registry.surjective)
  moreover have "dm_get (id2client (snd (remove_client i ?s))) i = None"
    using assms(2) s by (simp add: remove_client_def)
  ultimately show ?thesis by (simp add: Let_def find_some_by_id_def find_all_by_title_eq)
qed

theorem composite_title_leaks_witness:
  "let cl = client_new 0 7 ([], 0) ''x'' 1; r = add_client 0 (registry_new (\<lambda>_. cl));
       r' = snd (remove_client 7 (register_title 7 ''a;b'' r)) in
   find_some_by_id 7 r' = None \<and> find_all_by_title ''a;b'' None r' = [0]"
proof -
  define cl where "cl = client_new 0 7 ([], 0) ''x'' 1"
  have at: "\<forall>t \<in> set (titles_of (registry_new (\<lambda>_. cl)) 0). atomic t"
    by (auto simp: registry_new_def cl_def client_new_def dest: title_parts_atomic)
  have r: "reg_ok (add_client 0 (registry_new (\<lambda>_. cl)))"
    by (rule add_client_ok[OF reg_ok_new _ at]) (simp add: registry_new_def)
  have g: "dm_get (id2client (add_client 0 (registry_new (\<lambda>_. cl)))) 7 = Some 0"
    by (simp add: add_client_def registry_new_def cl_def client_new_def Let_def)
  show ?thesis
    using composite_title_leaks[OF r g, of "''a;b''"] unfolding cl_def by (simp add: Let_def atomic_def)
qed

end
