(* ===== verification/AckTracker.thy ===== *)
theory AckTracker
  imports Prelude "HOL-Library.Multiset"
begin

text \<open>
  The tracker of pending acknowledgements (\<^verbatim>\<open>crates/rex-server/src/system/ack.rs\<close>). An entry is
  answered by \<open>take\<close> (the acknowledgement arrived) or by \<open>take_expired\<close> (the janitor timed it out).
\<close>

record pending_ack_info =
  pa_source_client_id :: u128
  pa_title :: string
  pa_timestamp :: u64
  pa_is_group :: bool

record ack_tracker =
  pending_acks :: "(u64, pending_ack_info) dmap"
  ack_timeout_secs :: u64

definition ack_tracker_new :: "u64 \<Rightarrow> ack_tracker" where
  "ack_tracker_new timeout = \<lparr>pending_acks = [], ack_timeout_secs = timeout\<rparr>"

definition ack_register ::
    "u64 \<Rightarrow> u64 \<Rightarrow> u128 \<Rightarrow> string \<Rightarrow> bool \<Rightarrow> ack_tracker \<Rightarrow> ack_tracker" where
  "ack_register now message_id source_client_id title is_group a =
     (let info = \<lparr>pa_source_client_id = source_client_id, pa_title = title, pa_timestamp = now,
                  pa_is_group = is_group\<rparr>
      in a\<lparr>pending_acks := dm_insert message_id info (pending_acks a)\<rparr>)"

definition ack_take :: "u64 \<Rightarrow> ack_tracker \<Rightarrow> pending_ack_info option \<times> ack_tracker" where
  "ack_take message_id a =
     (dm_get (pending_acks a) message_id, a\<lparr>pending_acks := dm_remove message_id (pending_acks a)\<rparr>)"

definition ack_get :: "u64 \<Rightarrow> ack_tracker \<Rightarrow> pending_ack_info option" where
  "ack_get message_id a = dm_get (pending_acks a) message_id"

text \<open>The removal loop of \<open>take_expired\<close>.\<close>

fun take_ids :: "u64 list \<Rightarrow> ack_tracker \<Rightarrow> (u64 \<times> u128) list \<times> ack_tracker" where
  "take_ids [] a = ([], a)"
| "take_ids (msg_id # ids) a =
     (case ack_take msg_id a of
        (None, a') \<Rightarrow> take_ids ids a'
      | (Some info, a') \<Rightarrow>
          (case take_ids ids a' of (res, a'') \<Rightarrow> ((msg_id, pa_source_client_id info) # res, a'')))"

definition expired_ids :: "u64 \<Rightarrow> ack_tracker \<Rightarrow> u64 list" where
  "expired_ids now a = map fst (filter (\<lambda>(m, info).
     ack_timeout_secs a < sat_sub now (pa_timestamp info)) (pending_acks a))"

definition take_expired :: "u64 \<Rightarrow> ack_tracker \<Rightarrow> (u64 \<times> u128) list \<times> ack_tracker" where
  "take_expired now a = take_ids (expired_ids now a) a"

definition pending_count :: "ack_tracker \<Rightarrow> nat" where
  "pending_count a = length (pending_acks a)"

section \<open>Specification\<close>

definition ack_expired :: "u64 \<Rightarrow> ack_tracker \<Rightarrow> u64 \<Rightarrow> bool" where
  "ack_expired now a m \<longleftrightarrow> (case dm_get (pending_acks a) m of None \<Rightarrow> False
     | Some info \<Rightarrow> unat (ack_timeout_secs a) < unat now - unat (pa_timestamp info))"

text \<open>Histories: the ids a history registers and the ids it hands out.\<close>

datatype ack_op = ARegister u64 u64 u128 string bool | ATake u64 | AExpire u64

fun ack_run :: "ack_op list \<Rightarrow> ack_tracker \<Rightarrow> u64 list \<times> ack_tracker" where
  "ack_run [] a = ([], a)"
| "ack_run (ARegister now m s t g # ops) a = ack_run ops (ack_register now m s t g a)"
| "ack_run (ATake m # ops) a =
     (case ack_take m a of (r, a') \<Rightarrow> case ack_run ops a' of (out, a'') \<Rightarrow>
        ((case r of None \<Rightarrow> [] | Some _ \<Rightarrow> [m]) @ out, a''))"
| "ack_run (AExpire now # ops) a =
     (case take_expired now a of (r, a') \<Rightarrow> case ack_run ops a' of (out, a'') \<Rightarrow>
        (map fst r @ out, a''))"

fun registered_ids :: "ack_op list \<Rightarrow> u64 list" where
  "registered_ids [] = []"
| "registered_ids (ARegister now m s t g # ops) = m # registered_ids ops"
| "registered_ids (ATake m # ops) = registered_ids ops"
| "registered_ids (AExpire now # ops) = registered_ids ops"

text \<open>Histories in which an id is registered only while it is not pending.\<close>

fun fresh_run :: "ack_op list \<Rightarrow> ack_tracker \<Rightarrow> bool" where
  "fresh_run [] a \<longleftrightarrow> True"
| "fresh_run (ARegister now m s t g # ops) a \<longleftrightarrow>
     dm_get (pending_acks a) m = None \<and> fresh_run ops (ack_register now m s t g a)"
| "fresh_run (ATake m # ops) a \<longleftrightarrow> fresh_run ops (snd (ack_take m a))"
| "fresh_run (AExpire now # ops) a \<longleftrightarrow> fresh_run ops (snd (take_expired now a))"

section \<open>Lemmas\<close>

lemma ack_take_pending [simp]:
  "pending_acks (snd (ack_take m a)) = dm_remove m (pending_acks a)"
  "ack_timeout_secs (snd (ack_take m a)) = ack_timeout_secs a"
  by (simp_all add: ack_take_def)

lemma take_ids_state:
  "dm_get (pending_acks (snd (take_ids ids a))) m
     = (if m \<in> set ids then None else dm_get (pending_acks a) m)"
  "ack_timeout_secs (snd (take_ids ids a)) = ack_timeout_secs a"
  "dm_ok (pending_acks a) \<Longrightarrow> dm_ok (pending_acks (snd (take_ids ids a)))"
  by (induction ids a rule: take_ids.induct) (auto simp: ack_take_def split: option.splits prod.splits)

lemma take_ids_result:
  assumes "distinct ids"
  shows "fst (take_ids ids a) = map (\<lambda>m. (m, pa_source_client_id (the (dm_get (pending_acks a) m))))
    (filter (\<lambda>m. dm_get (pending_acks a) m \<noteq> None) ids)"
  using assms
proof (induction ids arbitrary: a)
  case (Cons m ids)
  let ?a = "snd (ack_take m a)"
  have "fst (take_ids ids ?a) = map (\<lambda>m. (m, pa_source_client_id (the (dm_get (pending_acks a) m))))
      (filter (\<lambda>m. dm_get (pending_acks a) m \<noteq> None) ids)"
    using Cons by (auto intro!: map_cong filter_cong)
  then show ?case
    by (auto simp: ack_take_def split: prod.splits option.splits)
qed simp

lemma expired_ids:
  assumes "dm_ok (pending_acks a)"
  shows "distinct (expired_ids now a)" "m \<in> set (expired_ids now a) \<longleftrightarrow> ack_expired now a m"
proof -
  show "distinct (expired_ids now a)"
    using dm_ok_filter[OF assms(1)] unfolding expired_ids_def dm_ok_def by blast
  have "m \<in> set (expired_ids now a) \<longleftrightarrow> (\<exists>info. (m, info) \<in> set (pending_acks a)
      \<and> unat (ack_timeout_secs a) < unat now - unat (pa_timestamp info))"
    by (force simp: expired_ids_def word_less_nat_alt unat_sat_sub)
  then show "m \<in> set (expired_ids now a) \<longleftrightarrow> ack_expired now a m"
    by (simp add: dm_mem_get[OF assms(1)] ack_expired_def split: option.splits)
qed

lemma take_expired_state:
  assumes "dm_ok (pending_acks a)"
  shows "dm_get (pending_acks (snd (take_expired now a))) m
      = (if ack_expired now a m then None else dm_get (pending_acks a) m)"
    and "dm_ok (pending_acks (snd (take_expired now a)))"
  using expired_ids(2)[OF assms] assms
  by (simp_all add: take_expired_def take_ids_state)

lemma take_expired_result:
  assumes "dm_ok (pending_acks a)"
  shows "distinct (map fst (fst (take_expired now a)))"
    and "(m, s) \<in> set (fst (take_expired now a)) \<longleftrightarrow> ack_expired now a m
      \<and> map_option pa_source_client_id (dm_get (pending_acks a) m) = Some s"
proof -
  have r: "fst (take_expired now a)
      = map (\<lambda>m. (m, pa_source_client_id (the (dm_get (pending_acks a) m))))
          (filter (\<lambda>m. dm_get (pending_acks a) m \<noteq> None) (expired_ids now a))"
    using take_ids_result[OF expired_ids(1)[OF assms]] by (simp add: take_expired_def)
  show "distinct (map fst (fst (take_expired now a)))" by (simp add: r o_def expired_ids(1)[OF assms])
  show "(m, s) \<in> set (fst (take_expired now a)) \<longleftrightarrow> ack_expired now a m
      \<and> map_option pa_source_client_id (dm_get (pending_acks a) m) = Some s"
    using expired_ids(2)[OF assms] by (auto simp: r ack_expired_def)
qed

text \<open>Taking an entry moves its id from the pending keys to the answers.\<close>

lemma mset_delete:
  assumes "dm_ok m" "dm_get m k \<noteq> None"
  shows "mset (dm_keys m) = add_mset k (mset (dm_keys (dm_remove k m)))"
proof -
  have "distinct (map fst m)" "k \<in> set (map fst m)"
    using assms by (auto simp: dm_ok_def map_of_eq_None_iff)
  then show ?thesis
    by (simp add: dm_keys_def delete_keys del: mset_map flip: distinct_remove1_removeAll)
qed

lemma take_ids_mset:
  assumes "dm_ok (pending_acks a)"
  shows "mset (dm_keys (pending_acks a))
    = mset (map fst (fst (take_ids ids a))) + mset (dm_keys (pending_acks (snd (take_ids ids a))))"
  using assms
proof (induction ids arbitrary: a)
  case (Cons m ids)
  let ?a = "snd (ack_take m a)"
  have IH: "mset (dm_keys (pending_acks ?a)) = mset (map fst (fst (take_ids ids ?a)))
      + mset (dm_keys (pending_acks (snd (take_ids ids ?a))))"
    using Cons.prems by (intro Cons.IH) simp
  show ?case
  proof (cases "dm_get (pending_acks a) m")
    case None
    with IH show ?thesis by (simp add: ack_take_def dm_remove_absent)
  next
    case (Some info)
    with IH mset_delete[OF Cons.prems, of m] show ?thesis
      by (simp add: ack_take_def split: prod.splits)
  qed
qed simp

lemma mset_insert_fresh:
  "dm_get m k = None \<Longrightarrow> mset (dm_keys (dm_insert k v m)) = add_mset k (mset (dm_keys m))"
  by (induction m) (auto simp: dm_keys_def split: if_splits)

lemma ack_run_mset:
  assumes "dm_ok (pending_acks a)" "fresh_run ops a"
  shows "mset (dm_keys (pending_acks a)) + mset (registered_ids ops)
    = mset (fst (ack_run ops a)) + mset (dm_keys (pending_acks (snd (ack_run ops a))))"
  using assms
proof (induction ops arbitrary: a rule: registered_ids.induct)
  case (2 now m s t g ops)
  let ?a = "ack_register now m s t g a"
  have "mset (dm_keys (pending_acks ?a)) = add_mset m (mset (dm_keys (pending_acks a)))"
    using 2 by (simp add: ack_register_def mset_insert_fresh)
  with 2(1)[of ?a] 2(2,3) show ?case by (simp add: ack_register_def)
next
  case (3 m ops)
  let ?a = "snd (ack_take m a)"
  have "mset (dm_keys (pending_acks a)) = mset (case dm_get (pending_acks a) m of None \<Rightarrow> [] | Some _ \<Rightarrow> [m])
      + mset (dm_keys (pending_acks ?a))"
    using mset_delete[OF 3(2), of m]
    by (cases "dm_get (pending_acks a) m") (simp_all add: dm_remove_absent)
  with 3(1)[of ?a] 3(2,3) show ?case
    by (simp add: ack_take_def split: prod.splits)
next
  case (4 now ops)
  let ?a = "snd (take_expired now a)"
  have "mset (dm_keys (pending_acks a)) = mset (map fst (fst (take_expired now a)))
      + mset (dm_keys (pending_acks ?a))"
    using take_ids_mset[OF 4(2)] by (simp add: take_expired_def)
  with 4(1)[of ?a] 4(2,3) take_expired_state(2)[OF 4(2)] show ?case
    by (simp add: case_prod_unfold)
qed simp

section \<open>Properties\<close>

text \<open>
  Sweeping the pending acknowledgements returns exactly the entries older than the timeout,
  each once and with the client that sent the message, removes exactly those and keeps the others
  unchanged; a clock that went back expires nothing.
\<close>

theorem take_expired_exact:
  assumes "dm_ok (pending_acks a)"
  shows "let (res, a') = take_expired now a in
      distinct (map fst res)
    \<and> set res = {(m, s). \<exists>info. dm_get (pending_acks a) m = Some info \<and> s = pa_source_client_id info
        \<and> unat (ack_timeout_secs a) < unat now - unat (pa_timestamp info)}
    \<and> (\<forall>m. dm_get (pending_acks a') m = (if m \<in> fst ` set res then None else dm_get (pending_acks a) m))
    \<and> dm_ok (pending_acks a')"
proof -
  have mem: "m \<in> fst ` set (fst (take_expired now a)) \<longleftrightarrow> ack_expired now a m" for m
    using take_expired_result(2)[OF assms, of m _ now]
    by (force simp: ack_expired_def image_iff split: option.splits)
  have set: "set (fst (take_expired now a)) = {(m, s). \<exists>info. dm_get (pending_acks a) m = Some info
        \<and> s = pa_source_client_id info
        \<and> unat (ack_timeout_secs a) < unat now - unat (pa_timestamp info)}"
    using take_expired_result(2)[OF assms, of _ _ now] by (auto simp: ack_expired_def split: option.splits)
  show ?thesis
    using take_expired_result(1)[OF assms, of now] take_expired_state[OF assms, of now] mem set
    by (simp add: case_prod_unfold)
qed

theorem take_expired_exact_witness:
  "let a = ack_register 10 1 7 ''t'' False (ack_register 100 2 8 ''t'' True (ack_tracker_new 30));
       (res, a') = take_expired 60 a in
   set res = {(1, 7)} \<and> dm_get (pending_acks a') 2 \<noteq> None"
proof -
  define a where "a = ack_register 10 1 7 ''t'' False
    (ack_register 100 2 8 ''t'' True (ack_tracker_new 30))"
  have "dm_ok (pending_acks a)"
    by (simp add: a_def ack_register_def ack_tracker_new_def dm_ok_def)
  note e = take_expired_exact[OF this, of 60]
  have "{(m, s). \<exists>info. dm_get (pending_acks a) m = Some info \<and> s = pa_source_client_id info
      \<and> unat (ack_timeout_secs a) < unat (60 :: u64) - unat (pa_timestamp info)} = {(1, 7)}"
    by (auto simp: a_def ack_register_def ack_tracker_new_def split: if_splits)
  moreover have "dm_get (pending_acks a) 2 \<noteq> None"
    by (simp add: a_def ack_register_def ack_tracker_new_def)
  ultimately show ?thesis using e unfolding a_def[symmetric] Let_def by (auto split: prod.splits)
qed

text \<open>
  C7: No acknowledgement is lost or answered twice: in a history that registers a message id only
  while it is not pending, the ids registered are, counted with multiplicity, the ids handed out by
  acknowledgements and by sweeps together with those still pending.
\<close>

theorem acks_answered_once:
  assumes "fresh_run ops (ack_tracker_new timeout)"
  shows "let (answered, a) = ack_run ops (ack_tracker_new timeout) in
    mset (registered_ids ops) = mset answered + mset (dm_keys (pending_acks a))"
  using ack_run_mset[OF _ assms] by (simp add: ack_tracker_new_def case_prod_unfold dm_keys_def)

theorem acks_answered_once_witness:
  "let (answered, a) = ack_run [ARegister 0 1 7 ''t'' False, ARegister 5 2 7 ''t'' False, ATake 1,
       AExpire 9, ATake 1] (ack_tracker_new 3) in
    mset [1, 2] = mset answered + mset (dm_keys (pending_acks a))"
  using acks_answered_once[of "[ARegister 0 1 7 ''t'' False, ARegister 5 2 7 ''t'' False, ATake 1,
       AExpire 9, ATake 1]" 3]
  by (simp add: ack_register_def ack_tracker_new_def)
end
