(* ===== verification/Persistence.thy ===== *)
theory Persistence
  imports Prelude
begin

text \<open>
  The storage layer (\<^verbatim>\<open>crates/rex-persistence/src\<close>): the offline message queues of
  \<^verbatim>\<open>PersistenceStore\<close> and the client rows of \<^verbatim>\<open>ClientStateRepo\<close>. Both are code over two
  third-party crates, which are arguments here: the embedded database sled (a record of its tree
  operations over a database state of any type) and the serialiser bincode (a record of the codecs
  used). A sled operation may fail at any call. What the code relies on is stated in the locale
  \<open>sled_db\<close> and in \<open>bincode_ok\<close>.
\<close>

section \<open>The two crates\<close>

record offline_message =
  om_id :: u64
  om_client_id :: u128
  om_title :: string
  om_payload :: bytes
  om_timestamp :: u64
  om_retries :: u32

record persisted_client =
  pc_client_id :: u128
  pc_titles :: "string list"
  pc_created_at :: u64
  pc_ghost_until :: u64

record 'db sled =
  sl_open_tree :: "string \<Rightarrow> 'db \<Rightarrow> (string + unit) \<times> 'db"
  sl_get :: "string \<Rightarrow> bytes \<Rightarrow> 'db \<Rightarrow> string + bytes option"
  sl_insert :: "string \<Rightarrow> bytes \<Rightarrow> bytes \<Rightarrow> 'db \<Rightarrow> (string + unit) \<times> 'db"
  sl_remove :: "string \<Rightarrow> bytes \<Rightarrow> 'db \<Rightarrow> (string + unit) \<times> 'db"
  sl_iter :: "string \<Rightarrow> 'db \<Rightarrow> (string + bytes \<times> bytes) list"
  sl_flush :: "'db \<Rightarrow> (string + unit) \<times> 'db"

record bincode =
  ser_ids :: "u64 list \<Rightarrow> bytes option"
  de_ids :: "bytes \<Rightarrow> u64 list option"
  ser_msg :: "offline_message \<Rightarrow> bytes option"
  de_msg :: "bytes \<Rightarrow> offline_message option"
  ser_client :: "persisted_client \<Rightarrow> bytes option"
  de_client :: "bytes \<Rightarrow> persisted_client option"

section \<open>Errors and messages\<close>

datatype persistence_error = PeIo string | PeSerialization | PeDb string | PeNotFound
  | PeClientNotFound u128 | PeInvalidFormat

text \<open>\<open>gen_message_id\<close>: the clock and the process-wide counter are arguments.\<close>

definition gen_message_id :: "u64 \<Rightarrow> u64 \<Rightarrow> u64" where
  "gen_message_id now counter = or (push_bit 16 now) (and counter 0xFFFF)"

definition offline_message_new ::
    "u64 \<Rightarrow> u64 \<Rightarrow> u128 \<Rightarrow> string \<Rightarrow> bytes \<Rightarrow> offline_message" where
  "offline_message_new now counter client_id title payload =
     \<lparr>om_id = gen_message_id now counter, om_client_id = client_id, om_title = title,
      om_payload = payload, om_timestamp = now, om_retries = 0\<rparr>"

definition increment_retries :: "offline_message \<Rightarrow> offline_message" where
  "increment_retries m = m\<lparr>om_retries := om_retries m + 1\<rparr>"

definition is_expired :: "u64 \<Rightarrow> u64 \<Rightarrow> offline_message \<Rightarrow> bool" where
  "is_expired now ttl_secs m \<longleftrightarrow> ttl_secs < sat_sub now (om_timestamp m)"

record offline_queue_config =
  max_queue_size :: nat
  message_ttl :: u64
  cleanup_interval :: u64

definition offline_queue_config_default :: offline_queue_config where
  "offline_queue_config_default =
     \<lparr>max_queue_size = 1000, message_ttl = 86400 * 7, cleanup_interval = 3600\<rparr>"

section \<open>The offline queues\<close>

definition T_CLIENTS :: string where "T_CLIENTS = ''clients''"

definition T_OFFLINE_QUEUE :: string where "T_OFFLINE_QUEUE = ''offline_queue''"

definition T_OFFLINE_INDEX :: string where "T_OFFLINE_INDEX = ''offline_index''"

text \<open>\<open>map_err(|e| PersistenceError::Db(e.to_string()))?\<close> and the two codec conversions.\<close>

definition db_do :: "('db \<Rightarrow> (string + 'a) \<times> 'db) \<Rightarrow> (persistence_error, 'db, 'a) sm" where
  "db_do f db = (case f db of (Inl e, db') \<Rightarrow> (Inl (PeDb e), db') | (Inr x, db') \<Rightarrow> (Inr x, db'))"

definition db_read :: "('db \<Rightarrow> string + 'a) \<Rightarrow> (persistence_error, 'db, 'a) sm" where
  "db_read f db = (case f db of Inl e \<Rightarrow> (Inl (PeDb e), db) | Inr x \<Rightarrow> (Inr x, db))"

definition codec :: "'a option \<Rightarrow> (persistence_error, 'db, 'a) sm" where
  "codec r = slift (case r of None \<Rightarrow> Inl PeSerialization | Some x \<Rightarrow> Inr x)"

definition store_open :: "'db sled \<Rightarrow> (persistence_error, 'db, unit) sm" where
  "store_open S = sbind (db_do (sl_open_tree S T_CLIENTS)) (\<lambda>_.
     sbind (db_do (sl_open_tree S T_OFFLINE_QUEUE)) (\<lambda>_.
     db_do (sl_open_tree S T_OFFLINE_INDEX)))"

definition store_flush :: "'db sled \<Rightarrow> (persistence_error, 'db, unit) sm" where
  "store_flush S = db_do (sl_flush S)"

definition store_close :: "'db sled \<Rightarrow> (persistence_error, 'db, unit) sm" where
  "store_close S = store_flush S"

definition offline_queue_key :: "u128 \<Rightarrow> bytes" where
  "offline_queue_key client_id = u128_le client_id"

definition get_offline_message_ids ::
    "'db sled \<Rightarrow> bincode \<Rightarrow> u128 \<Rightarrow> (persistence_error, 'db, u64 list) sm" where
  "get_offline_message_ids S B client_id =
     sbind (db_do (sl_open_tree S T_OFFLINE_INDEX)) (\<lambda>_.
     sbind (db_read (sl_get S T_OFFLINE_INDEX (offline_queue_key client_id))) (\<lambda>r.
     case r of None \<Rightarrow> sret [] | Some v \<Rightarrow> codec (de_ids B v)))"

definition remove_offline_message ::
    "'db sled \<Rightarrow> bincode \<Rightarrow> u128 \<Rightarrow> u64 \<Rightarrow> (persistence_error, 'db, unit) sm" where
  "remove_offline_message S B client_id message_id =
     sbind (db_do (sl_open_tree S T_OFFLINE_INDEX)) (\<lambda>_.
     sbind (get_offline_message_ids S B client_id) (\<lambda>ids.
     sbind (codec (ser_ids B (filter (\<lambda>i. i \<noteq> message_id) ids))) (\<lambda>index_value.
     sbind (db_do (sl_insert S T_OFFLINE_INDEX (offline_queue_key client_id) index_value)) (\<lambda>_.
     sbind (db_do (sl_open_tree S T_OFFLINE_QUEUE)) (\<lambda>_.
     db_do (sl_remove S T_OFFLINE_QUEUE (u64_le message_id)))))))"

definition remove_oldest_offline ::
    "'db sled \<Rightarrow> bincode \<Rightarrow> u128 \<Rightarrow> (persistence_error, 'db, unit) sm" where
  "remove_oldest_offline S B client_id =
     sbind (get_offline_message_ids S B client_id) (\<lambda>ids.
     case ids of [] \<Rightarrow> sret () | oldest_id # _ \<Rightarrow> remove_offline_message S B client_id oldest_id)"

definition add_offline_message :: "'db sled \<Rightarrow> bincode \<Rightarrow> offline_queue_config \<Rightarrow> offline_message
    \<Rightarrow> (persistence_error, 'db, unit) sm" where
  "add_offline_message S B cfg msg =
     sbind (db_do (sl_open_tree S T_OFFLINE_INDEX)) (\<lambda>_.
     sbind (db_read (sl_get S T_OFFLINE_INDEX (offline_queue_key (om_client_id msg)))) (\<lambda>r.
     let current_size = (case r of None \<Rightarrow> 0
           | Some v \<Rightarrow> length (case de_ids B v of None \<Rightarrow> [] | Some ids \<Rightarrow> ids)) in
     sbind (if max_queue_size cfg \<le> current_size
            then remove_oldest_offline S B (om_client_id msg) else sret ()) (\<lambda>_.
     sbind (codec (ser_msg B msg)) (\<lambda>msg_value.
     sbind (db_do (sl_open_tree S T_OFFLINE_QUEUE)) (\<lambda>_.
     sbind (db_do (sl_insert S T_OFFLINE_QUEUE (u64_le (om_id msg)) msg_value)) (\<lambda>_.
     sbind (get_offline_message_ids S B (om_client_id msg)) (\<lambda>ids.
     sbind (codec (ser_ids B (ids @ [om_id msg]))) (\<lambda>index_value.
     db_do (sl_insert S T_OFFLINE_INDEX (offline_queue_key (om_client_id msg)) index_value)))))))))"

text \<open>The loop of \<open>get_offline_messages\<close> over the ids.\<close>

fun read_messages :: "'db sled \<Rightarrow> bincode \<Rightarrow> u64 \<Rightarrow> u64 \<Rightarrow> u64 list
    \<Rightarrow> (persistence_error, 'db, offline_message list) sm" where
  "read_messages S B now ttl [] = sret []"
| "read_messages S B now ttl (i # ids) =
     sbind (db_read (sl_get S T_OFFLINE_QUEUE (u64_le i))) (\<lambda>r.
     case r of
       None \<Rightarrow> read_messages S B now ttl ids
     | Some v \<Rightarrow> sbind (codec (de_msg B v)) (\<lambda>msg.
         sbind (read_messages S B now ttl ids) (\<lambda>messages.
         sret (if is_expired now ttl msg then messages else msg # messages))))"

definition get_offline_messages :: "'db sled \<Rightarrow> bincode \<Rightarrow> offline_queue_config \<Rightarrow> u64 \<Rightarrow> u128
    \<Rightarrow> (persistence_error, 'db, offline_message list) sm" where
  "get_offline_messages S B cfg now client_id =
     sbind (get_offline_message_ids S B client_id) (\<lambda>ids.
     sbind (db_do (sl_open_tree S T_OFFLINE_QUEUE)) (\<lambda>_.
     read_messages S B now (message_ttl cfg) ids))"

definition get_offline_count ::
    "'db sled \<Rightarrow> bincode \<Rightarrow> u128 \<Rightarrow> (persistence_error, 'db, nat) sm" where
  "get_offline_count S B client_id =
     sbind (get_offline_message_ids S B client_id) (\<lambda>ids. sret (length ids))"

definition clear_offline_messages ::
    "'db sled \<Rightarrow> bincode \<Rightarrow> u128 \<Rightarrow> (persistence_error, 'db, unit) sm" where
  "clear_offline_messages S B client_id =
     sbind (get_offline_message_ids S B client_id) (\<lambda>ids.
     sbind (db_do (sl_open_tree S T_OFFLINE_QUEUE)) (\<lambda>_.
     sbind (db_do (sl_open_tree S T_OFFLINE_INDEX)) (\<lambda>_.
     sbind (sfor ids (\<lambda>i. db_do (sl_remove S T_OFFLINE_QUEUE (u64_le i)))) (\<lambda>_.
     db_do (sl_remove S T_OFFLINE_INDEX (offline_queue_key client_id))))))"

text \<open>
  \<open>cleanup_expired\<close>. Reading a message inside the loop ignores errors (\<open>if let Ok(Some(..))\<close>), and so
  do the removals (\<open>let _ = ..\<close>); the entries of the index tree are taken in order.
\<close>

definition expired_of :: "'db sled \<Rightarrow> bincode \<Rightarrow> u64 \<Rightarrow> u64 \<Rightarrow> u64 list \<Rightarrow> 'db \<Rightarrow> u64 list" where
  "expired_of S B now ttl ids db =
     filter (\<lambda>i. case sl_get S T_OFFLINE_QUEUE (u64_le i) db of
         Inr (Some v) \<Rightarrow> (case de_msg B v of Some msg \<Rightarrow> is_expired now ttl msg | None \<Rightarrow> False)
       | _ \<Rightarrow> False) ids"

definition try_do :: "('db \<Rightarrow> (string + unit) \<times> 'db) \<Rightarrow> (persistence_error, 'db, unit) sm" where
  "try_do f db = (Inr (), snd (f db))"

definition cleanup_entry :: "'db sled \<Rightarrow> bincode \<Rightarrow> u64 \<Rightarrow> u64 \<Rightarrow> string + bytes \<times> bytes
    \<Rightarrow> (persistence_error, 'db, nat) sm" where
  "cleanup_entry S B now ttl entry =
     (case entry of
        Inl e \<Rightarrow> slift (Inl (PeDb e))
      | Inr (client_key, value) \<Rightarrow>
          if length client_key \<noteq> 16 then slift (Inl PeInvalidFormat)
          else sbind (codec (de_ids B value)) (\<lambda>ids.
            sbind (db_do (sl_open_tree S T_OFFLINE_QUEUE)) (\<lambda>_.
            sbind (sget (expired_of S B now ttl ids)) (\<lambda>to_remove.
            let kept = filter (\<lambda>i. i \<notin> set to_remove) ids in
            if length kept = length ids then sret 0
            else sbind (codec (ser_ids B kept)) (\<lambda>index_value.
              sbind (db_do (sl_insert S T_OFFLINE_INDEX client_key index_value)) (\<lambda>_.
              sbind (sfor to_remove (\<lambda>i. try_do (sl_remove S T_OFFLINE_QUEUE (u64_le i)))) (\<lambda>_.
              sret (length ids - length kept))))))))"

fun cleanup_entries :: "'db sled \<Rightarrow> bincode \<Rightarrow> u64 \<Rightarrow> u64 \<Rightarrow> (string + bytes \<times> bytes) list \<Rightarrow> nat
    \<Rightarrow> (persistence_error, 'db, nat) sm" where
  "cleanup_entries S B now ttl [] cleaned = sret cleaned"
| "cleanup_entries S B now ttl (e # es) cleaned =
     sbind (cleanup_entry S B now ttl e) (\<lambda>n. cleanup_entries S B now ttl es (cleaned + n))"

definition cleanup_expired :: "'db sled \<Rightarrow> bincode \<Rightarrow> offline_queue_config \<Rightarrow> u64
    \<Rightarrow> (persistence_error, 'db, nat) sm" where
  "cleanup_expired S B cfg now =
     sbind (db_do (sl_open_tree S T_OFFLINE_INDEX)) (\<lambda>_.
     sbind (sget (sl_iter S T_OFFLINE_INDEX)) (\<lambda>es.
     cleanup_entries S B now (message_ttl cfg) es 0))"

section \<open>The client rows\<close>

definition repo_save :: "'db sled \<Rightarrow> bincode \<Rightarrow> persisted_client \<Rightarrow> (persistence_error, 'db, unit) sm" where
  "repo_save S B client =
     sbind (db_do (sl_open_tree S T_CLIENTS)) (\<lambda>_.
     sbind (codec (ser_client B client)) (\<lambda>value.
     db_do (sl_insert S T_CLIENTS (u128_le (pc_client_id client)) value)))"

definition repo_flush :: "'db sled \<Rightarrow> 'db \<Rightarrow> 'db" where
  "repo_flush S db =
     (case sl_open_tree S T_CLIENTS db of
        (Inr _, db') \<Rightarrow> snd (sl_flush S (snd (sl_flush S db')))
      | (Inl _, db') \<Rightarrow> snd (sl_flush S db'))"

definition repo_remove :: "'db sled \<Rightarrow> u128 \<Rightarrow> (persistence_error, 'db, unit) sm" where
  "repo_remove S client_id =
     sbind (db_do (sl_open_tree S T_CLIENTS)) (\<lambda>_. db_do (sl_remove S T_CLIENTS (u128_le client_id)))"

fun read_rows :: "bincode \<Rightarrow> (string + bytes \<times> bytes) list \<Rightarrow> persistence_error + persisted_client list" where
  "read_rows B [] = Inr []"
| "read_rows B (e # es) =
     (case e of
        Inl err \<Rightarrow> Inl (PeDb err)
      | Inr (_, value) \<Rightarrow> (case de_client B value of
            None \<Rightarrow> Inl PeSerialization
          | Some client \<Rightarrow> rbind (read_rows B es) (\<lambda>out. Inr (client # out))))"

definition repo_load_all ::
    "'db sled \<Rightarrow> bincode \<Rightarrow> (persistence_error, 'db, persisted_client list) sm" where
  "repo_load_all S B =
     sbind (db_do (sl_open_tree S T_CLIENTS)) (\<lambda>_.
     sbind (sget (sl_iter S T_CLIENTS)) (\<lambda>es. slift (read_rows B es)))"

text \<open>The keys \<open>take_expired_ghosts\<close> collects; undecodable rows are skipped.\<close>

fun expired_rows :: "bincode \<Rightarrow> u64 \<Rightarrow> (string + bytes \<times> bytes) list \<Rightarrow> bytes list" where
  "expired_rows B now [] = []"
| "expired_rows B now (e # es) =
     (case e of
        Inl _ \<Rightarrow> expired_rows B now es
      | Inr (key, value) \<Rightarrow> (case de_client B value of
            None \<Rightarrow> expired_rows B now es
          | Some client \<Rightarrow>
              if pc_ghost_until client < now \<and> length key = 16 then key # expired_rows B now es
              else expired_rows B now es))"

definition repo_take_expired_ghosts ::
    "'db sled \<Rightarrow> bincode \<Rightarrow> u64 \<Rightarrow> (persistence_error, 'db, u128 list) sm" where
  "repo_take_expired_ghosts S B now =
     sbind (db_do (sl_open_tree S T_CLIENTS)) (\<lambda>_.
     sbind (sget (sl_iter S T_CLIENTS)) (\<lambda>es.
     let to_remove = expired_rows B now es in
     sbind (sfor to_remove (\<lambda>k. db_do (sl_remove S T_CLIENTS k))) (\<lambda>_.
     sret (map u128_of_le to_remove))))"

section \<open>What the code relies on\<close>

type_synonym contents = "string \<Rightarrow> bytes \<Rightarrow> bytes option"

definition v_put :: "string \<Rightarrow> bytes \<Rightarrow> bytes \<Rightarrow> contents \<Rightarrow> contents" where
  "v_put t k v V = V(t := (V t)(k \<mapsto> v))"

definition v_del :: "string \<Rightarrow> bytes \<Rightarrow> contents \<Rightarrow> contents" where
  "v_del t k V = V(t := (V t)(k := None))"

text \<open>
  Sled, as documented: \<open>view\<close> is the contents of the trees. A successful read returns the contents, a
  successful write changes one key of one tree, opening and flushing change nothing, and iteration
  yields every pair once, in some order. Nothing is said of an operation that fails.
\<close>

locale sled_db =
  fixes S :: "'db sled" and view :: "'db \<Rightarrow> contents"
  assumes open_view: "view (snd (sl_open_tree S t db)) = view db"
    and get_view: "sl_get S t k db = Inr found \<Longrightarrow> found = view db t k"
    and insert_view: "sl_insert S t k v db = (Inr (), db') \<Longrightarrow>
      view db' = v_put t k v (view db)"
    and remove_view: "sl_remove S t k db = (Inr (), db') \<Longrightarrow>
      view db' = v_del t k (view db)"
    and flush_view: "view (snd (sl_flush S db)) = view db"
    and iter_sound: "Inr (k, v) \<in> set (sl_iter S t db) \<Longrightarrow> view db t k = Some v"
    and iter_complete: "\<forall>e \<in> set (sl_iter S t db). \<not> isl e \<Longrightarrow> view db t k = Some v \<Longrightarrow>
      Inr (k, v) \<in> set (sl_iter S t db)"
    and iter_distinct: "distinct (map (fst \<circ> projr) (filter (Not \<circ> isl) (sl_iter S t db)))"

text \<open>Bincode, as documented: what it serialised of the derived types it reads back.\<close>

definition bincode_ok :: "bincode \<Rightarrow> bool" where
  "bincode_ok B \<longleftrightarrow> (\<forall>x b. ser_ids B x = Some b \<longrightarrow> de_ids B b = Some x)
     \<and> (\<forall>x b. ser_msg B x = Some b \<longrightarrow> de_msg B b = Some x)
     \<and> (\<forall>x b. ser_client B x = Some b \<longrightarrow> de_client B b = Some x)"

section \<open>The specification: bounded queues of messages\<close>

definition index_ids :: "bincode \<Rightarrow> contents \<Rightarrow> u128 \<Rightarrow> u64 list" where
  "index_ids B V c = (case V T_OFFLINE_INDEX (u128_le c) of None \<Rightarrow> []
     | Some v \<Rightarrow> (case de_ids B v of None \<Rightarrow> [] | Some ids \<Rightarrow> ids))"

definition stored :: "bincode \<Rightarrow> contents \<Rightarrow> u64 \<Rightarrow> offline_message option" where
  "stored B V i = Option.bind (V T_OFFLINE_QUEUE (u64_le i)) (de_msg B)"

definition queue_of :: "bincode \<Rightarrow> contents \<Rightarrow> u128 \<Rightarrow> offline_message list" where
  "queue_of B V c = map (\<lambda>i. the (stored B V i)) (index_ids B V c)"

definition queues_ok :: "bincode \<Rightarrow> contents \<Rightarrow> bool" where
  "queues_ok B V \<longleftrightarrow>
     (\<forall>c v. V T_OFFLINE_INDEX (u128_le c) = Some v \<longrightarrow> de_ids B v \<noteq> None)
   \<and> (\<forall>c. distinct (index_ids B V c))
   \<and> (\<forall>c. \<forall>i \<in> set (index_ids B V c). \<exists>m. stored B V i = Some m \<and> om_id m = i \<and> om_client_id m = c)"

text \<open>The in-memory database that shows the assumptions to be satisfiable.\<close>

type_synonym mem_db = "((string \<times> bytes) \<times> bytes) list"

definition mem_sled :: "mem_db sled" where
  "mem_sled = \<lparr>sl_open_tree = (\<lambda>t db. (Inr (), db)),
     sl_get = (\<lambda>t k db. Inr (dm_get db (t, k))),
     sl_insert = (\<lambda>t k v db. (Inr (), dm_insert (t, k) v db)),
     sl_remove = (\<lambda>t k db. (Inr (), dm_remove (t, k) db)),
     sl_iter = (\<lambda>t db. map (\<lambda>((_, k), v). Inr (k, v)) (filter (\<lambda>((t', _), _). t' = t) (AList.clearjunk db))),
     sl_flush = (\<lambda>db. (Inr (), db))\<rparr>"

definition mem_view :: "mem_db \<Rightarrow> contents" where
  "mem_view db t k = dm_get db (t, k)"

section \<open>Keys\<close>

lemma u64_le_inj [simp]: "u64_le a = u64_le b \<longleftrightarrow> a = b"
  by (metis u64_round_trip')

lemma u128_le_inj [simp]: "u128_le a = u128_le b \<longleftrightarrow> a = b"
  by (metis u128_round_trip')

lemma trees_differ [simp]:
  "T_OFFLINE_QUEUE \<noteq> T_OFFLINE_INDEX" "T_OFFLINE_INDEX \<noteq> T_OFFLINE_QUEUE"
  "T_CLIENTS \<noteq> T_OFFLINE_QUEUE" "T_CLIENTS \<noteq> T_OFFLINE_INDEX"
  "T_OFFLINE_QUEUE \<noteq> T_CLIENTS" "T_OFFLINE_INDEX \<noteq> T_CLIENTS"
  by (simp_all add: T_OFFLINE_QUEUE_def T_OFFLINE_INDEX_def T_CLIENTS_def)

lemma codec_ok: "codec r db = (Inr x, db') \<longleftrightarrow> r = Some x \<and> db' = db"
  by (auto simp: codec_def slift_def split: option.splits)

lemma db_do_ok: "db_do f db = (Inr x, db') \<longleftrightarrow> f db = (Inr x, db')"
  by (auto simp: db_do_def split: prod.splits sum.splits)

lemma db_read_ok: "db_read f db = (Inr x, db') \<longleftrightarrow> f db = Inr x \<and> db' = db"
  by (auto simp: db_read_def split: sum.splits)

lemmas store_ok = sm_ok codec_ok db_do_ok db_read_ok

lemma bincode_okD:
  assumes "bincode_ok B"
  shows "ser_ids B ids = Some v \<Longrightarrow> de_ids B v = Some ids"
    and "ser_msg B m = Some v \<Longrightarrow> de_msg B v = Some m"
    and "ser_client B p = Some v \<Longrightarrow> de_client B v = Some p"
  using assms by (simp_all add: bincode_ok_def)

section \<open>The abstract effect of writes\<close>

lemma v_at:
  "v_put t k v V t' k' = (if t' = t \<and> k' = k then Some v else V t' k')"
  "v_del t k V t' k' = (if t' = t \<and> k' = k then None else V t' k')"
  by (simp_all add: v_put_def v_del_def)

lemma v_tree [simp]: "t' \<noteq> t \<Longrightarrow> v_put t k v V t' = V t'" "t' \<noteq> t \<Longrightarrow> v_del t k V t' = V t'"
  by (simp_all add: v_put_def v_del_def)

lemma index_put [simp]:
  "index_ids B (v_put T_OFFLINE_INDEX (u128_le c) v V) c'
     = (if c' = c then (case de_ids B v of None \<Rightarrow> [] | Some ids \<Rightarrow> ids) else index_ids B V c')"
  "index_ids B (v_del T_OFFLINE_INDEX (u128_le c) V) c' = (if c' = c then [] else index_ids B V c')"
  "index_ids B (v_put T_OFFLINE_QUEUE k v V) c' = index_ids B V c'"
  "index_ids B (v_del T_OFFLINE_QUEUE k V) c' = index_ids B V c'"
  by (simp_all add: index_ids_def v_at)

lemma stored_put [simp]:
  "stored B (v_put T_OFFLINE_QUEUE (u64_le i) v V) j = (if j = i then de_msg B v else stored B V j)"
  "stored B (v_del T_OFFLINE_QUEUE (u64_le i) V) j = (if j = i then None else stored B V j)"
  "stored B (v_put T_OFFLINE_INDEX k v V) j = stored B V j"
  "stored B (v_del T_OFFLINE_INDEX k V) j = stored B V j"
  by (simp_all add: stored_def v_at)

lemma ids_disjoint:
  assumes "queues_ok B V" "i \<in> set (index_ids B V c)" "i \<in> set (index_ids B V c')"
  shows "c = c'"
  using assms unfolding queues_ok_def by (metis option.inject)

context sled_db
begin

lemma open_ok: "sl_open_tree S t db = (r, db') \<Longrightarrow> view db' = view db"
  using open_view[of t db] by simp

lemma get_ids_ok:
  assumes "get_offline_message_ids S B c db = (Inr ids, db')"
  shows "view db' = view db" "ids = index_ids B (view db) c"
proof -
  obtain db1 r where 1: "sl_open_tree S T_OFFLINE_INDEX db = (Inr (), db1)"
      "sl_get S T_OFFLINE_INDEX (u128_le c) db1 = Inr r"
      "(case r of None \<Rightarrow> sret [] | Some v \<Rightarrow> codec (de_ids B v)) db1 = (Inr ids, db')"
    using assms by (auto simp: get_offline_message_ids_def store_ok offline_queue_key_def)
  have v: "view db1 = view db" by (rule open_ok[OF 1(1)])
  have r: "r = view db T_OFFLINE_INDEX (u128_le c)" using get_view[OF 1(2)] v by simp
  show "view db' = view db" "ids = index_ids B (view db) c"
    using 1(3) v by (auto simp: r index_ids_def store_ok split: option.splits)
qed

lemma remove_message_ok:
  assumes B: "bincode_ok B" and ok: "queues_ok B (view db)"
    and run: "remove_offline_message S B c i db = (Inr (), db')" and mem: "i \<in> set (index_ids B (view db) c)"
  shows "queues_ok B (view db')"
    and "index_ids B (view db') = (index_ids B (view db))
      (c := filter (\<lambda>j. j \<noteq> i) (index_ids B (view db) c))"
    and "\<And>j. j \<noteq> i \<Longrightarrow> stored B (view db') j = stored B (view db) j"
proof -
  let ?V = "view db" and ?ids = "index_ids B (view db) c"
  obtain db1 db2 db3 db4 iv ids where
      1: "sl_open_tree S T_OFFLINE_INDEX db = (Inr (), db1)"
      "get_offline_message_ids S B c db1 = (Inr ids, db2)"
      "ser_ids B (filter (\<lambda>j. j \<noteq> i) ids) = Some iv"
      "sl_insert S T_OFFLINE_INDEX (u128_le c) iv db2 = (Inr (), db3)"
      "sl_open_tree S T_OFFLINE_QUEUE db3 = (Inr (), db4)"
      "sl_remove S T_OFFLINE_QUEUE (u64_le i) db4 = (Inr (), db')"
    using run by (auto simp: remove_offline_message_def store_ok offline_queue_key_def)
  have ids: "ids = ?ids" and v2: "view db2 = ?V"
    using get_ids_ok[OF 1(2)] open_ok[OF 1(1)] by simp_all
  have V: "view db' = v_del T_OFFLINE_QUEUE (u64_le i) (v_put T_OFFLINE_INDEX (u128_le c) iv ?V)"
    using remove_view[OF 1(6)] open_ok[OF 1(5)] insert_view[OF 1(4)] v2 by simp
  have iv: "de_ids B iv = Some (filter (\<lambda>j. j \<noteq> i) ?ids)" using bincode_okD(1)[OF B 1(3)] ids by simp
  show idx: "index_ids B (view db') = (index_ids B ?V)(c := filter (\<lambda>j. j \<noteq> i) ?ids)"
    unfolding V by (simp add: iv fun_eq_iff)
  show st: "stored B (view db') j = stored B ?V j" if "j \<noteq> i" for j
    using that unfolding V by simp
  have other: "j \<noteq> i" if "j \<in> set (index_ids B (view db') c')" for j c'
    using that ids_disjoint[OF ok mem] by (auto simp: idx split: if_splits)
  show "queues_ok B (view db')"
    unfolding queues_ok_def
  proof (intro conjI allI impI ballI)
    show "de_ids B v \<noteq> None" if "view db' T_OFFLINE_INDEX (u128_le c') = Some v" for c' v
      using that ok iv by (auto simp: V v_at queues_ok_def split: if_splits)
    show "distinct (index_ids B (view db') c')" for c'
      using ok by (simp add: idx queues_ok_def)
    show "\<exists>m. stored B (view db') j = Some m \<and> om_id m = j \<and> om_client_id m = c'"
      if "j \<in> set (index_ids B (view db') c')" for c' j
      using ok that st[OF other[OF that]] by (auto simp: idx queues_ok_def split: if_splits)
  qed
qed

lemma remove_oldest_ok:
  assumes "bincode_ok B" "queues_ok B (view db)" "remove_oldest_offline S B c db = (Inr (), db')"
  shows "queues_ok B (view db')"
    and "index_ids B (view db') = (index_ids B (view db))(c := tl (index_ids B (view db) c))"
    and "\<And>c' j. j \<in> set (index_ids B (view db') c') \<Longrightarrow> stored B (view db') j = stored B (view db) j"
proof -
  let ?ids = "index_ids B (view db) c"
  obtain db1 ids where 1: "get_offline_message_ids S B c db = (Inr ids, db1)"
    "(case ids of [] \<Rightarrow> sret () | i # _ \<Rightarrow> remove_offline_message S B c i) db1 = (Inr (), db')"
    using assms(3) by (auto simp: remove_oldest_offline_def store_ok)
  note g = get_ids_ok[OF 1(1)]
  have "queues_ok B (view db') \<and> index_ids B (view db') = (index_ids B (view db))(c := tl ?ids)
    \<and> (\<forall>c' j. j \<in> set (index_ids B (view db') c') \<longrightarrow> stored B (view db') j = stored B (view db) j)"
  proof (cases ids)
    case Nil
    then have "view db' = view db" "?ids = []" using 1(2) g by (simp_all add: sret_ok)
    then show ?thesis using assms(2) by (simp add: fun_upd_idem)
  next
    case (Cons i rest)
    then have r: "remove_offline_message S B c i db1 = (Inr (), db')" and ids: "?ids = i # rest"
      using 1(2) g by simp_all
    have d: "i \<notin> set rest" using assms(2) ids unfolding queues_ok_def by (metis distinct.simps(2))
    note m = remove_message_ok[OF assms(1) _ r, unfolded g(1), OF assms(2)]
    have mem: "i \<in> set ?ids" using ids by simp
    have "filter (\<lambda>j. j \<noteq> i) ?ids = tl ?ids" using ids d by (auto simp: filter_id_conv)
    then have idx: "index_ids B (view db') = (index_ids B (view db))(c := tl ?ids)"
      using m(2)[OF mem] by simp
    have "j \<noteq> i" if "j \<in> set (index_ids B (view db') c')" for c' j
      using that ids d ids_disjoint[OF assms(2) mem, of c'] by (auto simp: idx split: if_splits)
    then show ?thesis using m(1,3)[OF mem] idx by simp
  qed
  then show "queues_ok B (view db')"
    "index_ids B (view db') = (index_ids B (view db))(c := tl ?ids)"
    "\<And>c' j. j \<in> set (index_ids B (view db') c') \<Longrightarrow> stored B (view db') j = stored B (view db) j"
    by simp_all
qed


lemma add_message_ok:
  assumes B: "bincode_ok B" and ok: "queues_ok B (view db)"
    and fresh: "\<And>c. om_id msg \<notin> set (index_ids B (view db) c)"
    and run: "add_offline_message S B cfg msg db = (Inr (), db')"
  shows "queues_ok B (view db')"
    and "queue_of B (view db') = (queue_of B (view db))(om_client_id msg :=
      (if max_queue_size cfg \<le> length (queue_of B (view db) (om_client_id msg))
       then tl (queue_of B (view db) (om_client_id msg))
       else queue_of B (view db) (om_client_id msg)) @ [msg])"
proof -
  let ?c = "om_client_id msg" and ?i = "om_id msg" and ?V = "view db"
  let ?full = "max_queue_size cfg \<le> length (index_ids B ?V ?c)"
  obtain db0 r db1 mv db2 db3 db4 ids iv where
      1: "sl_open_tree S T_OFFLINE_INDEX db = (Inr (), db0)"
      "sl_get S T_OFFLINE_INDEX (u128_le ?c) db0 = Inr r"
      "(if max_queue_size cfg \<le> (case r of None \<Rightarrow> 0
           | Some v \<Rightarrow> length (case de_ids B v of None \<Rightarrow> [] | Some ids \<Rightarrow> ids))
        then remove_oldest_offline S B ?c else sret ()) db0 = (Inr (), db1)"
      "ser_msg B msg = Some mv"
      "sl_open_tree S T_OFFLINE_QUEUE db1 = (Inr (), db2)"
      "sl_insert S T_OFFLINE_QUEUE (u64_le ?i) mv db2 = (Inr (), db3)"
      "get_offline_message_ids S B ?c db3 = (Inr ids, db4)"
      "ser_ids B (ids @ [?i]) = Some iv"
      "sl_insert S T_OFFLINE_INDEX (u128_le ?c) iv db4 = (Inr (), db')"
    using run by (auto simp: add_offline_message_def store_ok offline_queue_key_def Let_def)
  have v0: "view db0 = ?V" by (rule open_ok[OF 1(1)])
  have "r = ?V T_OFFLINE_INDEX (u128_le ?c)" using get_view[OF 1(2)] v0 by simp
  then have sz: "(case r of None \<Rightarrow> 0 | Some v \<Rightarrow> length (case de_ids B v of None \<Rightarrow> [] | Some ids \<Rightarrow> ids))
      = length (index_ids B ?V ?c)" by (simp add: index_ids_def split: option.splits)
  let ?kept = "(if ?full then tl else (\<lambda>x. x)) (index_ids B ?V ?c)"
  have V1: "queues_ok B (view db1) \<and> index_ids B (view db1) = (index_ids B ?V)(?c := ?kept)
    \<and> (\<forall>c' j. j \<in> set (index_ids B (view db1) c') \<longrightarrow> stored B (view db1) j = stored B ?V j)"
  proof (cases ?full)
    case True
    then have "remove_oldest_offline S B ?c db0 = (Inr (), db1)" using 1(3) sz by simp
    from remove_oldest_ok[OF B _ this, unfolded v0, OF ok] True show ?thesis by simp
  next
    case False
    then have "view db1 = ?V" using 1(3) sz v0 by (simp add: sret_ok)
    with False ok show ?thesis by simp
  qed
  have v3: "view db3 = v_put T_OFFLINE_QUEUE (u64_le ?i) mv (view db1)"
    using insert_view[OF 1(6)] open_ok[OF 1(5)] by simp
  have ids: "ids = ?kept" and v4: "view db4 = view db3" using get_ids_ok[OF 1(7)] v3 V1 by simp_all
  have V: "view db' = v_put T_OFFLINE_INDEX (u128_le ?c) iv (v_put T_OFFLINE_QUEUE (u64_le ?i) mv (view db1))"
    using insert_view[OF 1(9)] v4 v3 by simp
  have iv: "de_ids B iv = Some (?kept @ [?i])" using bincode_okD(1)[OF B 1(8)] ids by simp
  have mv: "de_msg B mv = Some msg" by (rule bincode_okD(2)[OF B 1(4)])
  have idx: "index_ids B (view db') c' = (if c' = ?c then ?kept @ [?i] else index_ids B ?V c')" for c'
    using V1 by (simp add: V iv)
  have kept: "set ?kept \<subseteq> set (index_ids B ?V ?c)" by (cases "index_ids B ?V ?c") auto
  have st: "stored B (view db') j = (if j = ?i then Some msg else stored B (view db1) j)" for j
    by (simp add: V mv)
  have old: "j \<noteq> ?i \<and> stored B (view db') j = stored B ?V j"
    if "j \<in> set (index_ids B (view db1) c')" for c' j
  proof -
    have "j \<in> set (index_ids B ?V c')" using that V1 kept by (auto split: if_splits)
    with fresh have "j \<noteq> ?i" by blast
    with st V1 that show ?thesis by auto
  qed
  show "queues_ok B (view db')"
    unfolding queues_ok_def
  proof (intro conjI allI impI ballI)
    show "de_ids B v \<noteq> None" if "view db' T_OFFLINE_INDEX (u128_le c') = Some v" for c' v
      using that V1 iv by (auto simp: V v_at queues_ok_def split: if_splits)
    show "distinct (index_ids B (view db') c')" for c'
      using V1 fresh kept by (auto simp: idx queues_ok_def split: if_splits)
    show "\<exists>m. stored B (view db') j = Some m \<and> om_id m = j \<and> om_client_id m = c'"
      if "j \<in> set (index_ids B (view db') c')" for c' j
    proof (cases "c' = ?c \<and> j = ?i")
      case False
      with that have m: "j \<in> set (index_ids B (view db1) c')" using V1 by (auto simp: idx split: if_splits)
      with V1 obtain m where "stored B (view db1) j = Some m" "om_id m = j" "om_client_id m = c'"
        unfolding queues_ok_def by blast
      with st[of j] old[OF m] show ?thesis by auto
    qed (simp add: st)
  qed
  have "queue_of B (view db') c' = (if c' = ?c then map (\<lambda>j. the (stored B ?V j)) ?kept @ [msg]
      else queue_of B ?V c')" for c'
  proof -
    have "map (\<lambda>j. the (stored B (view db') j)) (index_ids B (view db1) c')
        = map (\<lambda>j. the (stored B ?V j)) (index_ids B (view db1) c')" using old by simp
    with V1 show ?thesis by (auto simp: queue_of_def idx st split: if_splits)
  qed
  then show "queue_of B (view db') = (queue_of B ?V)(?c :=
      (if max_queue_size cfg \<le> length (queue_of B ?V ?c) then tl (queue_of B ?V ?c)
       else queue_of B ?V ?c) @ [msg])"
    by (auto simp: fun_eq_iff queue_of_def map_tl)
qed

lemma read_messages_ok:
  assumes "read_messages S B now ttl ids db = (Inr ms, db')" "\<forall>i \<in> set ids. stored B (view db) i \<noteq> None"
  shows "db' = db \<and> ms = filter (\<lambda>m. \<not> is_expired now ttl m) (map (\<lambda>i. the (stored B (view db) i)) ids)"
  using assms
proof (induction ids arbitrary: ms)
  case (Cons i ids)
  obtain r where r: "sl_get S T_OFFLINE_QUEUE (u64_le i) db = Inr r"
    using Cons.prems(1) by (auto simp: store_ok)
  have rv: "r = view db T_OFFLINE_QUEUE (u64_le i)" by (rule get_view[OF r])
  with Cons.prems(2) obtain v m where v: "r = Some v" "de_msg B v = Some m" "stored B (view db) i = Some m"
    by (auto simp: stored_def bind_eq_Some_conv)
  with r Cons show ?case by (auto simp: store_ok)
qed (simp add: sret_ok)

lemma get_messages_ok:
  assumes "queues_ok B (view db)" "get_offline_messages S B cfg now c db = (Inr ms, db')"
  shows "view db' = view db"
    and "ms = filter (\<lambda>m. \<not> is_expired now (message_ttl cfg) m) (queue_of B (view db) c)"
proof -
  obtain ids db1 db2 where 1: "get_offline_message_ids S B c db = (Inr ids, db1)"
    "sl_open_tree S T_OFFLINE_QUEUE db1 = (Inr (), db2)"
    "read_messages S B now (message_ttl cfg) ids db2 = (Inr ms, db')"
    using assms(2) by (auto simp: get_offline_messages_def store_ok)
  have v: "view db2 = view db" and ids: "ids = index_ids B (view db) c"
    using get_ids_ok[OF 1(1)] open_ok[OF 1(2)] by simp_all
  have "\<forall>i \<in> set ids. stored B (view db2) i \<noteq> None"
    using assms(1) unfolding v ids queues_ok_def by force
  from read_messages_ok[OF 1(3) this] v ids show "view db' = view db"
    "ms = filter (\<lambda>m. \<not> is_expired now (message_ttl cfg) m) (queue_of B (view db) c)"
    by (simp_all add: queue_of_def)
qed

lemma remove_all_view:
  assumes "sfor ids (\<lambda>i. db_do (sl_remove S T_OFFLINE_QUEUE (u64_le i))) db = (Inr (), db')"
  shows "(\<forall>c. index_ids B (view db') c = index_ids B (view db) c)
    \<and> (\<forall>j. stored B (view db') j = (if j \<in> set ids then None else stored B (view db) j))
    \<and> view db' T_OFFLINE_INDEX = view db T_OFFLINE_INDEX"
  using assms
proof (induction ids arbitrary: db)
  case (Cons i ids)
  then obtain db1 where 1: "sl_remove S T_OFFLINE_QUEUE (u64_le i) db = (Inr (), db1)"
      "sfor ids (\<lambda>i. db_do (sl_remove S T_OFFLINE_QUEUE (u64_le i))) db1 = (Inr (), db')"
    by (auto simp: store_ok)
  have "view db1 = v_del T_OFFLINE_QUEUE (u64_le i) (view db)" by (rule remove_view[OF 1(1)])
  with Cons.IH[OF 1(2)] show ?case by simp
qed (simp add: sret_ok)

lemma remove_all_other:
  assumes "sfor ids (\<lambda>i. db_do (sl_remove S T (k i))) db = (Inr (), db')" "t \<noteq> T"
  shows "view db' t = view db t"
  using assms(1)
proof (induction ids arbitrary: db)
  case (Cons i ids)
  then obtain db1 where 1: "sl_remove S T (k i) db = (Inr (), db1)"
      "sfor ids (\<lambda>i. db_do (sl_remove S T (k i))) db1 = (Inr (), db')"
    by (auto simp: store_ok)
  with Cons.IH[OF 1(2)] remove_view[OF 1(1)] assms(2) show ?case by simp
qed (simp add: sret_ok)

lemma clear_messages_other:
  assumes "clear_offline_messages S B c db = (Inr (), db')" "t \<noteq> T_OFFLINE_QUEUE" "t \<noteq> T_OFFLINE_INDEX"
  shows "view db' t = view db t"
proof -
  obtain ids db1 db2 db3 db4 where 1: "get_offline_message_ids S B c db = (Inr ids, db1)"
    "sl_open_tree S T_OFFLINE_QUEUE db1 = (Inr (), db2)" "sl_open_tree S T_OFFLINE_INDEX db2 = (Inr (), db3)"
    "sfor ids (\<lambda>i. db_do (sl_remove S T_OFFLINE_QUEUE (u64_le i))) db3 = (Inr (), db4)"
    "sl_remove S T_OFFLINE_INDEX (u128_le c) db4 = (Inr (), db')"
    using assms(1) by (auto simp: clear_offline_messages_def store_ok offline_queue_key_def)
  have "view db3 = view db"
    using get_ids_ok[OF 1(1)] open_ok[OF 1(2)] open_ok[OF 1(3)] by simp
  with remove_all_other[OF 1(4) assms(2)] remove_view[OF 1(5)] assms(3) show ?thesis by simp
qed

lemma clear_messages_ok:
  assumes ok: "queues_ok B (view db)" and run: "clear_offline_messages S B c db = (Inr (), db')"
  shows "queues_ok B (view db')" "queue_of B (view db') = (queue_of B (view db))(c := [])"
proof -
  let ?ids = "index_ids B (view db) c"
  obtain ids db1 db2 db3 db4 where 1: "get_offline_message_ids S B c db = (Inr ids, db1)"
    "sl_open_tree S T_OFFLINE_QUEUE db1 = (Inr (), db2)" "sl_open_tree S T_OFFLINE_INDEX db2 = (Inr (), db3)"
    "sfor ids (\<lambda>i. db_do (sl_remove S T_OFFLINE_QUEUE (u64_le i))) db3 = (Inr (), db4)"
    "sl_remove S T_OFFLINE_INDEX (u128_le c) db4 = (Inr (), db')"
    using run by (auto simp: clear_offline_messages_def store_ok offline_queue_key_def)
  have v3: "view db3 = view db" and ids: "ids = ?ids"
    using get_ids_ok[OF 1(1)] open_ok[OF 1(2)] open_ok[OF 1(3)] by simp_all
  have r: "index_ids B (view db4) c' = index_ids B (view db) c'"
      "stored B (view db4) j = (if j \<in> set ?ids then None else stored B (view db) j)"
      "view db4 T_OFFLINE_INDEX = view db T_OFFLINE_INDEX" for c' j
    using remove_all_view[OF 1(4), of B] v3 ids by simp_all
  have V: "view db' = v_del T_OFFLINE_INDEX (u128_le c) (view db4)" by (rule remove_view[OF 1(5)])
  have idx: "index_ids B (view db') c' = (if c' = c then [] else index_ids B (view db) c')" for c'
    by (simp add: V r)
  have st: "stored B (view db') j = stored B (view db) j"
    if "j \<in> set (index_ids B (view db) c')" "c' \<noteq> c" for c' j
    using that ids_disjoint[OF ok] by (auto simp: V r)
  show "queues_ok B (view db')"
    unfolding queues_ok_def
  proof (intro conjI allI impI ballI)
    show "de_ids B v \<noteq> None" if "view db' T_OFFLINE_INDEX (u128_le c') = Some v" for c' v
      using that ok by (auto simp: V v_at r queues_ok_def split: if_splits)
    show "distinct (index_ids B (view db') c')" for c' using ok by (simp add: idx queues_ok_def)
    show "\<exists>m. stored B (view db') j = Some m \<and> om_id m = j \<and> om_client_id m = c'"
      if "j \<in> set (index_ids B (view db') c')" for c' j
      using that ok st[of j c'] by (auto simp: idx queues_ok_def split: if_splits)
  qed
  show "queue_of B (view db') = (queue_of B (view db))(c := [])"
    using st by (auto simp: queue_of_def fun_eq_iff idx)
qed


lemma expired_rows_keys:
  assumes "distinct (map (fst \<circ> projr) (filter (Not \<circ> isl) es))"
  shows "distinct (expired_rows B now es)"
    and "k \<in> set (expired_rows B now es) \<longleftrightarrow> (\<exists>v p. Inr (k, v) \<in> set es \<and> de_client B v = Some p
      \<and> pc_ghost_until p < now \<and> length k = 16)"
proof -
  have sub: "set (expired_rows B now es) \<subseteq> set (map (fst \<circ> projr) (filter (Not \<circ> isl) es))" for es
    by (induction es) (auto split: sum.splits option.splits)
  show "distinct (expired_rows B now es)"
    using assms
  proof (induction es)
    case (Cons e es)
    then show ?case using sub[of es] by (auto split: sum.splits option.splits)
  qed simp
  show "k \<in> set (expired_rows B now es) \<longleftrightarrow> (\<exists>v p. Inr (k, v) \<in> set es \<and> de_client B v = Some p
      \<and> pc_ghost_until p < now \<and> length k = 16)"
    by (induction es) (auto split: sum.splits option.splits)
qed

lemma remove_rows_view:
  assumes "sfor ks (\<lambda>k. db_do (sl_remove S T_CLIENTS k)) db = (Inr (), db')"
  shows "(\<forall>t. t \<noteq> T_CLIENTS \<longrightarrow> view db' t = view db t)
    \<and> (\<forall>k. view db' T_CLIENTS k = (if k \<in> set ks then None else view db T_CLIENTS k))"
  using assms
proof (induction ks arbitrary: db)
  case (Cons i ks)
  then obtain db1 where 1: "sl_remove S T_CLIENTS i db = (Inr (), db1)"
      "sfor ks (\<lambda>k. db_do (sl_remove S T_CLIENTS k)) db1 = (Inr (), db')"
    by (auto simp: store_ok)
  have "view db1 = v_del T_CLIENTS i (view db)" by (rule remove_view[OF 1(1)])
  with Cons.IH[OF 1(2)] show ?case by (simp add: v_at)
qed (simp add: sret_ok)

lemma take_expired_ghosts_ok:
  assumes run: "repo_take_expired_ghosts S B now db = (Inr ids, db')"
    and clean: "\<forall>e \<in> set (sl_iter S T_CLIENTS (snd (sl_open_tree S T_CLIENTS db))). \<not> isl e"
    and keys: "\<And>k v. view db T_CLIENTS k = Some v \<Longrightarrow> \<exists>c. k = u128_le c"
  shows "distinct ids"
    and "c \<in> set ids \<longleftrightarrow> (\<exists>v p. view db T_CLIENTS (u128_le c) = Some v \<and> de_client B v = Some p
      \<and> pc_ghost_until p < now)"
    and "view db' T_CLIENTS (u128_le c) = (if c \<in> set ids then None else view db T_CLIENTS (u128_le c))"
    and "t \<noteq> T_CLIENTS \<Longrightarrow> view db' t = view db t"
proof -
  obtain db1 where 1: "sl_open_tree S T_CLIENTS db = (Inr (), db1)"
    "sfor (expired_rows B now (sl_iter S T_CLIENTS db1)) (\<lambda>k. db_do (sl_remove S T_CLIENTS k)) db1
      = (Inr (), db')"
    "ids = map u128_of_le (expired_rows B now (sl_iter S T_CLIENTS db1))"
    using run by (auto simp: repo_take_expired_ghosts_def store_ok Let_def)
  let ?ks = "expired_rows B now (sl_iter S T_CLIENTS db1)"
  have v1: "view db1 = view db" by (rule open_ok[OF 1(1)])
  have rows: "distinct ?ks" "k \<in> set ?ks \<longleftrightarrow> (\<exists>v p. Inr (k, v) \<in> set (sl_iter S T_CLIENTS db1)
      \<and> de_client B v = Some p \<and> pc_ghost_until p < now \<and> length k = 16)" for k
    by (rule expired_rows_keys[OF iter_distinct])+
  have mem: "k \<in> set ?ks \<longleftrightarrow> (\<exists>c v p. k = u128_le c \<and> view db T_CLIENTS k = Some v
      \<and> de_client B v = Some p \<and> pc_ghost_until p < now)" for k
  proof -
    have "Inr (k, v) \<in> set (sl_iter S T_CLIENTS db1) \<longleftrightarrow> view db T_CLIENTS k = Some v" for v
      using iter_sound iter_complete clean 1(1) v1 by (metis snd_conv)
    with rows(2)[of k] show ?thesis using keys[of k] by auto
  qed
  have img: "\<forall>k \<in> set ?ks. u128_le (u128_of_le k) = k" using mem by auto
  have inj: "inj_on u128_of_le (set ?ks)" using img by (metis inj_onI)
  show "distinct ids" using rows(1) inj by (simp add: 1(3) distinct_map)
  have c: "c \<in> set ids \<longleftrightarrow> u128_le c \<in> set ?ks" for c
    using img by (force simp: 1(3))
  show "c \<in> set ids \<longleftrightarrow> (\<exists>v p. view db T_CLIENTS (u128_le c) = Some v \<and> de_client B v = Some p
      \<and> pc_ghost_until p < now)" for c
    unfolding c mem by auto
  show "view db' T_CLIENTS (u128_le c) = (if c \<in> set ids then None else view db T_CLIENTS (u128_le c))" for c
    using remove_rows_view[OF 1(2)] by (simp add: c v1)
  show "t \<noteq> T_CLIENTS \<Longrightarrow> view db' t = view db t" for t
    using remove_rows_view[OF 1(2)] by (simp add: v1)
qed

lemma save_ok:
  assumes "bincode_ok B" "repo_save S B p db = (Inr (), db')"
  shows "\<exists>v. view db' = v_put T_CLIENTS (u128_le (pc_client_id p)) v (view db) \<and> de_client B v = Some p"
proof -
  obtain db1 v where 1: "sl_open_tree S T_CLIENTS db = (Inr (), db1)" "ser_client B p = Some v"
    "sl_insert S T_CLIENTS (u128_le (pc_client_id p)) v db1 = (Inr (), db')"
    using assms(2) by (auto simp: repo_save_def store_ok)
  with insert_view[OF 1(3)] open_ok[OF 1(1)] bincode_okD(3)[OF assms(1) 1(2)] show ?thesis by auto
qed

lemma remove_row_ok:
  assumes "repo_remove S c db = (Inr (), db')"
  shows "view db' = v_del T_CLIENTS (u128_le c) (view db)"
proof -
  obtain db1 where 1: "sl_open_tree S T_CLIENTS db = (Inr (), db1)"
    "sl_remove S T_CLIENTS (u128_le c) db1 = (Inr (), db')"
    using assms by (auto simp: repo_remove_def store_ok)
  with remove_view[OF 1(2)] open_ok[OF 1(1)] show ?thesis by simp
qed

end

interpretation mem: sled_db mem_sled mem_view
proof
  fix t :: string and db :: mem_db and k v
  let ?db = "AList.clearjunk db"
  have g: "dm_get ?db = dm_get db" by (simp add: map_of_clearjunk)
  have d: "dm_ok ?db" by (simp add: dm_ok_def)
  show "Inr (k, v) \<in> set (sl_iter mem_sled t db) \<Longrightarrow> mem_view db t k = Some v"
    using dm_mem_get[OF d, of "(t, k)" v] by (auto simp: mem_sled_def mem_view_def g)
  show "mem_view db t k = Some v \<Longrightarrow> Inr (k, v) \<in> set (sl_iter mem_sled t db)"
    using dm_mem_get[OF d, of "(t, k)" v] by (force simp: mem_sled_def mem_view_def g)
  have "distinct (map fst (filter (\<lambda>((t', _), _). t' = t) ?db))"
    using d by (simp add: dm_ok_def distinct_map_filter)
  then have "distinct (map (snd \<circ> fst) (filter (\<lambda>((t', _), _). t' = t) ?db))"
    by (auto simp: distinct_map inj_on_def)
  moreover have "filter (Not \<circ> isl) (sl_iter mem_sled t db) = sl_iter mem_sled t db"
    by (auto simp: mem_sled_def filter_id_conv)
  moreover have "map (fst \<circ> projr) (sl_iter mem_sled t db)
      = map (snd \<circ> fst) (filter (\<lambda>((t', _), _). t' = t) ?db)"
    by (simp add: mem_sled_def o_def case_prod_unfold)
  ultimately show "distinct (map (fst \<circ> projr) (filter (Not \<circ> isl) (sl_iter mem_sled t db)))" by simp
qed (auto simp: mem_sled_def mem_view_def v_put_def v_del_def fun_eq_iff)

end
