(* ===== verification/Bincode.thy ===== *)
theory Bincode
  imports Persistence
begin

text \<open>
  A concrete serialiser in the format bincode 1.3 documents for its default options: fixed-width
  little-endian integers, and a 64-bit length before every sequence and string. The properties of
  the storage layer hold for any codec with \<open>bincode_ok\<close>; this one shows that there is one.
\<close>

type_synonym 'a dec = "bytes \<Rightarrow> ('a \<times> bytes) option"

definition dec_u64 :: "u64 dec" where
  "dec_u64 bs = (if length bs < 8 then None else Some (u64_of_le bs, drop 8 bs))"

definition dec_u32 :: "u32 dec" where
  "dec_u32 bs = (if length bs < 4 then None else Some (u32_of_le bs, drop 4 bs))"

definition dec_u128 :: "u128 dec" where
  "dec_u128 bs = (if length bs < 16 then None else Some (u128_of_le bs, drop 16 bs))"

definition dec_bind :: "'a dec \<Rightarrow> ('a \<Rightarrow> 'b dec) \<Rightarrow> 'b dec" where
  "dec_bind d f bs = (case d bs of None \<Rightarrow> None | Some (x, rest) \<Rightarrow> f x rest)"

definition dec_ret :: "'a \<Rightarrow> 'a dec" where
  "dec_ret x bs = Some (x, bs)"

fun dec_times :: "nat \<Rightarrow> 'a dec \<Rightarrow> 'a list dec" where
  "dec_times 0 d = dec_ret []"
| "dec_times (Suc n) d = dec_bind d (\<lambda>x. dec_bind (dec_times n d) (\<lambda>xs. dec_ret (x # xs)))"

definition enc_seq :: "('a \<Rightarrow> bytes) \<Rightarrow> 'a list \<Rightarrow> bytes" where
  "enc_seq f xs = u64_le (word_of_nat (length xs)) @ concat (map f xs)"

definition dec_seq :: "'a dec \<Rightarrow> 'a list dec" where
  "dec_seq d = dec_bind dec_u64 (\<lambda>n. dec_times (unat n) d)"

definition dec_u8 :: "u8 dec" where
  "dec_u8 bs = (case bs of [] \<Rightarrow> None | b # rest \<Rightarrow> Some (b, rest))"

definition enc_bytes :: "bytes \<Rightarrow> bytes" where
  "enc_bytes = enc_seq (\<lambda>b. [b])"

definition dec_bytes :: "bytes dec" where
  "dec_bytes = dec_seq dec_u8"

definition enc_string :: "string \<Rightarrow> bytes" where
  "enc_string s = enc_bytes (str_bytes s)"

definition dec_string :: "string dec" where
  "dec_string = dec_bind dec_bytes (\<lambda>b. dec_ret (bytes_str b))"

definition enc_msg :: "offline_message \<Rightarrow> bytes" where
  "enc_msg m = u64_le (om_id m) @ u128_le (om_client_id m) @ enc_string (om_title m)
     @ enc_bytes (om_payload m) @ u64_le (om_timestamp m) @ u32_le (om_retries m)"

definition dec_msg :: "offline_message dec" where
  "dec_msg = dec_bind dec_u64 (\<lambda>i. dec_bind dec_u128 (\<lambda>c. dec_bind dec_string (\<lambda>t.
     dec_bind dec_bytes (\<lambda>p. dec_bind dec_u64 (\<lambda>ts. dec_bind dec_u32 (\<lambda>r. dec_ret
     \<lparr>om_id = i, om_client_id = c, om_title = t, om_payload = p, om_timestamp = ts, om_retries = r\<rparr>))))))"

definition enc_client :: "persisted_client \<Rightarrow> bytes" where
  "enc_client p = u128_le (pc_client_id p) @ enc_seq enc_string (pc_titles p)
     @ u64_le (pc_created_at p) @ u64_le (pc_ghost_until p)"

definition dec_client :: "persisted_client dec" where
  "dec_client = dec_bind dec_u128 (\<lambda>c. dec_bind (dec_seq dec_string) (\<lambda>ts.
     dec_bind dec_u64 (\<lambda>a. dec_bind dec_u64 (\<lambda>g. dec_ret
     \<lparr>pc_client_id = c, pc_titles = ts, pc_created_at = a, pc_ghost_until = g\<rparr>))))"

text \<open>A sequence longer than a 64-bit count does not fit in memory; the codec refuses it.\<close>

definition short :: "'a list \<Rightarrow> bool" where
  "short xs \<longleftrightarrow> length xs < 2 ^ 64"

definition run_dec :: "'a dec \<Rightarrow> bytes \<Rightarrow> 'a option" where
  "run_dec d bs = map_option fst (d bs)"

definition bincode_fixint :: bincode where
  "bincode_fixint =
     \<lparr>ser_ids = (\<lambda>ids. if short ids then Some (enc_seq u64_le ids) else None),
      de_ids = run_dec (dec_seq dec_u64),
      ser_msg = (\<lambda>m. if short (om_title m) \<and> short (om_payload m) then Some (enc_msg m) else None),
      de_msg = run_dec dec_msg,
      ser_client = (\<lambda>p. if short (pc_titles p) \<and> list_all short (pc_titles p)
        then Some (enc_client p) else None),
      de_client = run_dec dec_client\<rparr>"

section \<open>Round trips\<close>

text \<open>A decoder inverts an encoder on a set of values, whatever follows.\<close>

definition inverts :: "'a dec \<Rightarrow> ('a \<Rightarrow> bytes) \<Rightarrow> 'a set \<Rightarrow> bool" where
  "inverts d f A \<longleftrightarrow> (\<forall>x \<in> A. \<forall>rest. d (f x @ rest) = Some (x, rest))"

lemma invertsD: "inverts d f A \<Longrightarrow> x \<in> A \<Longrightarrow> d (f x @ rest) = Some (x, rest)"
  by (simp add: inverts_def)

lemma invertsD': "inverts d f A \<Longrightarrow> x \<in> A \<Longrightarrow> d (f x) = Some (x, [])"
  using invertsD[of d f A x "[]"] by simp

lemma inverts_words:
  "inverts dec_u64 u64_le UNIV" "inverts dec_u32 u32_le UNIV" "inverts dec_u128 u128_le UNIV"
  "inverts dec_u8 (\<lambda>b. [b]) UNIV"
  by (simp_all add: inverts_def dec_u64_def dec_u32_def dec_u128_def dec_u8_def)

lemma dec_times_ok:
  "inverts d f A \<Longrightarrow> set xs \<subseteq> A \<Longrightarrow> dec_times (length xs) d (concat (map f xs) @ rest) = Some (xs, rest)"
  by (induction xs) (simp_all add: dec_bind_def dec_ret_def invertsD)

lemma inverts_seq: "inverts d f A \<Longrightarrow> inverts (dec_seq d) (enc_seq f) {xs. set xs \<subseteq> A \<and> short xs}"
  using dec_times_ok[of d f A] invertsD[OF inverts_words(1)]
  by (simp add: inverts_def dec_seq_def enc_seq_def dec_bind_def short_def unat_word_of_nat_small)

lemma inverts_bytes: "inverts dec_bytes enc_bytes {xs. short xs}"
  using inverts_seq[OF inverts_words(4)] by (simp add: dec_bytes_def enc_bytes_def)

lemma inverts_string: "inverts dec_string enc_string {s. short s}"
  using invertsD[OF inverts_bytes, of "str_bytes s" for s]
  by (simp add: inverts_def dec_string_def enc_string_def dec_bind_def dec_ret_def short_def)

lemmas inverts_simps = invertsD[OF inverts_words(1)] invertsD[OF inverts_words(2)]
  invertsD[OF inverts_words(3)] invertsD[OF inverts_bytes] invertsD[OF inverts_string]
  invertsD'[OF inverts_words(1)] invertsD'[OF inverts_words(2)]

lemma bincode_fixint_ok: "bincode_ok bincode_fixint"
  unfolding bincode_ok_def
proof (intro conjI allI impI)
  fix x b
  show "ser_ids bincode_fixint x = Some b \<Longrightarrow> de_ids bincode_fixint b = Some x"
    using invertsD'[OF inverts_seq[OF inverts_words(1)], of x]
    by (auto simp: bincode_fixint_def run_dec_def split: if_splits)
next
  fix m b
  show "ser_msg bincode_fixint m = Some b \<Longrightarrow> de_msg bincode_fixint b = Some m"
    by (auto simp: bincode_fixint_def run_dec_def dec_msg_def enc_msg_def dec_bind_def dec_ret_def
        inverts_simps split: if_splits)
next
  fix p b
  show "ser_client bincode_fixint p = Some b \<Longrightarrow> de_client bincode_fixint b = Some p"
    using invertsD[OF inverts_seq[OF inverts_string], of "pc_titles p"]
    by (auto simp: bincode_fixint_def run_dec_def dec_client_def enc_client_def dec_bind_def dec_ret_def
        inverts_simps list_all_iff subset_iff split: if_splits)
qed
end
