(* ===== verification/Storage.thy ===== *)
theory Storage
  imports Bincode
begin

text \<open>
  What the storage layer promises, for every database and serialiser that behave as documented:
  bounded first-in first-out queues per client, client rows that expire, and message ids that
  repeat only when the counter or the clock wraps.
\<close>

unbundle bit_operations_syntax

lemma bit_gen_message_id:
  "bit (gen_message_id now c) n \<longleftrightarrow> n < 64 \<and> (if n < 16 then bit c n else bit now (n - 16))"
proof -
  have m: "(0xFFFF :: u64) = mask 16" by (simp add: mask_eq_exp_minus_1)
  have "gen_message_id now c = push_bit 16 now OR take_bit 16 c"
    unfolding gen_message_id_def m take_bit_eq_mask ..
  then show ?thesis by (auto simp: bit_simps)
qed

lemma gen_message_id_eq:
  "gen_message_id n c = gen_message_id n' c' \<longleftrightarrow>
    take_bit 48 n = take_bit 48 n' \<and> take_bit 16 c = take_bit 16 c'"
proof
  assume eq: "gen_message_id n c = gen_message_id n' c'"
  show "take_bit 48 n = take_bit 48 n' \<and> take_bit 16 c = take_bit 16 c'"
  proof
    show "take_bit 48 n = take_bit 48 n'"
    proof (rule bit_word_eqI)
      fix k assume "k < LENGTH(64)"
      have "bit n k = bit n' k" if "k < 48"
        using arg_cong[OF eq, of "\<lambda>x. bit x (k + 16)"] that by (simp add: bit_gen_message_id)
      then show "bit (take_bit 48 n) k = bit (take_bit 48 n') k" by (auto simp: bit_take_bit_iff)
    qed
    show "take_bit 16 c = take_bit 16 c'"
    proof (rule bit_word_eqI)
      fix k assume "k < LENGTH(64)"
      have "bit c k = bit c' k" if "k < 16"
        using arg_cong[OF eq, of "\<lambda>x. bit x k"] that by (simp add: bit_gen_message_id)
      then show "bit (take_bit 16 c) k = bit (take_bit 16 c') k" by (auto simp: bit_take_bit_iff)
    qed
  qed
next
  assume r: "take_bit 48 n = take_bit 48 n' \<and> take_bit 16 c = take_bit 16 c'"
  have "bit c k = bit c' k" if "k < 16" for k
    using r that by (metis bit_take_bit_iff)
  moreover have "bit n k = bit n' k" if "k < 48" for k
    using r that by (metis bit_take_bit_iff)
  ultimately show "gen_message_id n c = gen_message_id n' c'"
    by (intro bit_word_eqI) (auto simp: bit_gen_message_id)
qed

section \<open>Properties\<close>

text \<open>
  C6: Over any database and serialiser that behave as documented, the offline queues are bounded
  first-in first-out queues per client: a successful add appends a message with an unused id and
  drops the oldest one when the queue is full, a successful read returns the unexpired messages in
  order and changes nothing, a successful clear empties the queue; no operation touches the queue
  of another client, and the two trees stay consistent.
\<close>

theorem offline_queue_refines:
  assumes "sled_db S view" "bincode_ok B" "queues_ok B (view db)"
  shows "(\<forall>msg db'. (\<forall>c. om_id msg \<notin> set (index_ids B (view db) c)) \<longrightarrow>
       add_offline_message S B cfg msg db = (Inr (), db') \<longrightarrow>
       queues_ok B (view db') \<and> queue_of B (view db') = (queue_of B (view db))(om_client_id msg :=
         (if max_queue_size cfg \<le> length (queue_of B (view db) (om_client_id msg))
          then tl (queue_of B (view db) (om_client_id msg))
          else queue_of B (view db) (om_client_id msg)) @ [msg]))
   \<and> (\<forall>now c ms db'. get_offline_messages S B cfg now c db = (Inr ms, db') \<longrightarrow> view db' = view db
       \<and> ms = filter (\<lambda>m. \<not> is_expired now (message_ttl cfg) m) (queue_of B (view db) c))
   \<and> (\<forall>c db'. clear_offline_messages S B c db = (Inr (), db') \<longrightarrow>
       queues_ok B (view db') \<and> queue_of B (view db') = (queue_of B (view db))(c := []))"
  using sled_db.add_message_ok[OF assms(1-3)] sled_db.get_messages_ok[OF assms(1,3)]
    sled_db.clear_messages_ok[OF assms(1,3)] by blast

theorem offline_queue_refines_witness:
  "let m = offline_message_new 100 1 7 ''t'' [1]; B = bincode_fixint; db = [];
       db' = snd (add_offline_message mem_sled B offline_queue_config_default m db) in
   queues_ok B (mem_view db') \<and> queue_of B (mem_view db') 7 = [m]"
proof -
  define m where "m = offline_message_new 100 1 7 ''t'' [1]"
  let ?B = bincode_fixint
  have ok: "queues_ok ?B (mem_view [])"
    by (simp add: queues_ok_def index_ids_def mem_view_def)
  have fresh: "\<forall>c. om_id m \<notin> set (index_ids ?B (mem_view []) c)"
    by (simp add: index_ids_def mem_view_def)
  have "\<exists>db'. add_offline_message mem_sled ?B offline_queue_config_default m [] = (Inr (), db')"
    by (simp add: add_offline_message_def sbind_def db_do_def db_read_def mem_sled_def codec_def slift_def
        sret_def Let_def offline_queue_config_default_def get_offline_message_ids_def bincode_fixint_def
        short_def m_def offline_message_new_def offline_queue_key_def)
  then obtain db' where run: "add_offline_message mem_sled ?B offline_queue_config_default m [] = (Inr (), db')"
    by blast
  have q: "queues_ok ?B (mem_view db') \<and> queue_of ?B (mem_view db') = (queue_of ?B (mem_view []))
      (om_client_id m := (if max_queue_size offline_queue_config_default
          \<le> length (queue_of ?B (mem_view []) (om_client_id m))
        then tl (queue_of ?B (mem_view []) (om_client_id m))
        else queue_of ?B (mem_view []) (om_client_id m)) @ [m])"
    using offline_queue_refines[OF mem.sled_db_axioms bincode_fixint_ok ok, of offline_queue_config_default]
      fresh run by blast
  have "om_client_id m = 7" by (simp add: m_def offline_message_new_def)
  moreover have "queue_of ?B (mem_view []) 7 = []"
    by (simp add: queue_of_def index_ids_def mem_view_def)
  ultimately have "queue_of ?B (mem_view db') 7 = [m]" using q by simp
  with q run show ?thesis unfolding m_def[symmetric] Let_def by simp
qed

text \<open>
  A successful sweep of the client rows returns, once each, exactly the clients whose ghost
  deadline is strictly past, removes exactly their rows and touches no other tree; a row that cannot
  be decoded is neither returned nor removed.
\<close>

theorem expired_ghosts_exact:
  assumes "sled_db S view" "repo_take_expired_ghosts S B now db = (Inr ids, db')"
    and "\<forall>e \<in> set (sl_iter S T_CLIENTS (snd (sl_open_tree S T_CLIENTS db))). \<not> isl e"
    and "\<forall>k v. view db T_CLIENTS k = Some v \<longrightarrow> (\<exists>c. k = u128_le c)"
  shows "distinct ids
    \<and> (\<forall>c. c \<in> set ids \<longleftrightarrow> (\<exists>v p. view db T_CLIENTS (u128_le c) = Some v \<and> de_client B v = Some p
          \<and> pc_ghost_until p < now))
    \<and> (\<forall>c. view db' T_CLIENTS (u128_le c)
          = (if c \<in> set ids then None else view db T_CLIENTS (u128_le c)))
    \<and> (\<forall>t. t \<noteq> T_CLIENTS \<longrightarrow> view db' t = view db t)"
  using sled_db.take_expired_ghosts_ok[OF assms(1-3)] assms(4) by auto

theorem expired_ghosts_exact_witness:
  "let p = \<lparr>pc_client_id = 7, pc_titles = [''t''], pc_created_at = 1, pc_ghost_until = 5\<rparr>;
       db = snd (repo_save mem_sled bincode_fixint p []);
       (r, db') = repo_take_expired_ghosts mem_sled bincode_fixint 6 db in
   r = Inr [7] \<and> mem_view db' T_CLIENTS (u128_le 7) = None"
proof -
  define p where "p = \<lparr>pc_client_id = 7, pc_titles = [''t''], pc_created_at = 1, pc_ghost_until = 5\<rparr>"
  have ser: "ser_client bincode_fixint p = Some (enc_client p)"
    by (simp add: bincode_fixint_def p_def short_def)
  then have de: "de_client bincode_fixint (enc_client p) = Some p"
    by (rule bincode_okD(3)[OF bincode_fixint_ok])
  let ?db = "[((T_CLIENTS, u128_le 7), enc_client p)]"
  have db: "snd (repo_save mem_sled bincode_fixint p []) = ?db"
    by (simp add: repo_save_def sbind_def db_do_def mem_sled_def codec_def slift_def ser) (simp add: p_def)
  have run: "repo_take_expired_ghosts mem_sled bincode_fixint 6 ?db = (Inr [7], [])"
    by (simp add: repo_take_expired_ghosts_def sbind_def db_do_def mem_sled_def sget_def sret_def de Let_def)
       (simp add: p_def sbind_def db_do_def sret_def)
  have "\<forall>e \<in> set (sl_iter mem_sled T_CLIENTS (snd (sl_open_tree mem_sled T_CLIENTS ?db))). \<not> isl e"
    "\<forall>k v. mem_view ?db T_CLIENTS k = Some v \<longrightarrow> (\<exists>c. k = u128_le c)"
    by (auto simp: mem_sled_def mem_view_def split: if_splits)
  from expired_ghosts_exact[OF mem.sled_db_axioms run this] run db show ?thesis
    unfolding p_def[symmetric] by (simp add: Let_def)
qed

text \<open>
  Two offline messages get the same id exactly when their clock readings agree in the lower 48
  bits and the process counter in the lower 16: within one second the first 65536 ids differ, and
  the next one repeats the first.
\<close>

theorem message_ids_repeat:
  "(gen_message_id now c = gen_message_id now' c' \<longleftrightarrow>
      take_bit 48 now = take_bit 48 now' \<and> take_bit 16 c = take_bit 16 c')
   \<and> gen_message_id now (c + 65536) = gen_message_id now c"
proof -
  have "unat (take_bit 16 (c + 65536)) = (unat c + 65536) mod 2 ^ 64 mod 2 ^ 16"
    by (simp add: unsigned_take_bit_eq take_bit_eq_mod unat_word_ariths)
  also have "\<dots> = (unat c + 65536) mod 2 ^ 16" by (rule mod_mod_cancel) (simp add: le_imp_power_dvd)
  also have "\<dots> = unat c mod 2 ^ 16" using mod_add_self2[of "unat c" "2 ^ 16"] by simp
  also have "\<dots> = unat (take_bit 16 c)" unfolding unsigned_take_bit_eq by (simp add: take_bit_eq_mod)
  finally have "take_bit 16 (c + 65536) = take_bit 16 c" by (simp add: word_unat_eq_iff)
  then show ?thesis by (simp add: gen_message_id_eq)
qed

end
