(* ===== verification/Services.thy ===== *)
theory Services
  imports Registry AckTracker Storage Cluster
begin

text \<open>
  The server's state and the operations every handler is written in: the bundle \<^verbatim>\<open>Services\<close>
  (\<^verbatim>\<open>crates/rex-server/src/system/services.rs\<close>), the two persistence ports with their sled-backed and
  no-op adapters (\<^verbatim>\<open>offline.rs\<close>, \<^verbatim>\<open>client_state_store.rs\<close>), the cluster port (\<^verbatim>\<open>cluster_port.rs\<close> and
  its two implementations) and the title router (\<^verbatim>\<open>router.rs\<close>).

  The state is one record, threaded through the operations. What the operations ask of the world
  around them is in the record \<open>env\<close>: the third-party crates, and the outcomes of sends, connects
  and random choices, indexed by the position \<open>w_tick\<close> of the state so that every question may have
  a different answer. The clock \<open>w_now\<close> does not advance inside an operation. Metrics are not
  modelled.
\<close>

section \<open>Configuration\<close>

record system_config =
  sc_server_id :: string
  sc_check_interval :: u64
  sc_client_timeout :: u64
  sc_persistence_enabled :: bool
  sc_persistence_path :: string
  sc_offline_enabled :: bool
  sc_offline_ttl :: u64
  sc_ack_enabled :: bool
  sc_ack_timeout :: u64
  sc_ack_retries :: u32
  sc_ghost_ttl_secs :: u64

definition default_check_interval :: u64 where "default_check_interval = 15"

definition default_client_timeout :: u64 where "default_client_timeout = 45"

definition default_persistence_enabled :: bool where "default_persistence_enabled = True"

definition default_persistence_path :: string where "default_persistence_path = ''./.rex_sled''"

definition default_offline_enabled :: bool where "default_offline_enabled = True"

definition default_offline_ttl :: u64 where "default_offline_ttl = 86400 * 7"

definition default_ack_enabled :: bool where "default_ack_enabled = False"

definition default_ack_timeout :: u64 where "default_ack_timeout = 5000"

definition default_ack_retries :: u32 where "default_ack_retries = 3"

definition default_ghost_ttl_secs :: u64 where "default_ghost_ttl_secs = 86400"

definition default_server_id :: string where "default_server_id = ''rex''"

definition config_from_id :: "string \<Rightarrow> system_config" where
  "config_from_id server_id = \<lparr>sc_server_id = server_id, sc_check_interval = default_check_interval,
     sc_client_timeout = default_client_timeout, sc_persistence_enabled = default_persistence_enabled,
     sc_persistence_path = default_persistence_path, sc_offline_enabled = default_offline_enabled,
     sc_offline_ttl = default_offline_ttl, sc_ack_enabled = default_ack_enabled,
     sc_ack_timeout = default_ack_timeout, sc_ack_retries = default_ack_retries,
     sc_ghost_ttl_secs = default_ghost_ttl_secs\<rparr>"

section \<open>The state\<close>

text \<open>\<open>ServerClusterManager\<close>; whether the services reference is set is a flag.\<close>

record cluster_manager =
  scm_node_manager :: "node_manager option"
  scm_route_table :: route_table
  scm_local_node_id :: node_id
  scm_local_addr :: socket_addr
  scm_enabled :: bool
  scm_has_tx :: bool
  scm_has_services :: bool

datatype cluster_port = NoopClusterPort | ManagerPort cluster_manager

datatype backend = NoopStore | SledStore

datatype store_error = StoreFailed persistence_error | StoreClosed

type_synonym token = nat

record 'db world =
  w_registry :: registry
  w_acks :: ack_tracker
  w_db :: 'db
  w_offline :: backend
  w_offline_error :: "store_error option"
  w_state_store :: backend
  w_repo_open :: bool
  w_state_error :: "store_error option"
  w_cluster :: cluster_port
  w_manager :: "cluster_manager option"
  w_fw_node_manager :: "node_manager option"
  w_fw_route_table :: "route_table option"
  w_fw_local :: node_id
  w_config :: system_config
  w_client_shutdowns :: "(u128, token) dmap"
  w_cancelled :: "token list"
  w_next_token :: token
  w_shutdown :: bool
  w_now :: u64
  w_tick :: nat
  w_sent :: "(sender_ref \<times> bytes) list"
  w_closed :: "sender_ref list"
  w_round_robin :: u64
  w_msg_counter :: u64

record 'db env =
  e_sled :: "'db sled"
  e_bincode :: bincode
  e_codec :: cluster_codec
  e_hash :: "string \<Rightarrow> u64"
  e_choose :: "nat \<Rightarrow> cref list \<Rightarrow> cref option"
  e_random :: "nat \<Rightarrow> u64"
  e_send :: "nat \<Rightarrow> sender_ref \<Rightarrow> bytes \<Rightarrow> bool"
  e_connect :: "nat \<Rightarrow> socket_addr \<Rightarrow> bool"

abbreviation w_heap :: "'db world \<Rightarrow> cref \<Rightarrow> client" where
  "w_heap w \<equiv> heap (w_registry w)"

definition next_tick :: "('db world, nat) srv" where
  "next_tick = srun (\<lambda>w. (w_tick w, w\<lparr>w_tick := w_tick w + 1\<rparr>))"

definition on_registry :: "(registry \<Rightarrow> 'a \<times> registry) \<Rightarrow> ('db world, 'a) srv" where
  "on_registry f = srun (\<lambda>w. case f (w_registry w) of (x, r) \<Rightarrow> (x, w\<lparr>w_registry := r\<rparr>))"

definition upd_registry :: "(registry \<Rightarrow> registry) \<Rightarrow> ('db world, unit) srv" where
  "upd_registry f = smod (\<lambda>w. w\<lparr>w_registry := f (w_registry w)\<rparr>)"

text \<open>\<open>RexClientInner::send_buf\<close>: on success the bytes are out and the activity stamp is renewed.\<close>

definition send_buf :: "'db env \<Rightarrow> cref \<Rightarrow> bytes \<Rightarrow> ('db world, bool) srv" where
  "send_buf E c buf = srun (\<lambda>w.
     let s = cl_sender (w_heap w c); w1 = w\<lparr>w_tick := w_tick w + 1\<rparr> in
     if e_send E (w_tick w) s buf
     then (True, w1\<lparr>w_sent := w_sent w @ [(s, buf)],
                    w_registry := upd_client c (update_last_recv (w_now w)) (w_registry w)\<rparr>)
     else (False, w1))"

text \<open>\<open>RexClientInner::close\<close>; its result is only logged.\<close>

definition client_close :: "cref \<Rightarrow> ('db world, unit) srv" where
  "client_close c = smod (\<lambda>w. w\<lparr>w_closed := w_closed w @ [cl_sender (w_heap w c)]\<rparr>)"

section \<open>The persistence ports\<close>

text \<open>An operation of the store, with the outcome recorded as the adapter's last error.\<close>

definition on_db :: "(persistence_error, 'db, 'a) sm \<Rightarrow> ('db world, persistence_error + 'a) srv" where
  "on_db m = srun (\<lambda>w. case m (w_db w) of (r, db) \<Rightarrow> (r, w\<lparr>w_db := db\<rparr>))"

definition note_offline :: "persistence_error + 'a \<Rightarrow> 'a \<Rightarrow> ('db world, 'a) srv" where
  "note_offline r dflt = (case r of
     Inr x \<Rightarrow> sbind (smod (\<lambda>w. w\<lparr>w_offline_error := None\<rparr>)) (\<lambda>_. sret x)
   | Inl e \<Rightarrow> sbind (smod (\<lambda>w. w\<lparr>w_offline_error := Some (StoreFailed e)\<rparr>)) (\<lambda>_. sret dflt))"

definition offline_config :: offline_queue_config where
  "offline_config = offline_queue_config_default"

definition buffer_queue :: "'db env \<Rightarrow> u128 \<Rightarrow> string \<Rightarrow> bytes \<Rightarrow> ('db world, unit) srv" where
  "buffer_queue E target title payload =
     sbind (sget w_offline) (\<lambda>b. case b of
       NoopStore \<Rightarrow> sret ()
     | SledStore \<Rightarrow>
         sbind (srun (\<lambda>w. (offline_message_new (w_now w) (w_msg_counter w) target title payload,
             w\<lparr>w_msg_counter := w_msg_counter w + 1\<rparr>))) (\<lambda>msg.
         sbind (on_db (add_offline_message (e_sled E) (e_bincode E) offline_config msg)) (\<lambda>r.
         note_offline r ())))"

definition buffer_get :: "'db env \<Rightarrow> u128 \<Rightarrow> ('db world, offline_message list) srv" where
  "buffer_get E client_id =
     sbind (sget w_offline) (\<lambda>b. case b of
       NoopStore \<Rightarrow> sret []
     | SledStore \<Rightarrow>
         sbind (sget w_now) (\<lambda>now.
         sbind (on_db (get_offline_messages (e_sled E) (e_bincode E) offline_config now client_id)) (\<lambda>r.
         note_offline r [])))"

definition buffer_clear :: "'db env \<Rightarrow> u128 \<Rightarrow> ('db world, unit) srv" where
  "buffer_clear E client_id =
     sbind (sget w_offline) (\<lambda>b. case b of
       NoopStore \<Rightarrow> sret ()
     | SledStore \<Rightarrow>
         sbind (on_db (clear_offline_messages (e_sled E) (e_bincode E) client_id)) (\<lambda>r. note_offline r ()))"

definition buffer_count :: "'db env \<Rightarrow> u128 \<Rightarrow> ('db world, nat) srv" where
  "buffer_count E client_id =
     sbind (sget w_offline) (\<lambda>b. case b of
       NoopStore \<Rightarrow> sret 0
     | SledStore \<Rightarrow>
         sbind (on_db (get_offline_count (e_sled E) (e_bincode E) client_id)) (\<lambda>r. note_offline r 0))"

text \<open>\<open>close\<close> records an error and never clears one.\<close>

definition buffer_close :: "'db env \<Rightarrow> ('db world, unit) srv" where
  "buffer_close E =
     sbind (sget w_offline) (\<lambda>b. case b of
       NoopStore \<Rightarrow> sret ()
     | SledStore \<Rightarrow>
         sbind (on_db (store_close (e_sled E))) (\<lambda>r. case r of
           Inr _ \<Rightarrow> sret ()
         | Inl e \<Rightarrow> smod (\<lambda>w. w\<lparr>w_offline_error := Some (StoreFailed e)\<rparr>)))"

definition buffer_last_error :: "'db world \<Rightarrow> store_error option" where
  "buffer_last_error w = (case w_offline w of NoopStore \<Rightarrow> None | SledStore \<Rightarrow> w_offline_error w)"

record restored_client =
  rc_client_id :: u128
  rc_titles :: "string list"
  rc_created_at :: u64
  rc_ghost_until :: u64

definition restored_from :: "persisted_client \<Rightarrow> restored_client" where
  "restored_from p = \<lparr>rc_client_id = pc_client_id p, rc_titles = pc_titles p,
     rc_created_at = pc_created_at p, rc_ghost_until = pc_ghost_until p\<rparr>"

text \<open>Every operation of the sled-backed state store: closed, failed, or done.\<close>

definition note_state :: "(persistence_error + 'a) option \<Rightarrow> 'a \<Rightarrow> ('db world, 'a) srv" where
  "note_state r dflt = (case r of
     Some (Inr x) \<Rightarrow> sbind (smod (\<lambda>w. w\<lparr>w_state_error := None\<rparr>)) (\<lambda>_. sret x)
   | Some (Inl e) \<Rightarrow> sbind (smod (\<lambda>w. w\<lparr>w_state_error := Some (StoreFailed e)\<rparr>)) (\<lambda>_. sret dflt)
   | None \<Rightarrow> sbind (smod (\<lambda>w. w\<lparr>w_state_error := Some StoreClosed\<rparr>)) (\<lambda>_. sret dflt))"

definition on_repo :: "(persistence_error, 'db, 'a) sm \<Rightarrow> ('db world, (persistence_error + 'a) option) srv" where
  "on_repo m = sbind (sget w_repo_open) (\<lambda>op.
     if op then sbind (on_db m) (\<lambda>r. sret (Some r)) else sret None)"

definition state_save :: "'db env \<Rightarrow> u128 \<Rightarrow> string list \<Rightarrow> u64 \<Rightarrow> u64 \<Rightarrow> ('db world, unit) srv" where
  "state_save E client_id titles created_at ghost_until =
     sbind (sget w_state_store) (\<lambda>b. case b of
       NoopStore \<Rightarrow> sret ()
     | SledStore \<Rightarrow>
         sbind (on_repo (repo_save (e_sled E) (e_bincode E)
           \<lparr>pc_client_id = client_id, pc_titles = titles, pc_created_at = created_at,
            pc_ghost_until = ghost_until\<rparr>)) (\<lambda>r. note_state r ()))"

definition state_remove :: "'db env \<Rightarrow> u128 \<Rightarrow> ('db world, unit) srv" where
  "state_remove E client_id =
     sbind (sget w_state_store) (\<lambda>b. case b of
       NoopStore \<Rightarrow> sret ()
     | SledStore \<Rightarrow> sbind (on_repo (repo_remove (e_sled E) client_id)) (\<lambda>r. note_state r ()))"

definition state_load_all :: "'db env \<Rightarrow> ('db world, restored_client list) srv" where
  "state_load_all E =
     sbind (sget w_state_store) (\<lambda>b. case b of
       NoopStore \<Rightarrow> sret []
     | SledStore \<Rightarrow>
         sbind (on_repo (repo_load_all (e_sled E) (e_bincode E))) (\<lambda>r.
         sbind (note_state r []) (\<lambda>v. sret (map restored_from v))))"

definition state_take_expired_ghosts :: "'db env \<Rightarrow> u64 \<Rightarrow> ('db world, u128 list) srv" where
  "state_take_expired_ghosts E now =
     sbind (sget w_state_store) (\<lambda>b. case b of
       NoopStore \<Rightarrow> sret []
     | SledStore \<Rightarrow>
         sbind (on_repo (repo_take_expired_ghosts (e_sled E) (e_bincode E) now)) (\<lambda>r. note_state r []))"

definition state_flush :: "'db env \<Rightarrow> ('db world, unit) srv" where
  "state_flush E = smod (\<lambda>w. case w_state_store w of
       NoopStore \<Rightarrow> w
     | SledStore \<Rightarrow> if w_repo_open w then w\<lparr>w_db := repo_flush (e_sled E) (w_db w)\<rparr> else w)"

definition state_close :: "'db env \<Rightarrow> ('db world, unit) srv" where
  "state_close E = sbind (state_flush E) (\<lambda>_. smod (\<lambda>w. case w_state_store w of
       NoopStore \<Rightarrow> w | SledStore \<Rightarrow> w\<lparr>w_repo_open := False\<rparr>))"

definition state_last_error :: "'db world \<Rightarrow> store_error option" where
  "state_last_error w = (case w_state_store w of NoopStore \<Rightarrow> None | SledStore \<Rightarrow> w_state_error w)"

section \<open>The cluster port and the router\<close>

definition scm_register_client :: "u128 \<Rightarrow> cluster_manager \<Rightarrow> cluster_manager" where
  "scm_register_client client_id m =
     m\<lparr>scm_route_table := rt_register_client client_id (scm_local_node_id m) (scm_route_table m)\<rparr>"

definition scm_unregister_client :: "u128 \<Rightarrow> cluster_manager \<Rightarrow> cluster_manager" where
  "scm_unregister_client client_id m =
     m\<lparr>scm_route_table := rt_unregister_client client_id (scm_route_table m)\<rparr>"

definition scm_get_node_for_client :: "u128 \<Rightarrow> cluster_manager \<Rightarrow> node_id option" where
  "scm_get_node_for_client client_id m = get_node_by_client (scm_route_table m) client_id"

definition scm_is_client_local :: "u128 \<Rightarrow> cluster_manager \<Rightarrow> bool" where
  "scm_is_client_local client_id m = is_client_local (scm_route_table m) client_id"

definition scm_get_node_for_title :: "'db env \<Rightarrow> string \<Rightarrow> cluster_manager \<Rightarrow> node_id option" where
  "scm_get_node_for_title E title m = get_node_by_title (e_hash E) (scm_route_table m) title"

definition scm_get_nodes :: "cluster_manager \<Rightarrow> node_id list" where
  "scm_get_nodes m = get_all_nodes (scm_route_table m)"

definition port_register_client :: "u128 \<Rightarrow> ('db world, unit) srv" where
  "port_register_client client_id = smod (\<lambda>w. case w_cluster w of
       NoopClusterPort \<Rightarrow> w
     | ManagerPort m \<Rightarrow> w\<lparr>w_cluster := ManagerPort (scm_register_client client_id m)\<rparr>)"

definition port_unregister_client :: "u128 \<Rightarrow> ('db world, unit) srv" where
  "port_unregister_client client_id = smod (\<lambda>w. case w_cluster w of
       NoopClusterPort \<Rightarrow> w
     | ManagerPort m \<Rightarrow> w\<lparr>w_cluster := ManagerPort (scm_unregister_client client_id m)\<rparr>)"

definition port_find_node_for_title :: "'db env \<Rightarrow> string \<Rightarrow> 'db world \<Rightarrow> node_id option" where
  "port_find_node_for_title E title w = (case w_cluster w of
       NoopClusterPort \<Rightarrow> Some ''local'' | ManagerPort m \<Rightarrow> scm_get_node_for_title E title m)"

definition port_get_local_node_id :: "'db world \<Rightarrow> node_id option" where
  "port_get_local_node_id w = (case w_cluster w of
       NoopClusterPort \<Rightarrow> Some ''local'' | ManagerPort m \<Rightarrow> Some (scm_local_node_id m))"

definition port_get_nodes :: "'db world \<Rightarrow> node_id list" where
  "port_get_nodes w = (case w_cluster w of
       NoopClusterPort \<Rightarrow> [''local''] | ManagerPort m \<Rightarrow> scm_get_nodes m)"

datatype route_plan = RouteLocal cref | RouteRemote node_id | RouteNone

text \<open>\<open>find_one_by_title\<close> with the random choice of this moment.\<close>

definition choose_one :: "'db env \<Rightarrow> string \<Rightarrow> u128 option \<Rightarrow> ('db world, cref option) srv" where
  "choose_one E title exclude = sbind next_tick (\<lambda>k.
     sget (\<lambda>w. find_one_by_title (e_choose E k) title exclude (w_registry w)))"

definition route :: "'db env \<Rightarrow> string \<Rightarrow> u128 option \<Rightarrow> ('db world, route_plan) srv" where
  "route E title exclude = sbind (choose_one E title exclude) (\<lambda>c. case c of
       Some client \<Rightarrow> sret (RouteLocal client)
     | None \<Rightarrow> sget (\<lambda>w. case port_find_node_for_title E title w of
           Some node \<Rightarrow> RouteRemote node | None \<Rightarrow> RouteNone))"

section \<open>Services\<close>

definition register_client_shutdown :: "u128 \<Rightarrow> ('db world, token) srv" where
  "register_client_shutdown cid = srun (\<lambda>w. (w_next_token w,
     w\<lparr>w_next_token := w_next_token w + 1,
       w_client_shutdowns := dm_insert cid (w_next_token w) (w_client_shutdowns w)\<rparr>))"

definition unregister_client_shutdown :: "u128 \<Rightarrow> ('db world, unit) srv" where
  "unregister_client_shutdown cid =
     smod (\<lambda>w. w\<lparr>w_client_shutdowns := dm_remove cid (w_client_shutdowns w)\<rparr>)"

definition cancel_client :: "u128 \<Rightarrow> ('db world, bool) srv" where
  "cancel_client cid = srun (\<lambda>w. case dm_get (w_client_shutdowns w) cid of
       Some t \<Rightarrow> (True, w\<lparr>w_cancelled := t # w_cancelled w\<rparr>)
     | None \<Rightarrow> (False, w))"

definition svc_add_client :: "'db env \<Rightarrow> cref \<Rightarrow> ('db world, unit) srv" where
  "svc_add_client E client =
     sbind (sget (\<lambda>w. id_of (w_registry w) client)) (\<lambda>cid.
     sbind (on_registry (claim_ghost cid)) (\<lambda>_.
     sbind (upd_registry (add_client client)) (\<lambda>_.
     sbind (port_register_client cid) (\<lambda>_.
     sbind (sget (\<lambda>w. (w_now w, titles_of (w_registry w) client, sc_ghost_ttl_secs (w_config w))))
       (\<lambda>(now, titles, ttl). state_save E cid titles now (sat_add now ttl))))))"

definition svc_remove_client :: "'db env \<Rightarrow> u128 \<Rightarrow> ('db world, cref option) srv" where
  "svc_remove_client E client_id =
     sbind (on_registry (remove_client client_id)) (\<lambda>r. case r of
       None \<Rightarrow> sret None
     | Some client \<Rightarrow>
         sbind (port_unregister_client client_id) (\<lambda>_.
         sbind (client_close client) (\<lambda>_.
         sbind (state_remove E client_id) (\<lambda>_. sret (Some client)))))"

definition register_pending_ack :: "u64 \<Rightarrow> u128 \<Rightarrow> string \<Rightarrow> bool \<Rightarrow> ('db world, unit) srv" where
  "register_pending_ack message_id source title is_group = smod (\<lambda>w.
     if \<not> sc_ack_enabled (w_config w) then w
     else w\<lparr>w_acks := ack_register (w_now w) message_id source title is_group (w_acks w)\<rparr>)"

definition take_pending_ack :: "u64 \<Rightarrow> ('db world, pending_ack_info option) srv" where
  "take_pending_ack message_id =
     srun (\<lambda>w. case ack_take message_id (w_acks w) of (info, a) \<Rightarrow> (info, w\<lparr>w_acks := a\<rparr>))"

definition take_expired_acks :: "u64 \<Rightarrow> ('db world, (u64 \<times> u128) list) srv" where
  "take_expired_acks now =
     srun (\<lambda>w. case take_expired now (w_acks w) of (xs, a) \<Rightarrow> (xs, w\<lparr>w_acks := a\<rparr>))"

definition get_pending_ack :: "u64 \<Rightarrow> ('db world, pending_ack_info option) srv" where
  "get_pending_ack message_id = sget (\<lambda>w. ack_get message_id (w_acks w))"

definition queue_offline_message :: "'db env \<Rightarrow> u128 \<Rightarrow> string \<Rightarrow> bytes \<Rightarrow> ('db world, unit) srv" where
  "queue_offline_message E target title payload = buffer_queue E target title payload"

definition svc_get_offline_messages :: "'db env \<Rightarrow> u128 \<Rightarrow> ('db world, offline_message list) srv" where
  "svc_get_offline_messages E client_id = buffer_get E client_id"

definition svc_clear_offline_messages :: "'db env \<Rightarrow> u128 \<Rightarrow> ('db world, unit) srv" where
  "svc_clear_offline_messages E client_id = buffer_clear E client_id"

definition setup_message_ack :: "'db env \<Rightarrow> u128 \<Rightarrow> string \<Rightarrow> bool \<Rightarrow> rex_data \<Rightarrow> ('db world, rex_data) srv" where
  "setup_message_ack E client_id title is_group d =
     sbind (sget (\<lambda>w. sc_ack_enabled (w_config w))) (\<lambda>en.
     if \<not> en then sret d
     else sbind (slift (rd_message_id d)) (\<lambda>m.
       sbind (if m \<noteq> 0 then sret m else sbind next_tick (\<lambda>k. sret (e_random E k))) (\<lambda>msg_id.
       sbind (slift (rd_set_message_id msg_id d)) (\<lambda>d'.
       sbind (register_pending_ack msg_id client_id title is_group) (\<lambda>_. sret d')))))"

definition send_ack :: "'db env \<Rightarrow> cref \<Rightarrow> u64 \<Rightarrow> ret_code \<Rightarrow> rex_command \<Rightarrow> u128 \<Rightarrow> ('db world, bool) srv" where
  "send_ack E sender message_id rc command source =
     sbind (slift (rd_set_retcode rc (ack_to_rex_data (ack_new message_id) source command))) (\<lambda>d.
     send_buf E sender (content d))"

end
