(* ===== verification/Forwarder.thy ===== *)
theory Forwarder
  imports Services
begin

text \<open>
  Cross-node delivery: \<^verbatim>\<open>NetworkForwarder\<close> (\<^verbatim>\<open>crates/rex-server/src/system/forwarder\<close>) and the
  cluster manager of the server (\<^verbatim>\<open>crates/rex-server/src/cluster\<close>). The forwarder reaches the cluster
  through two slots, \<open>w_fw_node_manager\<close> and \<open>w_fw_route_table\<close>, which are empty until somebody
  fills them. The connects \<open>handle_messages\<close> spawns are carried out at once.
\<close>

datatype forward_type = FwdUnicast | FwdGroup | FwdBroadcast

record forward_request =
  fr_source_client_id :: u128
  fr_target_client_id :: u128
  fr_title :: string
  fr_payload :: bytes
  fr_msg_type :: forward_type

datatype fwd_result = Delivered | NoPeerForTitle | PeerUnreachable string

record delivery_outcome =
  do_delivered_to :: nat
  do_failed :: nat
  do_acked_back :: bool

section \<open>The slots\<close>

definition set_node_manager :: "node_manager option \<Rightarrow> 'db world \<Rightarrow> 'db world" where
  "set_node_manager nm w = w\<lparr>w_fw_node_manager := nm\<rparr>"

definition set_route_table :: "route_table option \<Rightarrow> 'db world \<Rightarrow> 'db world" where
  "set_route_table rt w = w\<lparr>w_fw_route_table := rt\<rparr>"

definition is_cluster_started :: "'db world \<Rightarrow> bool" where
  "is_cluster_started w \<longleftrightarrow> w_fw_node_manager w \<noteq> None"

text \<open>An operation on the transport of the node manager in the slot.\<close>

definition on_transport :: "'a \<Rightarrow> (transport \<Rightarrow> 'a \<times> transport) \<Rightarrow> ('db world, 'a) srv" where
  "on_transport dflt f = srun (\<lambda>w. case w_fw_node_manager w of
       None \<Rightarrow> (dflt, w)
     | Some nm \<Rightarrow> (case f (nm_transport nm) of (x, t) \<Rightarrow>
         (x, w\<lparr>w_fw_node_manager := Some (nm\<lparr>nm_transport := t\<rparr>)\<rparr>)))"

definition fw_send_to :: "'db env \<Rightarrow> node_id \<Rightarrow> cluster_message \<Rightarrow> ('db world, bool) srv" where
  "fw_send_to E n m = on_transport False (\<lambda>t. case send_to (e_codec E) n m t of (r, t') \<Rightarrow> (\<not> isl r, t'))"

definition fw_connected :: "'db world \<Rightarrow> node_id list" where
  "fw_connected w = (case w_fw_node_manager w of None \<Rightarrow> [] | Some nm \<Rightarrow> connected_nodes (nm_transport nm))"

section \<open>Outbound\<close>

definition try_reconnect_and_send ::
    "'db env \<Rightarrow> node_id \<Rightarrow> socket_addr \<Rightarrow> cluster_message \<Rightarrow> ('db world, bool) srv" where
  "try_reconnect_and_send E n addr m =
     sbind (on_transport () (\<lambda>t. ((), remove_connection n t))) (\<lambda>_.
     sbind next_tick (\<lambda>k.
     sbind (on_transport False (transport_connect (e_connect E k addr) n)) (\<lambda>ok.
     if ok then fw_send_to E n m else sret False)))"

definition try_send :: "'db env \<Rightarrow> node_id \<Rightarrow> socket_addr \<Rightarrow> forward_request \<Rightarrow> ('db world, bool) srv" where
  "try_send E n addr req =
     sbind (sget (\<lambda>w. n \<in> set (fw_connected w))) (\<lambda>conn.
     if \<not> conn then sret False
     else sbind next_tick (\<lambda>k.
       let m = Forward \<lparr>fm_forward_id = e_random E k, fm_original_source = fr_source_client_id req,
           fm_target_client_id = fr_target_client_id req, fm_title = fr_title req,
           fm_payload = fr_payload req, fm_is_group = (fr_msg_type req = FwdGroup),
           fm_is_broadcast = (fr_msg_type req = FwdBroadcast), fm_require_ack = False\<rparr> in
       sbind (fw_send_to E n m) (\<lambda>ok.
       if ok then sret True else try_reconnect_and_send E n addr m)))"

text \<open>The walk of \<open>fallback_excluding\<close> over the peers that were connected when it began.\<close>

fun fallback_walk :: "'db env \<Rightarrow> forward_request \<Rightarrow> node_id option \<Rightarrow> route_table \<Rightarrow> node_id list
    \<Rightarrow> ('db world, bool) srv" where
  "fallback_walk E req exclude rt [] = sret False"
| "fallback_walk E req exclude rt (other # ns) =
     sbind (sget w_fw_local) (\<lambda>local_id.
     if other = local_id \<or> Some other = exclude then fallback_walk E req exclude rt ns
     else case get_node_addr rt other of
         None \<Rightarrow> fallback_walk E req exclude rt ns
       | Some addr_str \<Rightarrow> (case addr_parse addr_str of
             None \<Rightarrow> fallback_walk E req exclude rt ns
           | Some addr \<Rightarrow> sbind (try_send E other addr req) (\<lambda>ok.
               if ok then sret True else fallback_walk E req exclude rt ns)))"

definition fallback_excluding :: "'db env \<Rightarrow> forward_request \<Rightarrow> node_id option \<Rightarrow> ('db world, fwd_result) srv" where
  "fallback_excluding E req exclude =
     sbind (sget (\<lambda>w. (w_fw_node_manager w, w_fw_route_table w))) (\<lambda>(nm, rt).
     case (nm, rt) of
       (Some _, Some table) \<Rightarrow>
         sbind (sget fw_connected) (\<lambda>nodes.
         sbind (fallback_walk E req exclude table nodes) (\<lambda>ok.
         sret (if ok then Delivered
           else case exclude of Some node \<Rightarrow> PeerUnreachable node | None \<Rightarrow> NoPeerForTitle)))
     | _ \<Rightarrow> sret NoPeerForTitle)"

definition forward :: "'db env \<Rightarrow> node_id \<Rightarrow> forward_request \<Rightarrow> ('db world, fwd_result) srv" where
  "forward E target_node req =
     sbind (sget (\<lambda>w. (w_fw_node_manager w, w_fw_route_table w))) (\<lambda>(nm, rt).
     case (nm, rt) of
       (Some _, Some table) \<Rightarrow> (case get_node_addr table target_node of
           None \<Rightarrow> fallback_excluding E req None
         | Some addr_str \<Rightarrow> (case addr_parse addr_str of
               None \<Rightarrow> fallback_excluding E req (Some target_node)
             | Some addr \<Rightarrow> sbind (try_send E target_node addr req) (\<lambda>ok.
                 if ok then sret Delivered else fallback_excluding E req (Some target_node))))
     | _ \<Rightarrow> sret (PeerUnreachable ''cluster-not-started''))"

fun broadcast_to :: "'db env \<Rightarrow> cluster_message \<Rightarrow> node_id list \<Rightarrow> ('db world, nat) srv" where
  "broadcast_to E m [] = sret 0"
| "broadcast_to E m (n # ns) =
     sbind (sget w_fw_local) (\<lambda>local_id.
     if n = local_id then broadcast_to E m ns
     else sbind (fw_send_to E n m) (\<lambda>ok.
       sbind (broadcast_to E m ns) (\<lambda>count. sret (if ok then count + 1 else count))))"

definition fw_broadcast :: "'db env \<Rightarrow> cluster_message \<Rightarrow> ('db world, nat) srv" where
  "fw_broadcast E m = sbind (sget fw_connected) (broadcast_to E m)"

definition announce_ack :: "'db env \<Rightarrow> forward_ack_message \<Rightarrow> ('db world, unit) srv" where
  "announce_ack E ack = sbind (sget fw_connected) (\<lambda>ns.
     sbind (broadcast_to E (ForwardAck ack) ns) (\<lambda>_. sret ()))"

section \<open>Inbound\<close>

text \<open>One send to a local subscriber, counted.\<close>

definition deliver_one :: "'db env \<Rightarrow> bytes \<Rightarrow> delivery_outcome \<Rightarrow> cref \<Rightarrow> ('db world, delivery_outcome) srv" where
  "deliver_one E buf out c = sbind (send_buf E c buf) (\<lambda>ok.
     sret (if ok then out\<lparr>do_delivered_to := do_delivered_to out + 1\<rparr>
           else out\<lparr>do_failed := do_failed out + 1\<rparr>))"

fun deliver_all :: "'db env \<Rightarrow> bytes \<Rightarrow> delivery_outcome \<Rightarrow> cref list \<Rightarrow> ('db world, delivery_outcome) srv" where
  "deliver_all E buf out [] = sret out"
| "deliver_all E buf out (c # cs) = sbind (deliver_one E buf out c) (\<lambda>out'. deliver_all E buf out' cs)"

definition deliver :: "'db env \<Rightarrow> forward_message \<Rightarrow> ('db world, delivery_outcome) srv" where
  "deliver E msg =
     (let buf = content (rd_unpack (fm_payload msg));
          outcome = \<lparr>do_delivered_to = 0, do_failed = 0, do_acked_back = fm_require_ack msg\<rparr> in
      if fm_is_broadcast msg \<or> fm_is_group msg then
        sbind (sget (\<lambda>w. find_all_by_title (fm_title msg) None (w_registry w))) (\<lambda>clients.
        if clients = [] then sret outcome else deliver_all E buf outcome clients)
      else sbind (if fm_target_client_id msg \<noteq> 0
            then sget (\<lambda>w. find_some_by_id (fm_target_client_id msg) (w_registry w))
            else choose_one E (fm_title msg) None) (\<lambda>target.
        case target of Some client \<Rightarrow> deliver_one E buf outcome client | None \<Rightarrow> sret outcome))"

section \<open>The cluster manager\<close>

definition scm_new :: "node_id \<Rightarrow> bool \<Rightarrow> cluster_manager" where
  "scm_new node_id enabled = \<lparr>scm_node_manager = None, scm_route_table = with_local_node node_id,
     scm_local_node_id = node_id, scm_local_addr = ([0, 0, 0, 0], 0), scm_enabled = enabled,
     scm_has_tx = False, scm_has_services = False\<rparr>"

definition set_services :: "cluster_manager \<Rightarrow> cluster_manager" where
  "set_services m = m\<lparr>scm_has_services := True\<rparr>"

text \<open>\<open>start\<close>: \<open>NodeManager::start\<close> reports no error on any path, so the slot is always filled.\<close>

definition scm_start :: "'db env \<Rightarrow> (socket_addr \<Rightarrow> bool) \<Rightarrow> cluster_config \<Rightarrow> cluster_manager \<Rightarrow> cluster_manager" where
  "scm_start E reach cfg m =
     (if \<not> scm_enabled m then m
      else let m1 = m\<lparr>scm_local_addr := cc_listen_addr cfg,
             scm_route_table := rt_add_node (e_hash E) (scm_local_node_id m) (addr_show (cc_listen_addr cfg))
               (scm_route_table m)\<rparr>;
           cfg1 = cfg\<lparr>cc_enabled := True, cc_node_id := scm_local_node_id m\<rparr> in
        m1\<lparr>scm_node_manager := Some (nm_start (e_codec E) reach (nm_new cfg1)), scm_has_tx := True\<rparr>)"

definition send_to_node :: "'db env \<Rightarrow> node_id \<Rightarrow> cluster_message \<Rightarrow> cluster_manager \<Rightarrow> bool \<times> cluster_manager" where
  "send_to_node E target msg m =
     (case scm_node_manager m of
        None \<Rightarrow> (False, m)
      | Some nm \<Rightarrow>
          if \<not> is_connected target (nm_transport nm) then (False, m)
          else case send_to (e_codec E) target msg (nm_transport nm) of (r, t) \<Rightarrow>
            (\<not> isl r, m\<lparr>scm_node_manager := Some (nm\<lparr>nm_transport := t\<rparr>)\<rparr>))"

definition learn_node :: "'db env \<Rightarrow> (socket_addr \<Rightarrow> bool) \<Rightarrow> node_info \<Rightarrow> cluster_manager \<Rightarrow> cluster_manager" where
  "learn_node E reach ni m =
     (if ni_node_id ni = scm_local_node_id m then m
      else let m1 = m\<lparr>scm_route_table := rt_add_node (e_hash E) (ni_node_id ni)
               (addr_show (ni_listen_addr ni)) (scm_route_table m)\<rparr> in
        case scm_node_manager m1 of
          None \<Rightarrow> m1
        | Some nm \<Rightarrow>
            if is_connected (ni_node_id ni) (nm_transport nm) then m1
            else m1\<lparr>scm_node_manager := Some (nm\<lparr>nm_transport :=
              snd (transport_connect (reach (ni_listen_addr ni)) (ni_node_id ni) (nm_transport nm))\<rparr>)\<rparr>)"

definition handle_cluster_join :: "'db env \<Rightarrow> node_info \<Rightarrow> cluster_manager \<Rightarrow> cluster_manager" where
  "handle_cluster_join E ni m =
     (if ni_node_id ni = scm_local_node_id m then m
      else snd (send_to_node E (ni_node_id ni) (NodeList [node_info_new (scm_local_node_id m) (scm_local_addr m)])
        (m\<lparr>scm_route_table := rt_add_node (e_hash E) (ni_node_id ni)
             (addr_show (ni_listen_addr ni)) (scm_route_table m)\<rparr>)))"

definition ack_for :: "node_id \<Rightarrow> forward_message \<Rightarrow> delivery_outcome \<Rightarrow> forward_ack_message" where
  "ack_for node_id fwd out =
     (let success = (0 < do_delivered_to out \<and> do_failed out = 0) in
      \<lparr>fa_forward_id = fm_forward_id fwd, fa_from_node_id = node_id,
       fa_original_source = fm_original_source fwd, fa_success = success,
       fa_error = (if success then None
         else if 0 < do_failed out
         then Some (''Failed to deliver to '' @ decimal (do_failed out) @ '' local subscriber(s)'')
         else Some ''No local subscriber'')\<rparr>)"

text \<open>One turn of \<open>handle_messages\<close>; the manager is the one in \<open>w_manager\<close>.\<close>

definition handle_cluster_message :: "'db env \<Rightarrow> (socket_addr \<Rightarrow> bool) \<Rightarrow> cluster_message \<Rightarrow> ('db world, unit) srv" where
  "handle_cluster_message E reach msg =
     sbind (sget w_manager) (\<lambda>mg. case mg of
       None \<Rightarrow> sret ()
     | Some m \<Rightarrow> (case msg of
           Join ni \<Rightarrow> smod (\<lambda>w. w\<lparr>w_manager := Some (handle_cluster_join E ni m)\<rparr>)
         | NodeList nodes \<Rightarrow> smod (\<lambda>w. w\<lparr>w_manager := Some (fold (learn_node E reach) nodes m)\<rparr>)
         | Forward fwd \<Rightarrow>
             if \<not> scm_has_services m then sret ()
             else sbind (deliver E fwd) (\<lambda>out.
               if fm_require_ack fwd \<and> do_acked_back out
               then announce_ack E (ack_for (scm_local_node_id m) fwd out) else sret ())
         | _ \<Rightarrow> sret ()))"

text \<open>\<open>start_cluster_manager\<close> of \<^verbatim>\<open>lib.rs\<close>.\<close>

definition start_cluster_manager :: "'db env \<Rightarrow> (socket_addr \<Rightarrow> bool) \<Rightarrow> node_id option \<Rightarrow> socket_addr
    \<Rightarrow> socket_addr list \<Rightarrow> ('db world, unit) srv" where
  "start_cluster_manager E reach node_id cluster_addr seeds =
     (let n = (case node_id of None \<Rightarrow> ''rex-node'' | Some i \<Rightarrow> i);
          cfg = \<lparr>cc_enabled = True, cc_node_id = n, cc_listen_addr = cluster_addr, cc_seed_nodes = seeds,
            cc_communication_timeout_ms = 1000, cc_heartbeat_interval_ms = 1000, cc_max_retries = 3\<rparr> in
      smod (\<lambda>w. w\<lparr>w_manager := Some (set_services (scm_start E reach cfg (scm_new n True)))\<rparr>))"

end
