(* ===== verification/Handlers.thy ===== *)
theory Handlers
  imports Forwarder
begin

text \<open>
  The command handlers (\<^verbatim>\<open>crates/rex-server/src/handler\<close>), the loop that feeds them
  (\<^verbatim>\<open>transport/base.rs\<close>, \<^verbatim>\<open>transport/driver.rs\<close>) and the connection's life around it
  (\<^verbatim>\<open>transport/tcp.rs\<close>). A handler gets the connection's client object and a frame; it stops with a
  fault where the code would panic or read out of bounds, and otherwise returns \<open>Ok\<close> (\<open>Inr\<close>) or an
  error (\<open>Inl\<close>). The concurrent sends of the cast handler are made in list order.
\<close>

type_synonym outcome = "string + unit"

abbreviation ok :: outcome where "ok \<equiv> Inr ()"

text \<open>\<open>send_buf(rex_data.set_command(c).pack_ref())\<close>, with and without \<open>set_retcode(NoTarget)\<close>.\<close>

definition reply :: "'db env \<Rightarrow> cref \<Rightarrow> rex_command \<Rightarrow> rex_data \<Rightarrow> ('db world, bool) srv" where
  "reply E c cmd d = sbind (slift (rd_set_command cmd d)) (\<lambda>d'. send_buf E c (content d'))"

definition reply_no_target :: "'db env \<Rightarrow> cref \<Rightarrow> rex_command \<Rightarrow> rex_data \<Rightarrow> ('db world, bool) srv" where
  "reply_no_target E c cmd d =
     sbind (slift (rbind (rd_set_command cmd d) (rd_set_retcode NoTarget))) (\<lambda>d'. send_buf E c (content d'))"

section \<open>Check, login\<close>

definition handle_check :: "'db env \<Rightarrow> cref \<Rightarrow> rex_data \<Rightarrow> ('db world, outcome) srv" where
  "handle_check E source_client d =
     sbind (slift (rd_source d)) (\<lambda>_.
     sbind (reply E source_client CheckReturn d) (\<lambda>_. sret ok))"

text \<open>One queued message on its way to the client that logs in; a failed send is only logged.\<close>

definition drain_one :: "'db env \<Rightarrow> cref \<Rightarrow> u128 \<Rightarrow> offline_message \<Rightarrow> ('db world, unit) srv" where
  "drain_one E source_client client_id m =
     sbind (slift (rbind (rd_set_source client_id (rd_new Title (om_title m) (om_payload m)))
       (rd_set_message_id (om_id m)))) (\<lambda>d.
     sbind (send_buf E source_client (content d)) (\<lambda>_. sret ()))"

definition handle_login :: "'db env \<Rightarrow> cref \<Rightarrow> rex_data \<Rightarrow> ('db world, outcome) srv" where
  "handle_login E source_client d =
     sbind (slift (rd_source d)) (\<lambda>client_id.
     sbind (slift (rd_title d)) (\<lambda>title.
     sbind (sget (\<lambda>w. find_some_by_id client_id (w_registry w))) (\<lambda>r. case r of
       Some client \<Rightarrow>
         sbind (upd_registry (\<lambda>g. upd_client client (set_sender (cl_sender (heap g source_client))) g)) (\<lambda>_.
         sbind (upd_registry (upd_client client (insert_title title))) (\<lambda>_.
         sbind (reply E client LoginReturn d) (\<lambda>_. sret ok)))
     | None \<Rightarrow>
         sbind (upd_registry (upd_client source_client (set_id client_id))) (\<lambda>_.
         sbind (upd_registry (upd_client source_client (insert_title title))) (\<lambda>_.
         sbind (svc_add_client E source_client) (\<lambda>_.
         sbind (svc_get_offline_messages E client_id) (\<lambda>queued.
         sbind (if queued = [] then sret ()
                else sbind (sfor queued (drain_one E source_client client_id)) (\<lambda>_.
                  svc_clear_offline_messages E client_id)) (\<lambda>_.
         sbind (reply E source_client LoginReturn d) (\<lambda>_. sret ok)))))))))"

section \<open>Title subscriptions\<close>

datatype mutation = MRegister | MUnregister

fun mutation_from_command :: "rex_command \<Rightarrow> mutation option" where
  "mutation_from_command RegTitle = Some MRegister"
| "mutation_from_command DelTitle = Some MUnregister"
| "mutation_from_command _ = None"

fun return_command :: "mutation \<Rightarrow> rex_command" where
  "return_command MRegister = RegTitleReturn"
| "return_command MUnregister = DelTitleReturn"

definition handle_session :: "'db env \<Rightarrow> cref \<Rightarrow> rex_data \<Rightarrow> ('db world, outcome) srv" where
  "handle_session E source_client d =
     sbind (slift (rd_source d)) (\<lambda>client_id.
     sbind (slift (rd_title d)) (\<lambda>title.
     sbind (slift (rd_command d)) (\<lambda>cmd.
     case mutation_from_command cmd of
       None \<Rightarrow> sret (Inl ''SessionMutator invoked with non-mutator command'')
     | Some mutation \<Rightarrow>
         sbind (sget (\<lambda>w. find_some_by_id client_id (w_registry w))) (\<lambda>r. case r of
           Some client \<Rightarrow>
             sbind (upd_registry (case mutation of
                 MRegister \<Rightarrow> register_title client_id title
               | MUnregister \<Rightarrow> unregister_title client_id title)) (\<lambda>_.
             sbind (sget port_get_local_node_id) (\<lambda>l.
             let local_id = (case l of None \<Rightarrow> [] | Some n \<Rightarrow> n);
                 msg = (case mutation of
                   MRegister \<Rightarrow> TitleRegister \<lparr>tr_node_id = local_id, tr_title = title, tr_client_id = client_id\<rparr>
                 | MUnregister \<Rightarrow> TitleUnregister \<lparr>tu_node_id = local_id, tu_title = title\<rparr>) in
             sbind (fw_broadcast E msg) (\<lambda>_.
             sbind (reply E client (return_command mutation) d) (\<lambda>_. sret ok))))
         | None \<Rightarrow>
             sbind (reply_no_target E source_client (return_command mutation) d) (\<lambda>_. sret ok)))))"

section \<open>Messages to titles\<close>

text \<open>\<open>deliver_message\<close> of \<^verbatim>\<open>title.rs\<close>; it may stamp a message id into the frame.\<close>

definition deliver_message :: "'db env \<Rightarrow> cref \<Rightarrow> rex_data \<Rightarrow> cref \<Rightarrow> ('db world, bool \<times> rex_data) srv" where
  "deliver_message E source_client d target =
     sbind (sget (\<lambda>w. id_of (w_registry w) source_client)) (\<lambda>client_id.
     sbind (slift (rd_title d)) (\<lambda>title.
     sbind (setup_message_ack E client_id title False d) (\<lambda>d'.
     sbind (send_buf E target (content d')) (\<lambda>sent. sret (sent, d')))))"

definition handle_title :: "'db env \<Rightarrow> cref \<Rightarrow> rex_data \<Rightarrow> ('db world, outcome) srv" where
  "handle_title E source_client d =
     sbind (slift (rd_title d)) (\<lambda>title.
     sbind (slift (rd_data d)) (\<lambda>_.
     sbind (slift (rd_source d)) (\<lambda>client_id.
     sbind (route E title (Some client_id)) (\<lambda>plan.
     sbind (case plan of
         RouteLocal target \<Rightarrow> deliver_message E source_client d target
       | RouteRemote node \<Rightarrow>
           sbind (forward E node \<lparr>fr_source_client_id = client_id, fr_target_client_id = 0,
             fr_title = title, fr_payload = content d, fr_msg_type = FwdUnicast\<rparr>) (\<lambda>res.
           sret (res = Delivered, d))
       | RouteNone \<Rightarrow> sret (False, d)) (\<lambda>(success, d').
     if success then sret ok
     else sbind (reply_no_target E source_client TitleReturn d') (\<lambda>_. sret ok))))))"

fun send_all :: "'db env \<Rightarrow> bytes \<Rightarrow> cref list \<Rightarrow> ('db world, (u128 \<times> bool) list) srv" where
  "send_all E buf [] = sret []"
| "send_all E buf (c # cs) =
     sbind (sget (\<lambda>w. id_of (w_registry w) c)) (\<lambda>i.
     sbind (send_buf E c buf) (\<lambda>sent.
     sbind (send_all E buf cs) (\<lambda>rs. sret ((i, sent) # rs))))"

definition handle_cast :: "'db env \<Rightarrow> cref \<Rightarrow> rex_data \<Rightarrow> ('db world, outcome) srv" where
  "handle_cast E source_client d =
     sbind (slift (rd_title d)) (\<lambda>title.
     sbind (slift (rd_source d)) (\<lambda>client_id.
     sbind (sget (\<lambda>w. find_all_by_title title (Some client_id) (w_registry w))) (\<lambda>matching.
     if matching = [] then sbind (reply_no_target E source_client CastReturn d) (\<lambda>_. sret ok)
     else sbind (setup_message_ack E client_id title False d) (\<lambda>d'.
       sbind (send_all E (content d') matching) (\<lambda>results.
       sbind (sfor (map fst (filter (\<lambda>(_, sent). \<not> sent) results)) (\<lambda>i.
         sbind (svc_remove_client E i) (\<lambda>_. sret ()))) (\<lambda>_.
       if list_all (\<lambda>(_, sent). \<not> sent) results
       then sbind (reply_no_target E source_client CastReturn d') (\<lambda>_. sret ok)
       else sret ok))))))"

definition handle_group :: "'db env \<Rightarrow> cref \<Rightarrow> rex_data \<Rightarrow> ('db world, outcome) srv" where
  "handle_group E source_client d =
     sbind (slift (rd_title d)) (\<lambda>title.
     sbind (slift (rd_source d)) (\<lambda>client_id.
     sbind (sget (\<lambda>w. find_all_by_title title (Some client_id) (w_registry w))) (\<lambda>matching.
     if matching = [] then sbind (reply_no_target E source_client GroupReturn d) (\<lambda>_. sret ok)
     else sbind (setup_message_ack E client_id title True d) (\<lambda>d'.
       sbind (srun (\<lambda>w. (w_round_robin w, w\<lparr>w_round_robin := w_round_robin w + 1\<rparr>))) (\<lambda>turn.
       sbind (slift (checked_rem (unat turn) (length matching))) (\<lambda>index.
       sbind (slift (checked_nth matching index)) (\<lambda>target_client.
       sbind (send_buf E target_client (content d')) (\<lambda>sent.
       sbind (sget (\<lambda>w. sc_ack_enabled (w_config w))) (\<lambda>en.
       if \<not> sent \<and> \<not> en then sbind (reply_no_target E source_client GroupReturn d') (\<lambda>_. sret ok)
       else sret ok)))))))))"

definition handle_ack :: "'db env \<Rightarrow> cref \<Rightarrow> rex_data \<Rightarrow> ('db world, outcome) srv" where
  "handle_ack E source_client d =
     sbind (sget (\<lambda>w. sc_ack_enabled (w_config w))) (\<lambda>en.
     if \<not> en then sret ok
     else sbind (slift (ack_from_rex_data d)) (\<lambda>a.
       sbind (take_pending_ack (a_message_id a)) (\<lambda>p. case p of
         None \<Rightarrow> sret ok
       | Some info \<Rightarrow>
           sbind (sget (\<lambda>w. find_some_by_id (pa_source_client_id info) (w_registry w))) (\<lambda>s. case s of
             None \<Rightarrow> sret ok
           | Some sender \<Rightarrow>
               sbind (send_buf E sender (content (ack_to_rex_data (ack_new (a_message_id a))
                 (pa_source_client_id info) AckReturn))) (\<lambda>_. sret ok)))))"

section \<open>Dispatch\<close>

definition dispatch :: "'db env \<Rightarrow> cref \<Rightarrow> rex_data \<Rightarrow> rex_command \<Rightarrow> ('db world, outcome) srv" where
  "dispatch E client d cmd = (case cmd of
       Title \<Rightarrow> handle_title E client d
     | Group \<Rightarrow> handle_group E client d
     | Cast \<Rightarrow> handle_cast E client d
     | Login \<Rightarrow> handle_login E client d
     | Check \<Rightarrow> handle_check E client d
     | RegTitle \<Rightarrow> handle_session E client d
     | DelTitle \<Rightarrow> handle_session E client d
     | Ack \<Rightarrow> handle_ack E client d
     | _ \<Rightarrow> sret ok)"

definition handle :: "'db env \<Rightarrow> cref \<Rightarrow> rex_data \<Rightarrow> ('db world, outcome) srv" where
  "handle E client d = sbind (slift (rd_command d)) (dispatch E client d)"

section \<open>The connection\<close>

text \<open>
  The parse loop of \<open>parse_and_handle_buffer\<close>. \<open>dbg\<close> says whether debug assertions are compiled in.
  The fuel bounds the iterations; \<open>None\<close> is running out of it. An error of \<open>try_deserialize\<close> cannot
  occur: it returns \<open>Ok\<close> or panics.
\<close>

definition touch_peer :: "cref \<Rightarrow> ('db world, unit) srv" where
  "touch_peer peer = smod (\<lambda>w. w\<lparr>w_registry := upd_client peer (update_last_recv (w_now w)) (w_registry w)\<rparr>)"

fun parse_loop :: "nat \<Rightarrow> 'db env \<Rightarrow> bool \<Rightarrow> cref \<Rightarrow> bytes \<Rightarrow> ('db world, bytes option) srv" where
  "parse_loop 0 E dbg peer buffer = sret None"
| "parse_loop (Suc n) E dbg peer buffer =
     sbind (slift (try_deserialize dbg buffer)) (\<lambda>(r, rest). case r of
       None \<Rightarrow> sret (Some rest)
     | Some d \<Rightarrow>
         sbind (handle E peer d) (\<lambda>_.
         sbind (touch_peer peer) (\<lambda>_. parse_loop n E dbg peer rest)))"

definition parse_and_handle_buffer ::
    "'db env \<Rightarrow> bool \<Rightarrow> cref \<Rightarrow> nat \<Rightarrow> bytes \<Rightarrow> ('db world, bytes option) srv" where
  "parse_and_handle_buffer E dbg peer max_buffer_size buffer =
     sbind (parse_loop (Suc (length buffer)) E dbg peer buffer) (\<lambda>r. sret (map_option (\<lambda>rest.
       if max_buffer_size < length rest then [] else rest) r))"

text \<open>\<open>ConnectionDriver\<close>: what the \<open>select!\<close> sees, until the first event that ends the loop.\<close>

datatype drive_event = DataIn bytes | StreamEnd | ReadError | ServerShutdown | ClientCancel

definition driver_new :: "cref \<Rightarrow> ('db world, token) srv" where
  "driver_new peer = sbind (sget (\<lambda>w. id_of (w_registry w) peer)) register_client_shutdown"

fun drive_loop :: "'db env \<Rightarrow> bool \<Rightarrow> cref \<Rightarrow> nat \<Rightarrow> drive_event list \<Rightarrow> bytes \<Rightarrow> ('db world, bytes option) srv" where
  "drive_loop E dbg peer max_buffer_size [] buffer = sret (Some buffer)"
| "drive_loop E dbg peer max_buffer_size (DataIn bs # es) buffer =
     sbind (parse_and_handle_buffer E dbg peer max_buffer_size (buffer @ bs)) (\<lambda>r. case r of
       None \<Rightarrow> sret None
     | Some buffer' \<Rightarrow> drive_loop E dbg peer max_buffer_size es buffer')"
| "drive_loop E dbg peer max_buffer_size (_ # es) buffer = sret (Some buffer)"

definition drive :: "'db env \<Rightarrow> bool \<Rightarrow> cref \<Rightarrow> nat \<Rightarrow> drive_event list \<Rightarrow> ('db world, unit) srv" where
  "drive E dbg peer max_buffer_size es =
     sbind (drive_loop E dbg peer max_buffer_size es []) (\<lambda>_.
     sbind (sget (\<lambda>w. id_of (w_registry w) peer)) unregister_client_shutdown)"

text \<open>
  \<open>handle_connection\<close> of the TCP server: a fresh client object with a random id, the driver until the
  connection ends, and the removal of whatever id the object has by then.
\<close>

definition accept :: "cref \<Rightarrow> u128 \<Rightarrow> socket_addr \<Rightarrow> sender_ref \<Rightarrow> ('db world, unit) srv" where
  "accept c uuid addr sender = smod (\<lambda>w. w\<lparr>w_registry := upd_client c (\<lambda>_.
     set_transport_label ''tcp'' (client_new (w_now w) uuid addr [] sender)) (w_registry w)\<rparr>)"

definition handle_connection :: "'db env \<Rightarrow> bool \<Rightarrow> cref \<Rightarrow> u128 \<Rightarrow> socket_addr \<Rightarrow> sender_ref \<Rightarrow> nat
    \<Rightarrow> drive_event list \<Rightarrow> ('db world, unit) srv" where
  "handle_connection E dbg c uuid addr sender max_buffer_size es =
     sbind (accept c uuid addr sender) (\<lambda>_.
     sbind (driver_new c) (\<lambda>_.
     sbind (drive E dbg c max_buffer_size es) (\<lambda>_.
     sbind (sget (\<lambda>w. id_of (w_registry w) c)) (\<lambda>i.
     sbind (svc_remove_client E i) (\<lambda>_. sret ())))))"

section \<open>The janitor\<close>

definition cleanup_expired_ghosts :: "'db env \<Rightarrow> u64 \<Rightarrow> ('db world, unit) srv" where
  "cleanup_expired_ghosts E now =
     sbind (state_take_expired_ghosts E now) (\<lambda>expired.
     sfor expired (\<lambda>client_id.
       sbind (on_registry (remove_ghost client_id)) (\<lambda>_.
       sbind (port_unregister_client client_id) (\<lambda>_. buffer_clear E client_id))))"

definition cleanup_inactive_clients :: "u64 \<Rightarrow> ('db world, unit) srv" where
  "cleanup_inactive_clients client_timeout =
     sbind (sget (\<lambda>w. take_inactive (w_now w) client_timeout (w_registry w))) (\<lambda>stale_ids.
     sfor stale_ids (\<lambda>client_id.
       sbind (on_registry (remove_client client_id)) (\<lambda>r. case r of
         None \<Rightarrow> sret () | Some client \<Rightarrow> client_close client)))"

definition cleanup_expired_acks :: "'db env \<Rightarrow> ('db world, unit) srv" where
  "cleanup_expired_acks E =
     sbind (sget (\<lambda>w. sc_ack_enabled (w_config w))) (\<lambda>en.
     if \<not> en then sret ()
     else sbind (sget w_now) (\<lambda>now.
       sbind (take_expired_acks now) (\<lambda>expired.
       sfor expired (\<lambda>(msg_id, source_client_id).
         sbind (sget (\<lambda>w. find_some_by_id source_client_id (w_registry w))) (\<lambda>s. case s of
           None \<Rightarrow> sret ()
         | Some sender \<Rightarrow>
             sbind (slift (rd_set_retcode AckTimeout
               (ack_to_rex_data (ack_new msg_id) source_client_id AckReturn))) (\<lambda>d.
             sbind (send_buf E sender (content d)) (\<lambda>_. sret ())))))))"

definition janitor_tick :: "'db env \<Rightarrow> u64 \<Rightarrow> ('db world, unit) srv" where
  "janitor_tick E client_timeout =
     sbind (cleanup_inactive_clients client_timeout) (\<lambda>_.
     sbind (cleanup_expired_acks E) (\<lambda>_.
     sbind (sget w_now) (cleanup_expired_ghosts E)))"

section \<open>Start of the server\<close>

text \<open>\<open>build_services\<close>: \<open>opened\<close> says whether the database could be opened.\<close>

definition build_services :: "system_config \<Rightarrow> bool \<Rightarrow> cluster_port option \<Rightarrow> 'db \<Rightarrow> (cref \<Rightarrow> client) \<Rightarrow> u64 \<Rightarrow> 'db world" where
  "build_services config opened cluster db h now =
     (let store = (if sc_persistence_enabled config \<and> opened then SledStore else NoopStore);
          port = (case cluster of None \<Rightarrow> NoopClusterPort | Some p \<Rightarrow> p);
          local_id = (case port of NoopClusterPort \<Rightarrow> ''local'' | ManagerPort m \<Rightarrow> scm_local_node_id m) in
      \<lparr>w_registry = registry_new h, w_acks = ack_tracker_new (sc_ack_timeout config), w_db = db,
       w_offline = store, w_offline_error = None, w_state_store = store, w_repo_open = True,
       w_state_error = None, w_cluster = port, w_manager = None, w_fw_node_manager = None,
       w_fw_route_table = None, w_fw_local = local_id, w_config = config, w_client_shutdowns = [],
       w_cancelled = [], w_next_token = 0, w_shutdown = False, w_now = now, w_tick = 0, w_sent = [],
       w_closed = [], w_round_robin = 0, w_msg_counter = 0\<rparr>)"

definition restore_ghosts :: "'db env \<Rightarrow> ('db world, unit) srv" where
  "restore_ghosts E =
     sbind (sget (\<lambda>w. sc_persistence_enabled (w_config w))) (\<lambda>en.
     if \<not> en then sret ()
     else sbind (state_load_all E) (\<lambda>restored.
       sfor restored (\<lambda>entry.
         sbind (on_registry (add_ghost (rc_client_id entry) (rc_titles entry) (rc_ghost_until entry))) (\<lambda>r.
         case r of Inl _ \<Rightarrow> sret () | Inr _ \<Rightarrow> port_register_client (rc_client_id entry)))))"

end
