(* ===== verification/Steps.thy ===== *)
theory Steps
  imports Handlers
begin

text \<open>
  The server as a transition system. Every operation of the server changes its state by a sequence
  of primitive changes (\<open>prim\<close>); what all primitive changes preserve holds after any history of
  frames, connections, janitor rounds, cluster messages and admin requests.
\<close>

section \<open>Primitive changes\<close>

inductive reg_change :: "registry \<Rightarrow> registry \<Rightarrow> bool" where
  rc_upd: "reg_change r (upd_client c f r)"
| rc_add: "reg_change r (add_client c r)"
| rc_remove: "reg_change r (snd (remove_client i r))"
| rc_register: "reg_change r (register_title i t r)"
| rc_unregister: "reg_change r (unregister_title i t r)"
| rc_claim: "reg_change r (snd (claim_ghost i r))"
| rc_ghost: "reg_change r (snd (add_ghost i ts g r))"
| rc_unghost: "reg_change r (snd (remove_ghost i r))"

inductive ack_change :: "ack_tracker \<Rightarrow> ack_tracker \<Rightarrow> bool" where
  ac_register: "ack_change a (ack_register now m s t g a)"
| ac_take: "ack_change a (snd (ack_take m a))"
| ac_expire: "ack_change a (snd (take_expired now a))"

inductive prim :: "'db world \<Rightarrow> 'db world \<Rightarrow> bool" where
  p_tick: "prim w (w\<lparr>w_tick := Suc (w_tick w)\<rparr>)"
| p_now: "prim w (w\<lparr>w_now := now\<rparr>)"
| p_send: "prim w (w\<lparr>w_sent := w_sent w @ [x]\<rparr>)"
| p_close: "prim w (w\<lparr>w_closed := w_closed w @ [s]\<rparr>)"
| p_reg: "reg_change (w_registry w) r \<Longrightarrow> prim w (w\<lparr>w_registry := r\<rparr>)"
| p_acks: "ack_change (w_acks w) a \<Longrightarrow> prim w (w\<lparr>w_acks := a\<rparr>)"
| p_db: "prim w (w\<lparr>w_db := db\<rparr>)"
| p_offline_error: "prim w (w\<lparr>w_offline_error := e\<rparr>)"
| p_state_error: "prim w (w\<lparr>w_state_error := e\<rparr>)"
| p_repo: "prim w (w\<lparr>w_repo_open := False\<rparr>)"
| p_cluster: "prim w (w\<lparr>w_cluster := ManagerPort m\<rparr>)"
| p_manager: "prim w (w\<lparr>w_manager := m\<rparr>)"
| p_transport: "w_fw_node_manager w = Some nm \<Longrightarrow> prim w (w\<lparr>w_fw_node_manager := Some nm'\<rparr>)"
| p_token: "prim w (w\<lparr>w_next_token := Suc (w_next_token w),
      w_client_shutdowns := dm_insert i (w_next_token w) (w_client_shutdowns w)\<rparr>)"
| p_untoken: "prim w (w\<lparr>w_client_shutdowns := dm_remove i (w_client_shutdowns w)\<rparr>)"
| p_cancel: "prim w (w\<lparr>w_cancelled := t # w_cancelled w\<rparr>)"
| p_robin: "prim w (w\<lparr>w_round_robin := w_round_robin w + 1\<rparr>)"
| p_counter: "prim w (w\<lparr>w_msg_counter := w_msg_counter w + 1\<rparr>)"

abbreviation prims :: "'db world \<Rightarrow> 'db world \<Rightarrow> bool" where
  "prims \<equiv> prim\<^sup>*\<^sup>*"

definition steps :: "('e, 'db world, 'a) sm \<Rightarrow> bool" where
  "steps m \<longleftrightarrow> (\<forall>w. prims w (snd (m w)))"

named_theorems steps_intros "operations made of primitive changes"

lemma steps_basic [steps_intros]:
  "steps (sret x)" "steps (slift r)" "steps (sget f)"
  by (simp_all add: steps_def sret_def slift_def sget_def)

lemma steps_smod: "(\<And>w. prims w (f w)) \<Longrightarrow> steps (smod f)"
  by (simp add: steps_def smod_def)

lemma steps_srun: "(\<And>w. prims w (snd (f w))) \<Longrightarrow> steps (srun f)"
  by (simp add: steps_def srun_def case_prod_unfold)

lemma steps_sbind [steps_intros]:
  assumes "steps m" "\<And>x. steps (k x)"
  shows "steps (sbind m k)"
  unfolding steps_def
proof
  fix w
  obtain r w1 where m: "m w = (r, w1)" by fastforce
  with assms(1) have 1: "prims w w1" unfolding steps_def by (metis snd_conv)
  show "prims w (snd (sbind m k w))"
  proof (cases r)
    case (Inr x)
    then have "prims w1 (snd (sbind m k w))" using assms(2)[of x] m by (simp add: steps_def sbind_def)
    with 1 show ?thesis by (rule rtranclp_trans)
  qed (use m 1 in \<open>simp add: sbind_def\<close>)
qed

lemma steps_if [steps_intros]: "steps m \<Longrightarrow> steps n \<Longrightarrow> steps (if b then m else n)"
  by simp

lemma steps_option [steps_intros]: "steps m \<Longrightarrow> (\<And>x. steps (k x)) \<Longrightarrow> steps (case z of None \<Rightarrow> m | Some x \<Rightarrow> k x)"
  by (cases z) simp_all

lemma steps_sum [steps_intros]: "(\<And>e. steps (m e)) \<Longrightarrow> (\<And>x. steps (k x)) \<Longrightarrow> steps (case r of Inl e \<Rightarrow> m e | Inr x \<Rightarrow> k x)"
  by (cases r) simp_all

lemma steps_prod [steps_intros]: "(\<And>x y. steps (k x y)) \<Longrightarrow> steps (case p of (x, y) \<Rightarrow> k x y)"
  by (cases p) simp

lemma steps_backend [steps_intros]: "steps m \<Longrightarrow> steps n \<Longrightarrow> steps (case b of NoopStore \<Rightarrow> m | SledStore \<Rightarrow> n)"
  by (cases b) simp_all

lemma steps_sfor [steps_intros]: "(\<And>x. steps (f x)) \<Longrightarrow> steps (sfor xs f)"
  by (induction xs) (auto intro: steps_intros)

section \<open>The operations are made of them\<close>

lemma steps_next_tick [steps_intros]: "steps next_tick"
  unfolding next_tick_def by (rule steps_srun) (auto intro: p_tick)

lemma steps_upd_registry [steps_intros]: "(\<And>r. reg_change r (f r)) \<Longrightarrow> steps (upd_registry f)"
  unfolding upd_registry_def by (rule steps_smod) (auto intro: p_reg)

lemma steps_on_registry [steps_intros]: "(\<And>r. reg_change r (snd (g r))) \<Longrightarrow> steps (on_registry g)"
  unfolding on_registry_def by (rule steps_srun) (auto intro: p_reg simp: case_prod_unfold)

lemmas reg_change_intros [steps_intros] =
  rc_upd rc_add rc_remove rc_register rc_unregister rc_claim rc_ghost rc_unghost

lemma steps_send_buf [steps_intros]: "steps (send_buf E c buf)"
proof (unfold send_buf_def, rule steps_srun, goal_cases)
  case (1 w)
  let ?s = "cl_sender (w_heap w c)"
  let ?w1 = "w\<lparr>w_tick := Suc (w_tick w)\<rparr>"
  let ?w2 = "?w1\<lparr>w_sent := w_sent ?w1 @ [(?s, buf)]\<rparr>"
  let ?w3 = "?w2\<lparr>w_registry := upd_client c (update_last_recv (w_now w)) (w_registry ?w2)\<rparr>"
  have "prims w ?w1" by (auto intro: p_tick)
  moreover have "prims w ?w3"
    using p_tick[of w] p_send[of ?w1] p_reg[OF rc_upd, of ?w2] by (meson converse_rtranclp_into_rtranclp rtranclp.rtrancl_refl)
  ultimately show ?case by (simp add: Let_def)
qed

lemma steps_client_close [steps_intros]: "steps (client_close c)"
  unfolding client_close_def by (rule steps_smod) (auto intro: p_close)

lemma steps_on_db [steps_intros]: "steps (on_db m)"
  unfolding on_db_def by (rule steps_srun) (auto intro: p_db simp: case_prod_unfold)

lemma steps_note_offline [steps_intros]: "steps (note_offline r x)"
  unfolding note_offline_def by (intro steps_intros steps_smod r_into_rtranclp p_offline_error)

lemma steps_note_state [steps_intros]: "steps (note_state r x)"
  unfolding note_state_def by (intro steps_intros steps_smod r_into_rtranclp p_state_error)

lemma steps_counter [steps_intros]:
  "steps (srun (\<lambda>w. (g w, w\<lparr>w_msg_counter := w_msg_counter w + 1\<rparr>)))"
  by (rule steps_srun) (auto intro: p_counter)

lemma steps_robin [steps_intros]:
  "steps (srun (\<lambda>w. (g w, w\<lparr>w_round_robin := w_round_robin w + 1\<rparr>)))"
  by (rule steps_srun) (auto intro: p_robin)

lemma steps_port [steps_intros]: "steps (port_register_client i)" "steps (port_unregister_client i)"
  unfolding port_register_client_def port_unregister_client_def
  by (rule steps_smod; auto intro: p_cluster split: cluster_port.splits)+

lemma steps_on_repo [steps_intros]: "steps (on_repo m)"
  unfolding on_repo_def by (intro steps_intros)

lemma steps_buffers [steps_intros]:
  "steps (buffer_queue E i t p)" "steps (buffer_get E i)" "steps (buffer_clear E i)" "steps (buffer_count E i)"
  unfolding buffer_queue_def buffer_get_def buffer_clear_def buffer_count_def by (intro steps_intros)+

lemma steps_buffer_close [steps_intros]: "steps (buffer_close E)"
  unfolding buffer_close_def by (intro steps_intros steps_smod r_into_rtranclp p_offline_error)

lemma steps_states [steps_intros]:
  "steps (state_save E i ts now g)" "steps (state_remove E i)" "steps (state_load_all E)"
  "steps (state_take_expired_ghosts E now)"
  unfolding state_save_def state_remove_def state_load_all_def state_take_expired_ghosts_def
  by (intro steps_intros)+

lemma steps_state_close [steps_intros]: "steps (state_flush E)" "steps (state_close E)"
  unfolding state_close_def state_flush_def
  by (intro steps_intros steps_smod; auto intro: p_db p_repo split: backend.splits)+

lemma steps_tokens [steps_intros]:
  "steps (register_client_shutdown i)" "steps (unregister_client_shutdown i)" "steps (cancel_client i)"
proof -
  show "steps (register_client_shutdown i)"
    unfolding register_client_shutdown_def by (rule steps_srun) (auto intro: p_token)
  show "steps (unregister_client_shutdown i)"
    unfolding unregister_client_shutdown_def by (rule steps_smod) (auto intro: p_untoken)
  show "steps (cancel_client i)"
    unfolding cancel_client_def by (rule steps_srun) (auto intro: p_cancel split: option.splits)
qed

lemma steps_acks [steps_intros]:
  "steps (register_pending_ack m s t g)" "steps (take_pending_ack m)" "steps (take_expired_acks now)"
  unfolding register_pending_ack_def take_pending_ack_def take_expired_acks_def
  by (intro steps_srun steps_smod; auto intro: p_acks ack_change.intros simp: case_prod_unfold)+

lemma steps_on_transport [steps_intros]: "steps (on_transport x f)"
  unfolding on_transport_def by (rule steps_srun) (auto intro: p_transport simp: case_prod_unfold split: option.splits)

lemma steps_services [steps_intros]:
  "steps (choose_one E t ex)" "steps (route E t ex)" "steps (svc_add_client E c)" "steps (svc_remove_client E i)"
  "steps (svc_get_offline_messages E i)" "steps (svc_clear_offline_messages E i)"
  "steps (setup_message_ack E i t g d)" "steps (send_ack E c m rc cmd src)" "steps (queue_offline_message E i t p)"
  unfolding choose_one_def route_def svc_add_client_def svc_remove_client_def svc_get_offline_messages_def
    svc_clear_offline_messages_def setup_message_ack_def send_ack_def queue_offline_message_def
  by (intro steps_intros)+

lemma steps_try_send [steps_intros]:
  "steps (fw_send_to E n m)" "steps (try_reconnect_and_send E n a m)" "steps (try_send E n a req)"
  unfolding fw_send_to_def try_reconnect_and_send_def try_send_def Let_def by (intro steps_intros)+

lemma steps_fallback_walk [steps_intros]: "steps (fallback_walk E req ex rt ns)"
  by (induction ns) (auto intro!: steps_intros simp del: not_None_eq)

lemma steps_broadcast_to [steps_intros]: "steps (broadcast_to E m ns)"
  by (induction ns) (auto intro!: steps_intros)

lemma steps_forward [steps_intros]:
  "steps (fallback_excluding E req ex)" "steps (forward E n req)" "steps (fw_broadcast E m)" "steps (announce_ack E ack)"
  unfolding fallback_excluding_def forward_def fw_broadcast_def announce_ack_def by (intro steps_intros)+

lemma steps_deliver_one [steps_intros]: "steps (deliver_one E buf out c)"
  unfolding deliver_one_def by (intro steps_intros)

lemma steps_deliver_all [steps_intros]: "steps (deliver_all E buf out cs)"
  by (induction cs arbitrary: out) (auto intro!: steps_intros)

lemma steps_deliver [steps_intros]: "steps (deliver E msg)"
  unfolding deliver_def Let_def by (intro steps_intros)

lemma steps_set_manager [steps_intros]: "steps (smod (\<lambda>w. w\<lparr>w_manager := x\<rparr>))"
  by (intro steps_smod r_into_rtranclp p_manager)

lemma steps_manager [steps_intros]: "steps (handle_cluster_message E reach m)" "steps (start_cluster_manager E reach n a ss)"
  unfolding handle_cluster_message_def start_cluster_manager_def Let_def
  by (cases m; auto intro!: steps_intros) (intro steps_intros)

lemma steps_replies [steps_intros]: "steps (reply E c cmd d)" "steps (reply_no_target E c cmd d)"
  unfolding reply_def reply_no_target_def by (intro steps_intros)+

lemma steps_send_all [steps_intros]: "steps (send_all E buf cs)"
  by (induction cs) (auto intro!: steps_intros)

lemma steps_upd_id [steps_intros]: "steps (upd_registry (\<lambda>g. upd_client c (f g) g))"
  by (intro steps_intros)

lemma steps_handlers [steps_intros]:
  "steps (handle_check E c d)" "steps (drain_one E c i m)" "steps (handle_login E c d)" "steps (deliver_message E c d t)"
  "steps (handle_cast E c d)" "steps (handle_group E c d)" "steps (handle_ack E c d)"
  unfolding handle_check_def drain_one_def handle_login_def deliver_message_def handle_cast_def handle_group_def
    handle_ack_def by (intro steps_intros)+

lemma steps_route_plan [steps_intros]:
  "(\<And>c. steps (f c)) \<Longrightarrow> (\<And>n. steps (g n)) \<Longrightarrow> steps h \<Longrightarrow>
    steps (case plan of RouteLocal c \<Rightarrow> f c | RouteRemote n \<Rightarrow> g n | RouteNone \<Rightarrow> h)"
  by (cases plan) simp_all

lemma steps_handle_title [steps_intros]: "steps (handle_title E c d)"
  unfolding handle_title_def by (intro steps_intros)

lemma steps_handle_session [steps_intros]: "steps (handle_session E c d)"
proof -
  have "reg_change r ((case mu of MRegister \<Rightarrow> register_title i t | MUnregister \<Rightarrow> unregister_title i t) r)"
    for mu i t r by (cases mu) (auto intro: reg_change.intros)
  then show ?thesis unfolding handle_session_def Let_def by (intro steps_intros) simp_all
qed

lemma steps_handle [steps_intros]: "steps (handle E c d)"
proof -
  have "steps (dispatch E c d cmd)" for cmd
    unfolding dispatch_def by (cases cmd) (auto intro: steps_intros)
  then show ?thesis unfolding handle_def by (intro steps_intros)
qed

lemma steps_touch_peer [steps_intros]: "steps (touch_peer c)"
  unfolding touch_peer_def by (rule steps_smod) (auto intro: p_reg rc_upd)

lemma steps_parse_loop [steps_intros]: "steps (parse_loop n E dbg c buf)"
  by (induction n arbitrary: buf) (auto intro!: steps_intros)

lemma steps_parse_and_handle [steps_intros]: "steps (parse_and_handle_buffer E dbg c mx buf)"
  unfolding parse_and_handle_buffer_def by (intro steps_intros)

lemma steps_drive_loop [steps_intros]: "steps (drive_loop E dbg c mx es buf)"
  by (induction E dbg c mx es buf rule: drive_loop.induct) (auto intro!: steps_intros)

lemma steps_accept [steps_intros]: "steps (accept c uuid a s)"
  unfolding accept_def by (rule steps_smod) (auto intro: p_reg rc_upd)

lemma steps_connection [steps_intros]:
  "steps (driver_new c)" "steps (drive E dbg c mx es)" "steps (handle_connection E dbg c uuid a s mx es)"
  unfolding driver_new_def drive_def handle_connection_def by (intro steps_intros)+

lemma steps_janitor [steps_intros]:
  "steps (cleanup_expired_ghosts E now)" "steps (cleanup_inactive_clients t)" "steps (cleanup_expired_acks E)"
  "steps (janitor_tick E t)"
  unfolding cleanup_expired_ghosts_def cleanup_inactive_clients_def cleanup_expired_acks_def janitor_tick_def
  by (intro steps_intros)+

lemma steps_restore_ghosts [steps_intros]: "steps (restore_ghosts E)"
  unfolding restore_ghosts_def by (intro steps_intros)

section \<open>The server's histories\<close>

text \<open>The clock is read from the system; it may be set back.\<close>

inductive server_step :: "'db env \<Rightarrow> 'db world \<Rightarrow> 'db world \<Rightarrow> bool" for E where
  s_clock: "server_step E w (w\<lparr>w_now := now\<rparr>)"
| s_accept: "server_step E w (snd (sbind (accept c uuid a s) (\<lambda>_. driver_new c) w))"
| s_data: "server_step E w (snd (parse_and_handle_buffer E dbg c mx buf w))"
| s_hangup: "server_step E w (snd (sbind (sbind (sget (\<lambda>w. id_of (w_registry w) c)) unregister_client_shutdown)
     (\<lambda>_. sbind (sget (\<lambda>w. id_of (w_registry w) c)) (svc_remove_client E)) w))"
| s_janitor: "server_step E w (snd (janitor_tick E t w))"
| s_cluster: "server_step E w (snd (handle_cluster_message E reach m w))"
| s_cancel: "server_step E w (snd (cancel_client i w))"
| s_start: "server_step E w (snd (start_cluster_manager E reach n a ss w))"
| s_restore: "server_step E w (snd (restore_ghosts E w))"
| s_queue: "server_step E w (snd (queue_offline_message E i t p w))"
| s_close: "server_step E w (snd (sbind (buffer_close E) (\<lambda>_. state_close E) w))"

lemma stepsD: "steps m \<Longrightarrow> prims w (snd (m w))"
  by (simp add: steps_def)

lemma server_step_prims: "server_step E w w' \<Longrightarrow> prims w w'"
proof (induction rule: server_step.induct)
  case (s_clock w now)
  then show ?case by (auto intro: p_now)
qed (rule stepsD, intro steps_intros)+

lemma server_run_prims: "(server_step E)\<^sup>*\<^sup>* w w' \<Longrightarrow> prims w w'"
  by (induction rule: rtranclp_induct) (auto intro: rtranclp_trans server_step_prims)

lemma prims_slots:
  "prims w w' \<Longrightarrow> w_fw_node_manager w = None \<Longrightarrow>
    w_fw_node_manager w' = None \<and> w_fw_route_table w' = w_fw_route_table w"
proof (induction rule: rtranclp_induct)
  case (step w1 w2)
  from step(2) step(3)[OF step(4)] show ?case by (induction rule: prim.induct) auto
qed simp

section \<open>Properties\<close>

text \<open>
  C37: In a server built by \<open>build_services\<close> the forwarder stays unconnected to the cluster in every
  history, cluster start included: forwarding to any peer reports that the cluster is not started and
  changes nothing, and announcements reach nobody.
\<close>

theorem forwarder_never_started:
  assumes "(server_step E)\<^sup>*\<^sup>* (build_services cfg opened port db h now) w"
  shows "forward E n req w = (Inr (PeerUnreachable ''cluster-not-started''), w)
    \<and> fw_broadcast E m w = (Inr 0, w) \<and> \<not> is_cluster_started w"
proof -
  have "w_fw_node_manager w = None"
    using prims_slots[OF server_run_prims[OF assms]] by (simp add: build_services_def Let_def)
  then show ?thesis
    by (simp add: forward_def fw_broadcast_def fw_connected_def is_cluster_started_def sbind_def sget_def sret_def)
qed

section \<open>Witnesses\<close>

text \<open>A concrete surrounding: the in-memory database, the fixed-width codec, sends that succeed.\<close>

definition env0 :: "mem_db env" where
  "env0 = \<lparr>e_sled = mem_sled, e_bincode = bincode_fixint,
     e_codec = \<lparr>cm_ser = (\<lambda>_. None), cm_de = (\<lambda>_. None)\<rparr>, e_hash = (\<lambda>s. word_of_nat (length s)),
     e_choose = (\<lambda>k cs. case cs of [] \<Rightarrow> None | c # _ \<Rightarrow> Some c), e_random = (\<lambda>k. word_of_nat (k + 1)),
     e_send = (\<lambda>k s b. True), e_connect = (\<lambda>k a. True)\<rparr>"

definition nobody :: client where
  "nobody = client_new 0 0 ([0, 0, 0, 0], 0) [] 0"

definition world0 :: "mem_db world" where
  "world0 = build_services (config_from_id ''rex'') True None [] (\<lambda>_. nobody) 1000"

theorem forwarder_never_started_witness:
  "fst (forward env0 ''b'' \<lparr>fr_source_client_id = 1, fr_target_client_id = 0, fr_title = ''t'',
     fr_payload = [], fr_msg_type = FwdUnicast\<rparr>
     (snd (start_cluster_manager env0 (\<lambda>_. True) None ([127, 0, 0, 1], 9000) [] world0)))
   = Inr (PeerUnreachable ''cluster-not-started'')"
proof -
  let ?w = "snd (start_cluster_manager env0 (\<lambda>_. True) None ([127, 0, 0, 1], 9000) [] world0)"
  have "(server_step env0)\<^sup>*\<^sup>* world0 ?w" by (intro r_into_rtranclp s_start)
  then show ?thesis
    using forwarder_never_started[of env0 "config_from_id ''rex''" True None "[]" "\<lambda>_. nobody" 1000 ?w]
    unfolding world0_def[symmetric] by simp
qed

end
