(* ===== verification/Delivery.thy ===== *)
theory Delivery
  imports Steps
begin

text \<open>
  What the handlers do on well-formed frames, computed with weakest preconditions: the frames they
  send, to whom, and what they leave in the registry.
\<close>

section \<open>Frames\<close>

definition reply_frame :: "rex_command \<Rightarrow> rex_data \<Rightarrow> rex_data" where
  "reply_frame cmd d = projr (rd_set_command cmd d)"

definition no_target_frame :: "rex_command \<Rightarrow> rex_data \<Rightarrow> rex_data" where
  "no_target_frame cmd d = projr (rbind (rd_set_command cmd d) (rd_set_retcode NoTarget))"

definition stamp :: "u64 \<Rightarrow> rex_data \<Rightarrow> rex_data" where
  "stamp m d = projr (rd_set_message_id m d)"

definition drain_frame :: "u128 \<Rightarrow> offline_message \<Rightarrow> rex_data" where
  "drain_frame i m = projr (rbind (rd_set_source i (rd_new Title (om_title m) (om_payload m)))
     (rd_set_message_id (om_id m)))"

lemma reply_frame_ok:
  assumes "frame_ok d"
  shows "rd_set_command cmd d = Inr (reply_frame cmd d)" "frame_ok (reply_frame cmd d)"
    "view (reply_frame cmd d) = (view d)\<lparr>m_command := cmd\<rparr>"
  using cmd.set_ok[OF assms, of cmd] by (auto simp: reply_frame_def)

lemma no_target_frame_ok:
  assumes "frame_ok d"
  shows "rbind (rd_set_command cmd d) (rd_set_retcode NoTarget) = Inr (no_target_frame cmd d)"
    "frame_ok (no_target_frame cmd d)"
    "view (no_target_frame cmd d) = (view d)\<lparr>m_command := cmd, m_retcode := NoTarget\<rparr>"
  using cmd.set_ok[OF assms, of cmd] ret.set_ok[of "reply_frame cmd d" NoTarget]
  by (auto simp: no_target_frame_def reply_frame_def)

lemma stamp_ok:
  assumes "frame_ok d"
  shows "rd_set_message_id m d = Inr (stamp m d)" "frame_ok (stamp m d)"
    "view (stamp m d) = (view d)\<lparr>m_message_id := m\<rparr>"
  using mid.set_ok[OF assms, of m] by (auto simp: stamp_def)

lemma rd_head_mut_long: "36 \<le> length (content d) \<Longrightarrow>
    rd_head_mut f d = Inr (projr (rd_head_mut f d)) \<and> length (content d) \<le> length (content (projr (rd_head_mut f d)))"
  by (simp add: rd_head_mut_def wire_consts)

lemma rd_new_length: "36 \<le> length (content (rd_new c t b))"
  by (simp add: rd_new_def rd_new_over_def wire_consts Let_def)

lemma drain_frame_eq:
  "rbind (rd_set_source i (rd_new Title (om_title m) (om_payload m))) (rd_set_message_id (om_id m))
    = Inr (drain_frame i m)"
proof -
  let ?d = "rd_new Title (om_title m) (om_payload m)"
  note 1 = rd_head_mut_long[OF rd_new_length, of "\<lambda>h. h\<lparr>h_source := i\<rparr>" Title "om_title m" "om_payload m"]
  then have "36 \<le> length (content (projr (rd_set_source i ?d)))"
    using rd_new_length[of Title "om_title m" "om_payload m"] by (simp add: rd_set_source_def)
  from rd_head_mut_long[OF this, of "\<lambda>h. h\<lparr>h_message_id := om_id m\<rparr>"] 1 show ?thesis
    by (metis drain_frame_def rbind_simps(2) rd_set_message_id_def rd_set_source_def)
qed

lemma drain_frame_ok:
  assumes "fits (om_title m) (om_payload m)"
  shows "frame_ok (drain_frame i m)" "view (drain_frame i m) =
    \<lparr>m_command = Title, m_retcode = Success, m_message_id = om_id m, m_source = i,
     m_title = om_title m, m_data = om_payload m\<rparr>"
  using rd_new_ok[OF assms, of Title] src.set_ok[of "rd_new Title (om_title m) (om_payload m)" i]
    mid.set_ok[of "projr (rd_set_source i (rd_new Title (om_title m) (om_payload m)))" "om_id m"]
  by (auto simp: drain_frame_def)

section \<open>Sends and quiet changes\<close>

lemma sbind_slift: "sbind (slift (Inr x)) k = k x"
  by (rule ext) (simp add: sbind_def slift_def)

text \<open>A change of the activity stamps only.\<close>

definition quiet :: "registry \<Rightarrow> registry \<Rightarrow> bool" where
  "quiet r r' \<longleftrightarrow> id2client r' = id2client r \<and> title2clients r' = title2clients r \<and> ghosts r' = ghosts r
     \<and> (\<forall>c. \<exists>t. heap r' c = (heap r c)\<lparr>cl_last_recv := t\<rparr>)"

lemma same_stamp: "\<exists>t. c = c\<lparr>cl_last_recv := t\<rparr>"
  by (rule exI[of _ "cl_last_recv c"]) simp

lemma quiet_refl [simp]: "quiet r r"
  by (simp add: quiet_def same_stamp)

lemma quiet_fields:
  assumes "quiet r r'"
  shows "cl_id (heap r' c) = cl_id (heap r c)" "cl_titles (heap r' c) = cl_titles (heap r c)"
    "cl_sender (heap r' c) = cl_sender (heap r c)" "id2client r' = id2client r"
    "title2clients r' = title2clients r" "ghosts r' = ghosts r"
proof -
  obtain t where "heap r' c = (heap r c)\<lparr>cl_last_recv := t\<rparr>" using assms unfolding quiet_def by blast
  then show "cl_id (heap r' c) = cl_id (heap r c)" "cl_titles (heap r' c) = cl_titles (heap r c)"
    "cl_sender (heap r' c) = cl_sender (heap r c)" by simp_all
qed (use assms in \<open>simp_all add: quiet_def\<close>)

lemma quiet_trans: "quiet r r' \<Longrightarrow> quiet r' r'' \<Longrightarrow> quiet r r''"
  unfolding quiet_def by (metis (no_types, lifting) client.update_convs(7) client.surjective)

lemma quiet_touch: "quiet r (upd_client c (update_last_recv now) r)"
  by (auto simp: quiet_def update_last_recv_def same_stamp)

lemma quiet_subs: "quiet r r' \<Longrightarrow> subs r' = subs r"
  by (simp add: fun_eq_iff subs_def quiet_fields)

lemma quiet_registered: "quiet r r' \<Longrightarrow> registered r' c = registered r c"
  by (simp add: registered_def quiet_fields)

lemma quiet_find_all: "quiet r r' \<Longrightarrow> find_all_by_title t e r' = find_all_by_title t e r"
  by (simp add: find_all_by_title_def quiet_fields split: option.splits)

lemma quiet_reg_ok: "quiet r r' \<Longrightarrow> reg_ok r' = reg_ok r"
  by (simp add: reg_ok_def quiet_fields quiet_registered subscribers_def)

definition log_send :: "'db env \<Rightarrow> nat \<Rightarrow> sender_ref \<Rightarrow> bytes \<Rightarrow> (sender_ref \<times> bytes) list" where
  "log_send E k s buf = (if e_send E k s buf then [(s, buf)] else [])"

lemma wp_send_buf:
  assumes "\<And>r'. quiet (w_registry w) r' \<Longrightarrow>
    Q (e_send E (w_tick w) (cl_sender (w_heap w c)) buf)
      (w\<lparr>w_registry := r', w_tick := Suc (w_tick w),
         w_sent := w_sent w @ log_send E (w_tick w) (cl_sender (w_heap w c)) buf\<rparr>)"
  shows "wp (send_buf E c buf) Q w"
  using assms[of "w_registry w"] assms[OF quiet_touch[of "w_registry w" c "w_now w"]]
  by (cases w; cases "e_send E (w_tick w) (cl_sender (w_heap w c)) buf")
    (simp_all add: send_buf_def wp_simps log_send_def Let_def)

section \<open>No handler stops\<close>

definition safe :: "('e, 'w, 'a) sm \<Rightarrow> ('a \<Rightarrow> bool) \<Rightarrow> bool" where
  "safe m P \<longleftrightarrow> (\<forall>w. wp m (\<lambda>x _. P x) w)"

abbreviation returns :: "('e, 'w, 'a) sm \<Rightarrow> bool" where
  "returns m \<equiv> safe m (\<lambda>_. True)"

named_theorems safe_intros "operations that return"

lemma safe_basic [safe_intros]:
  "P x \<Longrightarrow> safe (sret x) P" "P y \<Longrightarrow> safe (slift (Inr y)) P" "returns (sget f)" "returns (srun h)" "returns (smod g)"
  by (auto simp: safe_def wp_simps split: prod.splits)

lemma safe_sbind: "safe m P \<Longrightarrow> (\<And>x. P x \<Longrightarrow> safe (k x) Q) \<Longrightarrow> safe (sbind m k) Q"
  unfolding safe_def wp_simps by (blast intro: wp_mono)

lemma safe_sbind_total [safe_intros]: "returns m \<Longrightarrow> (\<And>x. safe (k x) Q) \<Longrightarrow> safe (sbind m k) Q"
  by (rule safe_sbind)

lemma safe_if [safe_intros]: "(b \<Longrightarrow> safe m P) \<Longrightarrow> (\<not> b \<Longrightarrow> safe n P) \<Longrightarrow> safe (if b then m else n) P"
  by simp

lemma safe_option [safe_intros]: "safe m P \<Longrightarrow> (\<And>x. safe (k x) P) \<Longrightarrow> safe (case z of None \<Rightarrow> m | Some x \<Rightarrow> k x) P"
  by (cases z) simp_all

lemma safe_sum [safe_intros]: "(\<And>e. safe (m e) P) \<Longrightarrow> (\<And>x. safe (k x) P) \<Longrightarrow> safe (case r of Inl e \<Rightarrow> m e | Inr x \<Rightarrow> k x) P"
  by (cases r) simp_all

lemma safe_prod [safe_intros]: "(\<And>x y. safe (k x y) P) \<Longrightarrow> safe (case p of (x, y) \<Rightarrow> k x y) P"
  by (cases p) simp

lemma safe_backend [safe_intros]: "safe m P \<Longrightarrow> safe n P \<Longrightarrow> safe (case b of NoopStore \<Rightarrow> m | SledStore \<Rightarrow> n) P"
  by (cases b) simp_all

lemma safe_sfor [safe_intros]: "(\<And>x. returns (f x)) \<Longrightarrow> returns (sfor xs f)"
  by (induction xs) (auto intro: safe_intros)

lemma total_services [safe_intros]:
  "returns (send_buf E c buf)" "returns (upd_registry f)" "returns (on_registry g)" "returns next_tick"
  "returns (client_close c)" "returns (note_offline r x)" "returns (note_state r' x)" "returns (on_db m)" "returns (on_repo m')"
  "returns (port_register_client i)" "returns (port_unregister_client i)" "returns (take_pending_ack n)"
  "returns (register_pending_ack n j t gr)"
  unfolding send_buf_def upd_registry_def on_registry_def next_tick_def client_close_def note_offline_def note_state_def
    on_db_def on_repo_def port_register_client_def port_unregister_client_def take_pending_ack_def register_pending_ack_def
  by (intro safe_intros TrueI)+

lemma total_composites [safe_intros]:
  "returns (buffer_get E i)" "returns (buffer_clear E i)" "returns (state_save E i ts now g)" "returns (state_remove E i)"
  "returns (choose_one E t ex)" "returns (route E t ex)" "returns (svc_add_client E c)" "returns (svc_remove_client E i)"
  "returns (svc_get_offline_messages E i)" "returns (svc_clear_offline_messages E i)"
  unfolding buffer_get_def buffer_clear_def state_save_def state_remove_def choose_one_def route_def svc_add_client_def
    svc_remove_client_def svc_get_offline_messages_def svc_clear_offline_messages_def
  by (intro safe_intros TrueI)+

lemma total_try_send [safe_intros]:
  "returns (on_transport x f)" "returns (fw_send_to E n m)" "returns (try_reconnect_and_send E n a m)" "returns (try_send E n a req)"
  unfolding on_transport_def fw_send_to_def try_reconnect_and_send_def try_send_def Let_def
  by (intro safe_intros TrueI)+

lemma total_walks [safe_intros]: "returns (fallback_walk E req ex rt ns)" "returns (broadcast_to E m ns)"
proof -
  show "returns (fallback_walk E req ex rt ns)" by (induction ns) (auto intro!: safe_intros)
  show "returns (broadcast_to E m ns)" by (induction ns) (auto intro!: safe_intros)
qed

lemma total_forward [safe_intros]: "returns (fallback_excluding E req ex)" "returns (forward E n req)" "returns (fw_broadcast E m)"
  unfolding fallback_excluding_def forward_def fw_broadcast_def by (intro safe_intros TrueI)+

lemma total_send_all [safe_intros]: "returns (send_all E buf cs)"
  by (induction cs) (auto intro!: safe_intros)

lemma total_drain [safe_intros]: "returns (drain_one E c i m)"
  unfolding drain_one_def drain_frame_eq by (intro safe_intros TrueI)

lemma total_replies [safe_intros]:
  assumes "frame_ok d"
  shows "returns (reply E c cmd d)" "returns (reply_no_target E c cmd d)"
proof -
  show "returns (reply E c cmd d)"
    unfolding reply_def reply_frame_ok(1)[OF assms] by (intro safe_intros TrueI)
  show "returns (reply_no_target E c cmd d)"
    unfolding reply_no_target_def no_target_frame_ok(1)[OF assms] by (intro safe_intros TrueI)
qed

lemma safe_pick:
  "xs \<noteq> [] \<Longrightarrow> (\<And>x. safe (k x) Q) \<Longrightarrow>
    safe (sbind (slift (checked_rem n (length xs))) (\<lambda>i. sbind (slift (checked_nth xs i)) k)) Q"
  by (simp add: sbind_slift)

lemma safe_setup_ack:
  assumes "frame_ok d"
  shows "safe (setup_message_ack E i t g d) frame_ok"
  unfolding setup_message_ack_def frame_access(6)[OF assms] stamp_ok(1)[OF assms] sbind_slift
  by (intro safe_intros TrueI assms stamp_ok(2))

lemma safe_deliver_message:
  assumes "frame_ok d"
  shows "safe (deliver_message E c d t) (\<lambda>(_, d'). frame_ok d')"
  unfolding deliver_message_def frame_access(7)[OF assms]
  by (intro safe_intros TrueI safe_sbind[OF safe_setup_ack[OF assms]]) simp

text \<open>The frames the server can serve: well-formed, and an acknowledgement carries its eight bytes.\<close>

definition servable :: "rex_data \<Rightarrow> bool" where
  "servable d \<longleftrightarrow> frame_ok d \<and> (m_command (view d) = Ack \<longrightarrow> REX_HEAD_LEN + TITLE_LEN_SIZE + 8 \<le> length (content d))"

lemma safe_handlers:
  assumes f: "frame_ok d"
  shows "safe (handle_check E c d) (\<lambda>r. r = ok)" "safe (handle_login E c d) (\<lambda>r. r = ok)"
    "safe (handle_cast E c d) (\<lambda>r. r = ok)" "safe (handle_group E c d) (\<lambda>r. r = ok)" "safe (handle_title E c d) (\<lambda>r. r = ok)"
proof -
  show "safe (handle_check E c d) (\<lambda>r. r = ok)"
    unfolding handle_check_def frame_access[OF f] by (intro safe_intros TrueI f refl)
  show "safe (handle_login E c d) (\<lambda>r. r = ok)"
    unfolding handle_login_def frame_access[OF f] by (intro safe_intros TrueI f refl)
  show "safe (handle_cast E c d) (\<lambda>r. r = ok)"
    unfolding handle_cast_def frame_access[OF f]
    by (intro safe_intros TrueI f refl safe_sbind[OF safe_setup_ack[OF f]])
  show "safe (handle_group E c d) (\<lambda>r. r = ok)"
    unfolding handle_group_def frame_access[OF f]
    by (intro safe_pick safe_intros TrueI f refl safe_sbind[OF safe_setup_ack[OF f]])
  have "safe (case plan of RouteLocal target \<Rightarrow> deliver_message E c d target
      | RouteRemote node \<Rightarrow> sbind (forward E node req) (\<lambda>res. sret (res = Delivered, d))
      | RouteNone \<Rightarrow> sret (False, d)) (\<lambda>(_, d'). frame_ok d')" for plan req
    by (cases plan) (use f safe_deliver_message[OF f] in \<open>auto intro!: safe_intros\<close>)
  note plan_safe = this
  show "safe (handle_title E c d) (\<lambda>r. r = ok)"
    unfolding handle_title_def frame_access[OF f] sbind_slift
    by (rule safe_sbind_total[OF total_composites(6)], rule safe_sbind[OF plan_safe]) (auto intro!: safe_intros)
qed

lemma safe_handle_session:
  assumes f: "frame_ok d" and m: "mutation_from_command (m_command (view d)) = Some mu"
  shows "safe (handle_session E c d) (\<lambda>r. r = ok)"
  unfolding handle_session_def frame_access[OF f] Let_def sbind_slift m option.case
  by (intro safe_intros TrueI f refl)

lemma safe_handle_ack:
  assumes "REX_HEAD_LEN + TITLE_LEN_SIZE + 8 \<le> length (content d)"
  shows "safe (handle_ack E c d) (\<lambda>r. r = ok)"
proof -
  have "ack_from_rex_data d = Inr \<lparr>a_message_id = u64_of_le (drop (REX_HEAD_LEN + TITLE_LEN_SIZE) (content d))\<rparr>"
    using assms by (simp add: ack_from_rex_data_def)
  then show ?thesis unfolding handle_ack_def by (simp only:) (intro safe_intros TrueI refl)
qed

lemma safe_handle:
  assumes "servable d"
  shows "safe (handle E c d) (\<lambda>r. r = ok)"
proof -
  have f: "frame_ok d" using assms by (simp add: servable_def)
  have "safe (dispatch E c d (m_command (view d))) (\<lambda>r. r = ok)"
    using assms safe_handlers[OF f] safe_handle_session[OF f, of _ E c] safe_handle_ack[of d E c]
    by (cases "m_command (view d)") (auto simp: dispatch_def servable_def intro: safe_intros)
  then show ?thesis unfolding handle_def frame_access[OF f]
    by (intro safe_sbind[of _ "\<lambda>x. x = m_command (view d)"]) (auto intro: safe_intros)
qed

end
