(* ===== verification/Routing.thy ===== *)
theory Routing
  imports Delivery
begin

text \<open>
  Where messages go: the cast, title and group handlers and the acknowledgement path, in terms of
  the registry's subscriptions and the outcomes of the sends.
\<close>

section \<open>Acknowledgement set-up\<close>

text \<open>The message id, the frame and the tracker that \<open>setup_message_ack\<close> leaves, and the position after it.\<close>

definition acked_id :: "'db env \<Rightarrow> 'db world \<Rightarrow> rex_data \<Rightarrow> u64" where
  "acked_id E w d = (if m_message_id (view d) \<noteq> 0 then m_message_id (view d) else e_random E (w_tick w))"

definition acked_frame :: "'db env \<Rightarrow> 'db world \<Rightarrow> rex_data \<Rightarrow> rex_data" where
  "acked_frame E w d = (if sc_ack_enabled (w_config w) then stamp (acked_id E w d) d else d)"

definition acked_world :: "'db env \<Rightarrow> 'db world \<Rightarrow> u128 \<Rightarrow> bool \<Rightarrow> rex_data \<Rightarrow> 'db world" where
  "acked_world E w i g d =
     (if \<not> sc_ack_enabled (w_config w) then w
      else w\<lparr>w_acks := ack_register (w_now w) (acked_id E w d) i (m_title (view d)) g (w_acks w),
             w_tick := (if m_message_id (view d) \<noteq> 0 then w_tick w else Suc (w_tick w))\<rparr>)"

lemma wp_setup_ack:
  assumes "frame_ok d"
  shows "wp (setup_message_ack E i (m_title (view d)) g d) Q w = Q (acked_frame E w d) (acked_world E w i g d)"
  using assms
  by (cases w) (simp add: setup_message_ack_def wp_simps stamp_ok(1) acked_frame_def acked_world_def acked_id_def
      next_tick_def register_pending_ack_def)

lemma acked_frame_ok:
  assumes "frame_ok d"
  shows "frame_ok (acked_frame E w d)"
    "view (acked_frame E w d) = (if sc_ack_enabled (w_config w) then (view d)\<lparr>m_message_id := acked_id E w d\<rparr> else view d)"
  using assms by (simp_all add: acked_frame_def stamp_ok)

lemma acked_world_fields [simp]:
  "w_registry (acked_world E w i g d) = w_registry w" "w_sent (acked_world E w i g d) = w_sent w"
  "w_config (acked_world E w i g d) = w_config w"
  "w_cluster (acked_world E w i g d) = w_cluster w" "w_db (acked_world E w i g d) = w_db w"
  "w_fw_node_manager (acked_world E w i g d) = w_fw_node_manager w" "w_round_robin (acked_world E w i g d) = w_round_robin w"
  by (simp_all add: acked_world_def)

lemma wp_reply_no_target:
  "frame_ok d \<Longrightarrow> wp (reply_no_target E c cmd d) Q w = wp (send_buf E c (content (no_target_frame cmd d))) Q w"
  by (simp add: reply_no_target_def no_target_frame_ok(1) sbind_slift)

lemma wp_reply:
  "frame_ok d \<Longrightarrow> wp (reply E c cmd d) Q w = wp (send_buf E c (content (reply_frame cmd d))) Q w"
  by (simp add: reply_def reply_frame_ok(1) sbind_slift)

section \<open>Cast\<close>

text \<open>The outcomes of the sends to a list of clients.\<close>

fun outcomes :: "'db env \<Rightarrow> (cref \<Rightarrow> client) \<Rightarrow> bytes \<Rightarrow> nat \<Rightarrow> cref list \<Rightarrow> (cref \<times> bool) list" where
  "outcomes E h buf k [] = []"
| "outcomes E h buf k (c # cs) = (c, e_send E k (cl_sender (h c)) buf) # outcomes E h buf (Suc k) cs"

definition reached :: "(cref \<times> bool) list \<Rightarrow> cref list" where
  "reached os = map fst (filter snd os)"

definition missed :: "(cref \<times> bool) list \<Rightarrow> cref list" where
  "missed os = map fst (filter (\<lambda>(_, sent). \<not> sent) os)"

lemma outcomes_quiet: "quiet r r' \<Longrightarrow> outcomes E (heap r') buf k cs = outcomes E (heap r) buf k cs"
  by (induction cs arbitrary: k) (simp_all add: quiet_fields)

lemma wp_send_all:
  assumes "\<And>r'. quiet (w_registry w) r' \<Longrightarrow>
    Q (map (\<lambda>(c, b). (id_of (w_registry w) c, b)) (outcomes E (w_heap w) buf (w_tick w) cs))
      (w\<lparr>w_registry := r', w_tick := w_tick w + length cs, w_sent := w_sent w
         @ map (\<lambda>c. (cl_sender (w_heap w c), buf)) (reached (outcomes E (w_heap w) buf (w_tick w) cs))\<rparr>)"
  shows "wp (send_all E buf cs) Q w"
  using assms
proof (induction cs arbitrary: w Q)
  case Nil
  have "w\<lparr>w_registry := w_registry w, w_tick := w_tick w + length [], w_sent := w_sent w @ []\<rparr> = w" by simp
  then show ?case using Nil[OF quiet_refl] by (simp add: wp_simps reached_def)
next
  case (Cons c cs)
  show ?case
    unfolding send_all.simps wp_simps
  proof (rule wp_send_buf, rule Cons(1))
    fix r1 r2
    let ?k = "w_tick w" and ?s = "cl_sender (w_heap w c)"
    let ?w1 = "w\<lparr>w_registry := r1, w_tick := Suc ?k, w_sent := w_sent w @ log_send E ?k ?s buf\<rparr>"
    assume q1: "quiet (w_registry w) r1" and q2: "quiet (w_registry ?w1) r2"
    have q: "quiet (w_registry w) r2" using q1 q2 by (auto intro: quiet_trans)
    show "Q ((id_of (w_registry w) c, e_send E ?k ?s buf)
          # map (\<lambda>(c, b). (id_of (w_registry ?w1) c, b)) (outcomes E (w_heap ?w1) buf (w_tick ?w1) cs))
        (?w1\<lparr>w_registry := r2, w_tick := w_tick ?w1 + length cs, w_sent := w_sent ?w1
           @ map (\<lambda>c. (cl_sender (w_heap ?w1 c), buf)) (reached (outcomes E (w_heap ?w1) buf (w_tick ?w1) cs))\<rparr>)"
      using Cons(2)[OF q] q1
      by (cases "e_send E ?k ?s buf")
        (simp_all add: outcomes_quiet quiet_fields reached_def log_send_def case_prod_unfold)
  qed
qed

text \<open>Removing the clients that could not be reached.\<close>

lemma wp_remove:
  assumes "\<And>w'. w_registry w' = snd (remove_client i (w_registry w)) \<Longrightarrow> w_sent w' = w_sent w
    \<Longrightarrow> w_tick w' = w_tick w \<Longrightarrow> w_acks w' = w_acks w \<Longrightarrow> w_config w' = w_config w \<Longrightarrow> Q w'"
  shows "wp (svc_remove_client E i) (\<lambda>_. Q) w"
  using assms
  by (auto simp: svc_remove_client_def on_registry_def wp_simps port_unregister_client_def client_close_def
      state_remove_def on_repo_def on_db_def note_state_def case_prod_unfold
      split: option.splits prod.splits backend.splits cluster_port.splits sum.splits)

lemma heap_remove_client [simp]: "heap (snd (remove_client i r)) = heap r"
  by (simp add: remove_client_def split: option.splits)

lemma id2client_remove: "j \<noteq> i \<Longrightarrow> dm_get (id2client (snd (remove_client i r))) j = dm_get (id2client r) j"
  by (simp add: remove_client_def delete_conv' split: option.splits)

text \<open>What removing the clients \<open>is\<close> leaves.\<close>

definition without :: "u128 set \<Rightarrow> 'db world \<Rightarrow> 'db world \<Rightarrow> bool" where
  "without I w w' \<longleftrightarrow> reg_ok (w_registry w')
     \<and> subs (w_registry w') = (\<lambda>i. if i \<in> I then None else subs (w_registry w) i)
     \<and> (\<forall>i. i \<notin> I \<longrightarrow> find_some_by_id i (w_registry w') = find_some_by_id i (w_registry w))
     \<and> heap (w_registry w') = heap (w_registry w) \<and> w_sent w' = w_sent w \<and> w_tick w' = w_tick w
     \<and> w_acks w' = w_acks w \<and> w_config w' = w_config w"

lemma wp_remove_all:
  assumes "reg_ok (w_registry w)"
  shows "wp (sfor is (\<lambda>i. sbind (svc_remove_client E i) (\<lambda>_. sret ()))) (\<lambda>_. without (set is) w) w"
  by (rule wp_sfor[where I = "\<lambda>ys. without (set ys) w"])
    (use assms in \<open>auto simp: without_def wp_simps subs_remove_client fun_eq_iff find_some_by_id_def id2client_remove
      intro!: wp_remove remove_client_ok\<close>)

text \<open>What a failed delivery answers: the frame with \<open>NoTarget\<close>, if the send at its tick succeeds.\<close>

definition answered :: "'db env \<Rightarrow> 'db world \<Rightarrow> cref \<Rightarrow> bytes \<Rightarrow> (sender_ref \<times> bytes) list \<Rightarrow> bool" where
  "answered E w c buf xs \<longleftrightarrow> (\<exists>k. xs = log_send E k (cl_sender (w_heap w c)) buf)"

lemma answered_log: "cl_sender (w_heap w c) = s \<Longrightarrow> answered E w c buf (log_send E k s buf)"
  by (auto simp: answered_def)

definition targets :: "'db world \<Rightarrow> rex_data \<Rightarrow> cref list" where
  "targets w d = find_all_by_title (m_title (view d)) (Some (m_source (view d))) (w_registry w)"

definition cast_outcomes :: "'db env \<Rightarrow> 'db world \<Rightarrow> rex_data \<Rightarrow> (cref \<times> bool) list" where
  "cast_outcomes E w d = outcomes E (w_heap w) (content (acked_frame E w d))
     (w_tick (acked_world E w (m_source (view d)) False d)) (targets w d)"

definition cast_result :: "'db env \<Rightarrow> cref \<Rightarrow> rex_data \<Rightarrow> 'db world \<Rightarrow> 'db world \<Rightarrow> bool" where
  "cast_result E c d w w' \<longleftrightarrow> reg_ok (w_registry w')
     \<and> subs (w_registry w') = (\<lambda>i. if i \<in> id_of (w_registry w) ` set (missed (cast_outcomes E w d)) then None
         else subs (w_registry w) i)
     \<and> (\<forall>i. i \<notin> id_of (w_registry w) ` set (missed (cast_outcomes E w d)) \<longrightarrow>
         find_some_by_id i (w_registry w') = find_some_by_id i (w_registry w))
     \<and> (\<forall>x. cl_sender (w_heap w' x) = cl_sender (w_heap w x)) \<and> w_config w' = w_config w
     \<and> w_acks w' = (if targets w d = [] then w_acks w else w_acks (acked_world E w (m_source (view d)) False d))
     \<and> (\<exists>xs. w_sent w' = w_sent w @ map (\<lambda>x. (cl_sender (w_heap w x), content (acked_frame E w d)))
           (reached (cast_outcomes E w d)) @ xs
         \<and> (if reached (cast_outcomes E w d) = []
            then answered E w c (content (no_target_frame CastReturn (if targets w d = [] then d else acked_frame E w d))) xs
            else xs = []))"

lemma reached_Nil: "reached os = [] \<longleftrightarrow> list_all (\<lambda>(_, b). \<not> b) os"
  by (induction os) (auto simp: reached_def)

lemma missed_ids: "map fst (filter (\<lambda>(_, s). \<not> s) (map (\<lambda>(c, b). (g c, b)) os)) = map g (missed os)"
  by (induction os) (auto simp: missed_def)

lemma cast_wp:
  assumes ok: "reg_ok (w_registry w)" and f: "frame_ok d"
  shows "wp (handle_cast E c d) (\<lambda>x w'. x = ok \<and> cast_result E c d w w') w"
proof (cases "targets w d = []")
  case True
  then show ?thesis
    using f ok unfolding handle_cast_def targets_def
    by (auto simp: wp_simps wp_reply_no_target cast_result_def cast_outcomes_def targets_def reached_def missed_def
        find_some_by_id_def quiet_fields quiet_reg_ok quiet_subs answered_log intro!: wp_send_buf)
next
  case False
  let ?a = "acked_world E w (m_source (view d)) False d" and ?d = "acked_frame E w d"
  note f' = acked_frame_ok(1)[OF f, of E w]
  let ?os = "cast_outcomes E w d"
  let ?rs = "map (\<lambda>(c, b). (id_of (w_registry w) c, b)) ?os"
  let ?bad = "map fst (filter (\<lambda>(_, s). \<not> s) ?rs)"
  have ids: "set ?bad = id_of (w_registry w) ` set (missed ?os)"
    unfolding missed_ids by simp
  have all: "list_all (\<lambda>(_, s). \<not> s) ?rs = (reached ?os = [])"
    by (auto simp: reached_Nil list_all_iff split: prod.splits)
  let ?R = "\<lambda>x w'. x = ok \<and> cast_result E c d w w'"
  have main: "wp (sfor ?bad (\<lambda>i. sbind (svc_remove_client E i) (\<lambda>_. sret ())))
      (\<lambda>_ wa. if list_all (\<lambda>(_, s). \<not> s) ?rs
        then wp (reply_no_target E c CastReturn ?d) (\<lambda>_. ?R ok) wa else ?R ok wa) w1"
    if q: "quiet (w_registry w) (w_registry w1)" and s: "w_sent w1 = w_sent w
        @ map (\<lambda>x. (cl_sender (w_heap w x), content ?d)) (reached ?os)"
      and a: "w_acks w1 = w_acks ?a" "w_config w1 = w_config w" for w1
  proof -
    have "reg_ok (w_registry w1)" using ok q by (simp add: quiet_reg_ok)
    note rm = wp_remove_all[OF this, of ?bad E]
    show ?thesis
    proof (rule wp_mono[OF rm], goal_cases)
      case (1 x w2)
      note w2 = this[unfolded without_def]
      have h: "cl_sender (w_heap w2 y) = cl_sender (w_heap w y)" for y using w2 q by (simp add: quiet_fields)
      have fs: "find_some_by_id i (w_registry w2) = find_some_by_id i (w_registry w)"
        if "i \<notin> id_of (w_registry w) ` set (missed ?os)" for i
        using w2 that q unfolding ids by (simp add: find_some_by_id_def quiet_fields)
      have sb: "subs (w_registry w2) = (\<lambda>i. if i \<in> id_of (w_registry w) ` set (missed ?os) then None
          else subs (w_registry w) i)"
        using w2 unfolding ids quiet_subs[OF q] by simp
      show ?case
      proof (cases "reached ?os = []")
        case True
        have "wp (send_buf E c (content (no_target_frame CastReturn ?d))) (\<lambda>_. ?R ok) w2"
        proof (rule wp_send_buf, goal_cases)
          case (1 r')
          then show ?case
            using w2 s a sb h True False fs
            by (auto simp: cast_result_def quiet_reg_ok quiet_subs answered_log find_some_by_id_def quiet_fields)
        qed
        then show ?thesis using True f' by (simp only: all wp_reply_no_target simp_thms if_True)
      next
        case f: False
        then show ?thesis
          using w2 s a sb False h fs by (simp only: all if_False) (simp add: cast_result_def)
      qed
    qed
  qed
  have "wp (send_all E (content ?d) (targets w d)) (\<lambda>results.
      wp (sfor (map fst (filter (\<lambda>(_, s). \<not> s) results)) (\<lambda>i. sbind (svc_remove_client E i) (\<lambda>_. sret ())))
      (\<lambda>_ wa. if list_all (\<lambda>(_, s). \<not> s) results
        then wp (reply_no_target E c CastReturn ?d) (\<lambda>_. ?R ok) wa else ?R ok wa)) ?a"
    by (rule wp_send_all, unfold acked_world_fields cast_outcomes_def[symmetric], rule main) simp_all
  then show ?thesis
    using False unfolding handle_cast_def frame_access[OF f] sbind_slift
    by (simp only: wp_simps targets_def[symmetric] if_False wp_setup_ack[OF f])
qed

section \<open>Title\<close>

text \<open>\<open>IteratorRandom::choose\<close>, as documented: an element of the list, none only when it is empty.\<close>

definition choose_ok :: "'db env \<Rightarrow> bool" where
  "choose_ok E \<longleftrightarrow> (\<forall>k cs. case e_choose E k cs of None \<Rightarrow> cs = [] | Some c \<Rightarrow> c \<in> set cs)"

lemma choose_targets:
  assumes "choose_ok E"
  shows "case find_one_by_title (e_choose E k) (m_title (view d)) (Some (m_source (view d))) (w_registry w) of
    None \<Rightarrow> targets w d = [] | Some c \<Rightarrow> c \<in> set (targets w d)"
proof (cases "dm_get (title2clients (w_registry w)) (m_title (view d))")
  case (Some cs)
  then have "find_one_by_title (e_choose E k) (m_title (view d)) (Some (m_source (view d))) (w_registry w)
      = e_choose E k (targets w d)"
    by (simp add: find_one_by_title_def targets_def find_all_by_title_def)
  then show ?thesis using assms unfolding choose_ok_def by metis
qed (simp add: find_one_by_title_def targets_def find_all_by_title_def)

text \<open>Delivery to one local subscriber: the message, or the answer that there is no target.\<close>

definition local_result :: "'db env \<Rightarrow> cref \<Rightarrow> rex_data \<Rightarrow> cref \<Rightarrow> 'db world \<Rightarrow> 'db world \<Rightarrow> bool" where
  "local_result E c d t w w' \<longleftrightarrow> quiet (w_registry w) (w_registry w')
     \<and> w_acks w' = w_acks (acked_world E w (id_of (w_registry w) c) False d)
     \<and> (\<exists>xs. w_sent w' = w_sent w @ xs
         \<and> (if e_send E (w_tick (acked_world E w (id_of (w_registry w) c) False d)) (cl_sender (w_heap w t))
                (content (acked_frame E w d))
            then xs = [(cl_sender (w_heap w t), content (acked_frame E w d))]
            else answered E w c (content (no_target_frame TitleReturn (acked_frame E w d))) xs))"

definition title_result :: "'db env \<Rightarrow> cref \<Rightarrow> rex_data \<Rightarrow> 'db world \<Rightarrow> 'db world \<Rightarrow> bool" where
  "title_result E c d w w' \<longleftrightarrow>
     (if targets w d = [] then quiet (w_registry w) (w_registry w') \<and> w_acks w' = w_acks w
        \<and> (\<exists>xs. w_sent w' = w_sent w @ xs \<and> answered E w c (content (no_target_frame TitleReturn d)) xs)
      else \<exists>t \<in> set (targets w d). local_result E c d t (w\<lparr>w_tick := Suc (w_tick w)\<rparr>) w')"

lemma wp_deliver_message:
  assumes f: "frame_ok d"
  shows "wp (deliver_message E c d t) (\<lambda>(b, d') w1. wp (if b then sret ok else
      sbind (reply_no_target E c TitleReturn d') (\<lambda>_. sret ok)) (\<lambda>x w'. x = ok \<and> local_result E c d t w w') w1) w"
  using f acked_frame_ok(1)[OF f, of E w]
  by (auto simp: deliver_message_def wp_simps sbind_slift wp_setup_ack wp_reply_no_target local_result_def log_send_def
      answered_def quiet_fields intro!: wp_send_buf split: if_splits dest: quiet_trans)

lemma acked_tick [simp]:
  "acked_frame E (w\<lparr>w_registry := r\<rparr>) d = acked_frame E w d"
  by (simp add: acked_frame_def acked_id_def)

lemma title_wp:
  assumes f: "frame_ok d" and ch: "choose_ok E" and slot: "w_fw_node_manager w = None"
  shows "wp (handle_title E c d) (\<lambda>x w'. x = ok \<and> title_result E c d w w') w"
proof -
  let ?w1 = "w\<lparr>w_tick := Suc (w_tick w)\<rparr>"
  let ?one = "find_one_by_title (e_choose E (w_tick w)) (m_title (view d)) (Some (m_source (view d))) (w_registry w)"
  let ?R = "\<lambda>x w'. x = ok \<and> title_result E c d w w'"
  have route: "wp (route E (m_title (view d)) (Some (m_source (view d)))) Q w = (case ?one of
      Some t \<Rightarrow> Q (RouteLocal t) ?w1
    | None \<Rightarrow> Q (case port_find_node_for_title E (m_title (view d)) ?w1 of Some n \<Rightarrow> RouteRemote n | None \<Rightarrow> RouteNone) ?w1)" for Q
    by (simp add: route_def choose_one_def next_tick_def wp_simps split: option.splits)
  show ?thesis
  proof (cases ?one)
    case (Some t)
    then have t: "t \<in> set (targets w d)" using choose_targets[OF ch, where k = "w_tick w" and d = d and w = w] by simp
    have "wp (deliver_message E c d t) (\<lambda>(b, d') w1. wp (if b then sret ok else
        sbind (reply_no_target E c TitleReturn d') (\<lambda>_. sret ok)) ?R w1) ?w1"
      by (rule wp_mono[OF wp_deliver_message[OF f]])
        (use t in \<open>auto simp: title_result_def split: prod.splits elim!: wp_mono\<close>)
    then show ?thesis
      using Some unfolding handle_title_def frame_access[OF f] sbind_slift
      by (simp add: wp_sbind route case_prod_unfold)
  next
    case None
    then have t: "targets w d = []" using choose_targets[OF ch, where k = "w_tick w" and d = d and w = w] by simp
    have none: "wp (reply_no_target E c TitleReturn d) (\<lambda>_. ?R ok) ?w1"
      using f t by (auto simp: wp_reply_no_target title_result_def log_send_def answered_def intro!: wp_send_buf)
    have fwd: "forward E n req ?w1 = (Inr (PeerUnreachable ''cluster-not-started''), ?w1)" for n req
      using slot by (simp add: forward_def srv_simps sret_def)
    have "wp (forward E n req) Q ?w1 = Q (PeerUnreachable ''cluster-not-started'') ?w1" for n req Q
      by (simp add: wp_def fwd)
    then show ?thesis
      using None none unfolding handle_title_def frame_access[OF f] sbind_slift
      by (cases "port_find_node_for_title E (m_title (view d)) ?w1") (simp_all add: wp_sbind route wp_basic)
  qed
qed

section \<open>Group\<close>

definition group_target :: "'db world \<Rightarrow> rex_data \<Rightarrow> cref" where
  "group_target w d = targets w d ! (unat (w_round_robin w) mod length (targets w d))"

lemma group_wp:
  assumes f: "frame_ok d" and T: "targets w d \<noteq> []" and en: "\<not> sc_ack_enabled (w_config w)"
    and sends: "\<And>k s b. e_send E k s b"
  shows "wp (handle_group E c d) (\<lambda>x w'. x = ok \<and> quiet (w_registry w) (w_registry w') \<and> w_config w' = w_config w
    \<and> w_round_robin w' = w_round_robin w + 1
    \<and> w_sent w' = w_sent w @ [(cl_sender (w_heap w (group_target w d)), content d)]) w"
proof -
  have "acked_frame E w d = d" "acked_world E w i True d = w" for i
    using en by (simp_all add: acked_frame_def acked_world_def)
  then show ?thesis
    using f T en sends unfolding handle_group_def frame_access[OF f] sbind_slift
    by (auto simp: wp_simps targets_def[symmetric] wp_setup_ack group_target_def log_send_def intro!: wp_send_buf)
qed

lemma group_run:
  assumes "\<forall>d \<in> set ds. frame_ok d \<and> m_title (view d) = t \<and> m_source (view d) = i"
    and "find_all_by_title t (Some i) (w_registry w) = T" "T \<noteq> []" "\<not> sc_ack_enabled (w_config w)"
    and sends: "\<And>k s b. e_send E k s b" and "unat (w_round_robin w) + length ds < 2 ^ 64"
  shows "w_sent (fold (\<lambda>d w. snd (handle_group E c d w)) ds w) = w_sent w @ map2 (\<lambda>j d.
      (cl_sender (w_heap w (T ! ((unat (w_round_robin w) + j) mod length T))), content d)) [0..<length ds] ds"
  using assms(1-4,6)
proof (induction ds arbitrary: w)
  case (Cons d ds)
  let ?n = "unat (w_round_robin w)"
  have d: "frame_ok d" "targets w d = T" using Cons(2,3) by (auto simp: targets_def)
  from group_wp[OF d(1), of w E c] d(2) Cons(4,5) sends
  obtain w' where w': "handle_group E c d w = (Inr ok, w')" "quiet (w_registry w) (w_registry w')" "w_config w' = w_config w"
      "w_round_robin w' = w_round_robin w + 1" "w_sent w' = w_sent w @ [(cl_sender (w_heap w (group_target w d)), content d)]"
    unfolding wp_result by auto
  have n: "unat (w_round_robin w') = Suc ?n"
    using Cons(6) w'(4) by (simp add: unat_word_ariths)
  have "[0..<length (d # ds)] = 0 # map Suc [0..<length ds]" by (simp add: map_Suc_upt upt_conv_Cons del: upt_Suc)
  moreover have "w_sent (fold (\<lambda>d w. snd (handle_group E c d w)) ds w') = w_sent w' @ map2 (\<lambda>j d.
      (cl_sender (w_heap w' (T ! ((Suc ?n + j) mod length T))), content d)) [0..<length ds] ds"
    using Cons(1)[of w'] Cons(2-6) w'(2,3) n by (simp add: quiet_find_all)
  ultimately show ?case
    using w' d(2) by (simp add: group_target_def quiet_fields zip_map1 case_prod_unfold)
qed simp

lemma rotation_mset: "mset (map (\<lambda>j. T ! ((a + j) mod length T)) [0..<length T]) = mset T"
proof -
  have "map (\<lambda>j. T ! ((a + j) mod length T)) [0..<length T] = rotate a T"
    by (rule nth_equalityI) (simp_all add: nth_rotate)
  also have "mset \<dots> = mset T"
    by (simp add: rotate_drop_take) (metis append_take_drop_id mset_append union_commute)
  finally show ?thesis .
qed

section \<open>Acknowledgements\<close>

lemma ack_wp:
  assumes en: "sc_ack_enabled (w_config w)" and a: "ack_from_rex_data d = Inr \<lparr>a_message_id = m\<rparr>"
  shows "wp (handle_ack E c d) (\<lambda>x w'. x = ok \<and> quiet (w_registry w) (w_registry w') \<and> w_config w' = w_config w
    \<and> w_acks w' = snd (ack_take m (w_acks w))
    \<and> w_sent w' = w_sent w @ (case ack_get m (w_acks w) of None \<Rightarrow> []
        | Some info \<Rightarrow> (case find_some_by_id (pa_source_client_id info) (w_registry w) of None \<Rightarrow> []
          | Some x \<Rightarrow> log_send E (w_tick w) (cl_sender (w_heap w x))
              (content (ack_to_rex_data (ack_new m) (pa_source_client_id info) AckReturn))))) w"
  using assms unfolding handle_ack_def
  by (auto simp: wp_simps sbind_slift take_pending_ack_def ack_take_def ack_get_def ack_new_def split: option.splits
      intro!: wp_send_buf)

lemma ack_frame_from: "ack_from_rex_data (ack_to_rex_data (ack_new m) s cmd) = Inr \<lparr>a_message_id = m\<rparr>"
  using ack_from_data[OF ack_to_rex_data_ok(1), of "ack_new m" s cmd] by (simp add: ack_to_rex_data_ok ack_new_def)

lemma cast_acked:
  assumes "reg_ok (w_registry w)" "frame_ok d" "sc_ack_enabled (w_config w)" "targets w d \<noteq> []"
    and "find_some_by_id (m_source (view d)) (w_registry w) = Some x"
  shows "\<exists>w1 w2 w3. handle_cast E c d w = (Inr ok, w1) \<and> handle_ack E c1 (ack_to_rex_data (ack_new (acked_id E w d)) s1 Ack) w1 = (Inr ok, w2)
    \<and> handle_ack E c2 (ack_to_rex_data (ack_new (acked_id E w d)) s2 Ack) w2 = (Inr ok, w3)
    \<and> w_sent w2 = w_sent w1 @ log_send E (w_tick w1) (cl_sender (w_heap w x))
        (content (ack_to_rex_data (ack_new (acked_id E w d)) (m_source (view d)) AckReturn))
    \<and> w_sent w3 = w_sent w2"
proof -
  let ?m = "acked_id E w d"
  obtain w1 where w1: "handle_cast E c d w = (Inr ok, w1)" and r: "cast_result E c d w w1"
    using cast_wp[OF assms(1,2), of E c] unfolding wp_result by blast
  have "set (missed (cast_outcomes E w d)) \<subseteq> set (targets w d)"
  proof -
    have "fst ` set (outcomes E h b k cs) = set cs" for h b k cs by (induction cs arbitrary: k) auto
    then show ?thesis by (force simp: missed_def cast_outcomes_def)
  qed
  then have "m_source (view d) \<notin> id_of (w_registry w) ` set (missed (cast_outcomes E w d))"
    by (auto simp: targets_def find_all_by_title_def split: option.splits)
  with r assms(3-5) have c1: "find_some_by_id (m_source (view d)) (w_registry w1) = Some x" "sc_ack_enabled (w_config w1)"
    "cl_sender (w_heap w1 x) = cl_sender (w_heap w x)"
    "ack_get ?m (w_acks w1) = Some \<lparr>pa_source_client_id = m_source (view d), pa_title = m_title (view d),
      pa_timestamp = w_now w, pa_is_group = False\<rparr>"
    by (auto simp: cast_result_def acked_world_def ack_register_def ack_get_def)
  from ack_wp[OF c1(2) ack_frame_from[of ?m s1 Ack], where E = E and c = c1] obtain w2 where w2: "handle_ack E c1 (ack_to_rex_data (ack_new (acked_id E w d)) s1 Ack) w1 = (Inr ok, w2)"
      "w_config w2 = w_config w1" "w_acks w2 = snd (ack_take ?m (w_acks w1))"
      "w_sent w2 = w_sent w1 @ log_send E (w_tick w1) (cl_sender (w_heap w x))
        (content (ack_to_rex_data (ack_new ?m) (m_source (view d)) AckReturn))"
    unfolding wp_result by (auto simp: c1)
  have "ack_get ?m (w_acks w2) = None" by (simp add: w2(3) ack_take_def ack_get_def delete_conv')
  moreover have "sc_ack_enabled (w_config w2)" by (simp add: w2(2) c1(2))
  ultimately obtain w3 where "handle_ack E c2 (ack_to_rex_data (ack_new (acked_id E w d)) s2 Ack) w2 = (Inr ok, w3)" "w_sent w3 = w_sent w2"
    using ack_wp[OF _ ack_frame_from[of ?m s2 Ack], where w = w2 and E = E and c = c2] unfolding wp_result by auto
  then show ?thesis using w1 w2 by blast
qed

section \<open>Properties\<close>

text \<open>
  C3: A cast reaches the subscribers of its title. In a consistent registry the handler always
  returns; the targets are exactly the connected clients subscribed to the title, each once, without
  the sender; the frame (stamped with a message id when acknowledgements are on) goes to exactly
  those whose send succeeds, in order; the others are removed with all their subscriptions and nobody
  else is; the sender is told \<open>NoTarget\<close> only when nobody was reached; the registry stays consistent.
\<close>

theorem cast_reaches_subscribers:
  assumes "reg_ok (w_registry w)" "frame_ok d"
  shows "\<exists>w'. handle_cast E c d w = (Inr ok, w') \<and> cast_result E c d w w'
    \<and> distinct (map (id_of (w_registry w)) (targets w d))
    \<and> set (map (id_of (w_registry w)) (targets w d))
      = {i. (\<exists>S. subs (w_registry w) i = Some S \<and> m_title (view d) \<in> S) \<and> i \<noteq> m_source (view d)}"
proof -
  have r: "routed_ids (m_title (view d)) (Some (m_source (view d))) (w_registry w) = map (id_of (w_registry w)) (targets w d)"
    by (simp add: routed_ids_def targets_def)
  from routed_ids_iff[OF assms(1), where t = "m_title (view d)" and e = "Some (m_source (view d))"]
    routed_ids_distinct[OF assms(1), where t = "m_title (view d)" and e = "Some (m_source (view d))"]
  have "distinct (map (id_of (w_registry w)) (targets w d))" "set (map (id_of (w_registry w)) (targets w d))
      = {i. (\<exists>S. subs (w_registry w) i = Some S \<and> m_title (view d) \<in> S) \<and> i \<noteq> m_source (view d)}"
    unfolding r by (auto simp del: set_map distinct_map)
  moreover obtain w' where "handle_cast E c d w = (Inr ok, w')" "cast_result E c d w w'"
    using cast_wp[OF assms, of E c] unfolding wp_result by blast
  ultimately show ?thesis by blast
qed

text \<open>
  C11: A message to a title goes to one subscriber. On a server whose forwarder is not connected, the
  handler always returns; when the title has local subscribers other than the sender, one of them is
  tried and gets the frame or the sender is told \<open>NoTarget\<close>; when there is none, the sender is told
  \<open>NoTarget\<close>; nobody else is sent anything, and no subscription changes.
\<close>

theorem title_reaches_one:
  assumes "frame_ok d" "choose_ok E" "w_fw_node_manager w = None"
  shows "\<exists>w'. handle_title E c d w = (Inr ok, w') \<and> title_result E c d w w' \<and> subs (w_registry w') = subs (w_registry w)"
proof -
  obtain w' where "handle_title E c d w = (Inr ok, w')" "title_result E c d w w'"
    using title_wp[OF assms, of c] unfolding wp_result by blast
  moreover from this(2) have "quiet (w_registry w) (w_registry w')"
    by (auto simp: title_result_def local_result_def split: if_splits)
  ultimately show ?thesis using quiet_subs by blast
qed

text \<open>
  C12: Group messages take turns. For consecutive group messages of one sender to one title, with
  acknowledgements disabled, a stable non-empty set of subscribers and working connections, the k-th message goes to the member at
  position counter + k, going around, and to nobody else; a round of as many messages as members gives
  every member exactly one. The counter must not wrap at \<open>2^64\<close> in between.
\<close>

theorem group_round_robin:
  assumes "\<forall>d \<in> set ds. frame_ok d \<and> m_title (view d) = t \<and> m_source (view d) = i"
    and "find_all_by_title t (Some i) (w_registry w) = T" "T \<noteq> []" "\<not> sc_ack_enabled (w_config w)"
    and "\<And>k s b. e_send E k s b" "unat (w_round_robin w) + length ds < 2 ^ 64"
  shows "w_sent (fold (\<lambda>d w. snd (handle_group E c d w)) ds w) = w_sent w @ map2 (\<lambda>j d.
      (cl_sender (w_heap w (T ! ((unat (w_round_robin w) + j) mod length T))), content d)) [0..<length ds] ds
    \<and> (length ds = length T \<longrightarrow>
        mset (map (\<lambda>j. T ! ((unat (w_round_robin w) + j) mod length T)) [0..<length ds]) = mset T)"
  by (rule conjI[OF group_run[OF assms]]) (auto simp only: rotation_mset)

text \<open>
  An acknowledgement finds its way back once. After a cast with acknowledgements on that had a
  target, the first \<open>Ack\<close> for its message id is answered by one \<open>AckReturn\<close> to the client registered
  as the sender of the cast, whoever sent the \<open>Ack\<close>; every later \<open>Ack\<close> for the id is swallowed.
\<close>

theorem ack_returns_to_caster:
  assumes "reg_ok (w_registry w)" "frame_ok d" "sc_ack_enabled (w_config w)" "targets w d \<noteq> []"
    and "find_some_by_id (m_source (view d)) (w_registry w) = Some x"
  shows "\<exists>w1 w2 w3. handle_cast E c d w = (Inr ok, w1) \<and> handle_ack E c1 (ack_to_rex_data (ack_new (acked_id E w d)) s1 Ack) w1 = (Inr ok, w2)
    \<and> handle_ack E c2 (ack_to_rex_data (ack_new (acked_id E w d)) s2 Ack) w2 = (Inr ok, w3)
    \<and> w_sent w2 = w_sent w1 @ log_send E (w_tick w1) (cl_sender (w_heap w x))
        (content (ack_to_rex_data (ack_new (acked_id E w d)) (m_source (view d)) AckReturn))
    \<and> w_sent w3 = w_sent w2"
  by (rule cast_acked[OF assms])

text \<open>
  C22: Which well-formed frames the server serves: whatever the state and whatever the sends, connects
  and the database do, the handler of every command returns without an error, with one exception.
  An Ack frame of fewer than 45 bytes, too short for the eight bytes of a message id after the head and
  the title length, makes the handler panic when acknowledgements are enabled, with the state as it was.
\<close>

theorem every_frame_served:
  assumes "frame_ok d"
  shows "if m_command (view d) = Ack \<and> sc_ack_enabled (w_config w)
      \<and> length (content d) < REX_HEAD_LEN + TITLE_LEN_SIZE + 8
    then handle E c d w = (Inl IndexPanic, w)
    else \<exists>w'. handle E c d w = (Inr ok, w')"
proof (cases "m_command (view d) = Ack \<and> length (content d) < REX_HEAD_LEN + TITLE_LEN_SIZE + 8")
  case True
  then have "handle E c d = handle_ack E c d"
    using frame_access[OF assms] by (simp add: handle_def dispatch_def sbind_slift)
  moreover have "ack_from_rex_data d = Inl IndexPanic" using True by (simp add: ack_from_rex_data_def)
  ultimately show ?thesis
    using True by (simp add: handle_ack_def sbind_def sget_def slift_def sret_def)
next
  case False
  then have "servable d" using assms by (auto simp: servable_def)
  from safe_handle[OF this, of E c] False show ?thesis unfolding safe_def wp_result by simp blast
qed

section \<open>Witnesses\<close>

text \<open>Two subscribers of the title \<open>x\<close>, ids 5 and 6, and a client with id 0 that talks to them.\<close>

definition room :: "bool \<Rightarrow> mem_db world" where
  "room acks = world0\<lparr>w_config := (w_config world0)\<lparr>sc_ack_enabled := acks\<rparr>,
     w_registry := fold add_client [0, 1, 2] (registry_new (\<lambda>c.
       client_new 0 (if c = 0 then 5 else if c = 1 then 6 else 0) ([127, 0, 0, 1], 5000) (if c = 2 then [] else ''x'') (10 + c)))\<rparr>"

definition cast0 :: rex_data where
  "cast0 = rd_new Cast ''x'' [1]"

lemma cast0_ok: "frame_ok cast0" "servable cast0" "m_title (view cast0) = ''x''" "m_source (view cast0) = 0"
  using rd_new_ok[of "''x''" "[1]"] by (simp_all add: cast0_def fits_def servable_def)

lemma title_parts_x: "title_parts ''x'' = [''x'']" "title_parts [] = []"
  by (simp_all add: title_parts_def)

lemma room_index:
  "id2client (w_registry (room b)) = [(5, 0), (6, 1), (0, 2)]" "title2clients (w_registry (room b)) = [(''x'', [0, 1])]"
  by (simp_all add: room_def registry_new_def add_client_def index_push_def client_new_def title_parts_x Let_def)

lemma room_fields:
  "sc_ack_enabled (w_config (room b)) = b" "w_fw_node_manager (room b) = None" "w_round_robin (room b) = 0"
  "cl_sender (w_heap (room b) c) = 10 + c" "id_of (w_registry (room b)) c = (if c = 0 then 5 else if c = 1 then 6 else 0)"
  by (simp_all add: room_def world0_def build_services_def registry_new_def add_client_def client_new_def Let_def)

lemma add_client_fields [simp]:
  "heap (add_client c r) = heap r" "id2client (add_client c r) = dm_insert (id_of r c) c (id2client r)"
  by (simp_all add: add_client_def Let_def)

lemma room_reg_ok: "reg_ok (w_registry (room b))"
proof -
  have "atomic ''x''" by (simp add: atomic_def)
  then show ?thesis
    by (auto simp: room_def registry_new_def client_new_def title_parts_x reg_ok_new[unfolded registry_new_def]
        intro!: add_client_ok)
qed

lemma room_targets: "find_all_by_title ''x'' (Some 0) (w_registry (room b)) = [0, 1]" "targets (room b) cast0 = [0, 1]"
  by (simp_all add: find_all_by_title_def targets_def cast0_ok room_index room_fields)

theorem cast_reaches_subscribers_witness:
  "\<exists>w'. handle_cast env0 2 cast0 (room False) = (Inr ok, w')
    \<and> w_sent w' = w_sent (room False) @ [(10, content cast0), (11, content cast0)]
    \<and> set (map (id_of (w_registry (room False))) (targets (room False) cast0)) = {5, 6}"
  using cast_reaches_subscribers[OF room_reg_ok[of False] cast0_ok(1), of env0 2]
  by (auto simp: cast_result_def cast_outcomes_def reached_def room_targets room_fields env0_def
      acked_frame_def acked_world_def)

theorem title_reaches_one_witness:
  "\<exists>w' s. handle_title env0 2 cast0 (room False) = (Inr ok, w')
    \<and> w_sent w' = w_sent (room False) @ [(s, content cast0)] \<and> (s = 10 \<or> s = 11)"
proof -
  have "choose_ok env0" by (auto simp: choose_ok_def env0_def split: list.splits)
  from title_reaches_one[OF cast0_ok(1) this, of "room False" 2] show ?thesis
    by (auto simp: title_result_def local_result_def room_targets room_fields env0_def
      acked_frame_def acked_world_def log_send_def)
qed

theorem group_round_robin_witness:
  "w_sent (fold (\<lambda>d w. snd (handle_group env0 2 d w)) [cast0, cast0, cast0] (room False))
    = w_sent (room False) @ [(10, content cast0), (11, content cast0), (10, content cast0)]"
  using group_round_robin[of "[cast0, cast0, cast0]" "''x''" 0 "room False" "[0, 1]" env0 2]
  by (simp add: cast0_ok room_targets room_fields env0_def upt_rec)

theorem ack_returns_to_caster_witness:
  "\<exists>w1 w2. handle_cast env0 2 cast0 (room True) = (Inr ok, w1)
    \<and> handle_ack env0 0 (ack_to_rex_data (ack_new (acked_id env0 (room True) cast0)) 5 Ack) w1 = (Inr ok, w2)
    \<and> w_sent w2 = w_sent w1 @ [(12, content (ack_to_rex_data (ack_new (acked_id env0 (room True) cast0)) 0 AckReturn))]"
  using ack_returns_to_caster[OF room_reg_ok[of True] cast0_ok(1), of 2 env0 2 0 5 1 6]
  by (auto simp: room_targets room_fields find_some_by_id_def room_index cast0_ok log_send_def env0_def)

theorem every_frame_served_witness:
  "(\<exists>w'. handle env0 2 cast0 (room True) = (Inr ok, w'))
    \<and> handle env0 2 (rd_new Ack [] [1, 2]) (room True) = (Inl IndexPanic, room True)"
proof -
  have a: "frame_ok (rd_new Ack [] [1, 2])" "m_command (view (rd_new Ack [] [1, 2])) = Ack"
    "length (content (rd_new Ack [] [1, 2])) < REX_HEAD_LEN + TITLE_LEN_SIZE + 8"
    using rd_new_ok[of "[]" "[1, 2]" Ack] by (simp_all add: fits_def) (simp add: rd_new_layout wire_consts str_bytes_def)
  have "m_command (view cast0) = Cast" using rd_new_ok[of "''x''" "[1]" Cast] by (simp add: cast0_def fits_def)
  then show ?thesis
    using every_frame_served[OF cast0_ok(1), of "room True" env0 2]
      every_frame_served[OF a(1), of "room True" env0 2] a(2,3) by (simp add: room_fields)
qed

end
