(* ===== verification/Forwarding.thy ===== *)
theory Forwarding
  imports Routing ClusterProps
begin

text \<open>
  Messages between servers: a forward queues at most one frame, wherever the walk over the peers
  ends, and a message to a title without local subscribers comes out at a subscriber of another
  server if the forwarder's slots are filled by \<open>set_node_manager\<close> and \<open>set_route_table\<close>, which no code
  but the tests of \<^verbatim>\<open>forwarder/tests.rs\<close> calls.
\<close>

section \<open>Forwarding queues one frame\<close>

definition accepted :: "'db world \<Rightarrow> (channel \<times> bytes) list" where
  "accepted w = (case w_fw_node_manager w of None \<Rightarrow> [] | Some nm \<Rightarrow> tp_accepted (nm_transport nm))"

text \<open>The message a request becomes, with the random id of tick \<open>k\<close>.\<close>

definition request_message :: "'db env \<Rightarrow> nat \<Rightarrow> forward_request \<Rightarrow> forward_message" where
  "request_message E k req = \<lparr>fm_forward_id = e_random E k, fm_original_source = fr_source_client_id req,
     fm_target_client_id = fr_target_client_id req, fm_title = fr_title req, fm_payload = fr_payload req,
     fm_is_group = (fr_msg_type req = FwdGroup), fm_is_broadcast = (fr_msg_type req = FwdBroadcast), fm_require_ack = False\<rparr>"

text \<open>What every step of a forward leaves alone, and the frames it queued.\<close>

definition outward :: "(channel \<times> bytes) list \<Rightarrow> 'db world \<Rightarrow> 'db world \<Rightarrow> bool" where
  "outward fs w w' \<longleftrightarrow> accepted w' = accepted w @ fs \<and> w_registry w' = w_registry w \<and> w_sent w' = w_sent w
     \<and> w_fw_local w' = w_fw_local w \<and> w_fw_route_table w' = w_fw_route_table w \<and> w_acks w' = w_acks w
     \<and> (w_fw_node_manager w' = None \<longleftrightarrow> w_fw_node_manager w = None)"

lemma outward_trans: "outward [] w w1 \<Longrightarrow> outward fs w1 w2 \<Longrightarrow> outward fs w w2"
  by (simp add: outward_def)

lemma wp_next_tick: "wp next_tick (\<lambda>_. outward [] w) w"
  by (simp add: next_tick_def wp_simps outward_def accepted_def)

lemma wp_on_transport:
  assumes "\<And>t. tp_accepted (snd (f t)) = tp_accepted t"
  shows "wp (on_transport x f) (\<lambda>_. outward [] w) w"
  using assms by (auto simp: on_transport_def wp_simps outward_def accepted_def split: option.splits prod.splits)
    (metis snd_conv)

text \<open>One of the messages \<open>M\<close> was queued once, or none.\<close>

definition forwarded :: "'db env \<Rightarrow> cluster_message set \<Rightarrow> 'db world \<Rightarrow> bool \<Rightarrow> 'db world \<Rightarrow> bool" where
  "forwarded E M w b w' \<longleftrightarrow> (if b then \<exists>m \<in> M. \<exists>ch d. cm_ser (e_codec E) m = Some d \<and> outward [(ch, frame d)] w w' else outward [] w w')"

lemma forwarded_trans: "outward [] w w1 \<Longrightarrow> forwarded E M w1 b w2 \<Longrightarrow> forwarded E M w b w2"
  by (auto simp: forwarded_def dest: outward_trans split: if_splits)

lemma wp_then:
  assumes "\<And>w. wp m (\<lambda>x. forwarded E M w (P x)) w" "outward [] w w1"
  shows "wp m (\<lambda>x. forwarded E M w (P x)) w1"
  by (rule wp_mono[OF assms(1)]) (rule forwarded_trans[OF assms(2)])

lemma forwarded_False: "forwarded E M w False w' \<longleftrightarrow> outward [] w w'"
  by (simp add: forwarded_def)

lemma outward_refl: "outward [] w w"
  by (simp add: outward_def)

lemma wp_fw_send: "m \<in> M \<Longrightarrow> wp (fw_send_to E n m) (forwarded E M w) w"
  by (auto simp: fw_send_to_def on_transport_def wp_simps send_to_def outward_def accepted_def forwarded_def
      split: option.splits prod.splits)

lemma accepted_connect [simp]:
  "tp_accepted (remove_connection n t) = tp_accepted t" "tp_accepted (snd (transport_connect r n t)) = tp_accepted t"
  by (auto simp: remove_connection_def transport_connect_def drop_receiver_def new_channel_def Let_def split: option.splits)

lemma wp_reconnect:
  assumes "m \<in> M"
  shows "wp (try_reconnect_and_send E n a m) (forwarded E M w) w"
proof -
  have "wp (if b then fw_send_to E n m else sret False) (forwarded E M w) w3" if "outward [] w w3" for b w3
    using that by (auto simp: wp_simps forwarded_False intro!: wp_mono[OF wp_fw_send[OF assms]] dest: forwarded_trans)
  then show ?thesis
    unfolding try_reconnect_and_send_def wp_simps(1-8)
    by (intro wp_mono[OF wp_on_transport]) (simp, intro wp_mono[OF wp_next_tick] wp_mono[OF wp_on_transport], simp, blast dest: outward_trans)
qed

abbreviation requests :: "'db env \<Rightarrow> forward_request \<Rightarrow> cluster_message set" where
  "requests E req \<equiv> range (\<lambda>k. Forward (request_message E k req))"

lemma try_send_eq:
  "try_send E n a req = sbind (sget (\<lambda>w. n \<in> set (fw_connected w))) (\<lambda>conn. if \<not> conn then sret False
     else sbind next_tick (\<lambda>k. sbind (fw_send_to E n (Forward (request_message E k req))) (\<lambda>ok.
       if ok then sret True else try_reconnect_and_send E n a (Forward (request_message E k req)))))"
  unfolding try_send_def request_message_def Let_def ..

lemma wp_try_send: "wp (try_send E n a req) (forwarded E (requests E req) w) w"
proof -
  let ?m = "\<lambda>k. Forward (request_message E k req)"
  have "wp (if b then sret True else try_reconnect_and_send E n a (?m k)) (forwarded E (requests E req) w) w2"
    if "forwarded E (requests E req) w b w2" for b k w2
    using that
    by (auto simp: wp_simps forwarded_False intro: wp_then[where P = "\<lambda>b. b", OF wp_reconnect])
  then have "wp (fw_send_to E n (?m k)) (\<lambda>b. wp (if b then sret True else try_reconnect_and_send E n a (?m k))
      (forwarded E (requests E req) w)) w1" if "outward [] w w1" for k w1
    by (intro wp_mono[OF wp_then[where P = "\<lambda>b. b" and M = "requests E req", OF wp_fw_send that]]) auto
  then have "wp next_tick (\<lambda>k. wp (fw_send_to E n (?m k)) (\<lambda>b. wp (if b then sret True else try_reconnect_and_send E n a (?m k))
      (forwarded E (requests E req) w))) w"
    by (intro wp_mono[OF wp_next_tick])
  then show ?thesis
    unfolding try_send_eq by (simp add: wp_sbind wp_basic forwarded_False outward_refl)
qed

lemma wp_fallback_walk: "wp (fallback_walk E req ex rt ns) (forwarded E (requests E req) w) w"
proof (induction ns arbitrary: w)
  case Nil
  then show ?case by (simp add: wp_simps forwarded_False outward_refl)
next
  case (Cons n ns)
  have "wp (sbind (try_send E n a req) (\<lambda>ok. if ok then sret True else fallback_walk E req ex rt ns)) (forwarded E (requests E req) w) w" for a
    unfolding wp_simps
    by (rule wp_mono[OF wp_try_send]) (auto simp: wp_simps forwarded_False intro: wp_then[where P = "\<lambda>b. b", OF Cons])
  then show ?case using Cons by (auto simp: wp_simps split: option.splits)
qed

lemma wp_fallback: "wp (fallback_excluding E req ex) (\<lambda>r. forwarded E (requests E req) w (r = Delivered)) w"
  unfolding fallback_excluding_def
  by (auto simp: wp_simps case_prod_unfold forwarded_False outward_refl intro!: wp_mono[OF wp_fallback_walk] split: option.splits)

lemma wp_forward: "wp (forward E n req) (\<lambda>r. forwarded E (requests E req) w (r = Delivered)) w"
proof -
  have "wp (sbind (try_send E n a req) (\<lambda>ok. if ok then sret Delivered else fallback_excluding E req (Some n)))
      (\<lambda>r. forwarded E (requests E req) w (r = Delivered)) w" for a
    unfolding wp_simps
    by (rule wp_mono[OF wp_try_send]) (auto simp: wp_simps forwarded_False intro: wp_then[OF wp_fallback])
  then show ?thesis
    unfolding forward_def
    by (auto simp: wp_simps case_prod_unfold forwarded_False outward_refl intro!: wp_fallback split: option.splits)
qed

section \<open>Delivery on the other side\<close>

text \<open>A unicast message for a title goes to one of its subscribers.\<close>

lemma deliver_wp:
  assumes "choose_ok E" "\<not> fm_is_broadcast m" "\<not> fm_is_group m" "fm_target_client_id m = 0"
  shows "wp (deliver E m) (\<lambda>out w'. quiet (w_registry w) (w_registry w') \<and> do_acked_back out = fm_require_ack m
    \<and> (if find_all_by_title (fm_title m) None (w_registry w) = []
       then w_sent w' = w_sent w \<and> do_delivered_to out = 0 \<and> do_failed out = 0
       else do_delivered_to out + do_failed out = 1 \<and> (\<exists>x \<in> set (find_all_by_title (fm_title m) None (w_registry w)).
         w_sent w' = w_sent w @ log_send E (Suc (w_tick w)) (cl_sender (w_heap w x)) (fm_payload m)
         \<and> (do_delivered_to out = 1 \<longleftrightarrow> e_send E (Suc (w_tick w)) (cl_sender (w_heap w x)) (fm_payload m))))) w"
proof -
  let ?T = "find_all_by_title (fm_title m) None (w_registry w)"
  have c: "case find_one_by_title (e_choose E (w_tick w)) (fm_title m) None (w_registry w) of
    None \<Rightarrow> ?T = [] | Some x \<Rightarrow> x \<in> set ?T"
    using assms(1) unfolding choose_ok_def
    by (auto simp: find_one_by_title_def find_all_by_title_def split: option.splits) (metis option.simps(4,5))+
  show ?thesis
  proof (cases "find_one_by_title (e_choose E (w_tick w)) (fm_title m) None (w_registry w)")
    case None
    then show ?thesis
      using c assms by (simp add: deliver_def wp_simps choose_one_def next_tick_def Let_def)
  next
    case (Some x)
    then show ?thesis
      using c assms
      by (auto simp: deliver_def deliver_one_def wp_simps choose_one_def next_tick_def Let_def rd_unpack_def log_send_def
          intro!: wp_send_buf bexI[where x = x])
  qed
qed

section \<open>From server to server\<close>

text \<open>The request of the title handler, and the forward to a connected peer.\<close>

definition title_request :: "rex_data \<Rightarrow> forward_request" where
  "title_request d = \<lparr>fr_source_client_id = m_source (view d), fr_target_client_id = 0, fr_title = m_title (view d),
     fr_payload = content d, fr_msg_type = FwdUnicast\<rparr>"

lemma forward_connected:
  assumes nm: "w_fw_node_manager w = Some nm" and rt: "w_fw_route_table w = Some rt" "get_node_addr rt n = Some (addr_show a)" "length (fst a) = 4"
    and ch: "dm_get (tp_connections (nm_transport nm)) n = Some ch" "ch \<notin> set (tp_dropped (nm_transport nm))"
    and ser: "cm_ser (e_codec E) (Forward (request_message E (w_tick w) req)) = Some b"
  shows "wp (forward E n req) (\<lambda>r w'. r = Delivered \<and> outward [(ch, frame b)] w w') w"
proof -
  have "n \<in> set (fw_connected w)"
    using nm ch by (simp add: fw_connected_def connected_nodes_def dm.keys_get)
  then have "wp (try_send E n a req) (\<lambda>b' w'. b' \<and> outward [(ch, frame b)] w w') w"
    using nm ch ser unfolding try_send_eq
    by (simp add: wp_simps next_tick_def fw_send_to_def on_transport_def send_to_def outward_def accepted_def)
  then have "wp (sbind (try_send E n a req) (\<lambda>ok. if ok then sret Delivered else fallback_excluding E req (Some n)))
      (\<lambda>r w'. r = Delivered \<and> outward [(ch, frame b)] w w') w"
    unfolding wp_sbind by (rule wp_mono) (simp add: wp_simps)
  then show ?thesis
    using nm rt by (simp add: forward_def wp_basic wp_sbind)
qed

section \<open>Properties\<close>

text \<open>
  C31: Forwarding queues a message at most once. Whatever peers are connected, whichever connection
  attempts and sends fail, a forward returns; it reports \<open>Delivered\<close> exactly when one frame with the
  request was queued on one connection, and otherwise nothing was queued; clients, acknowledgements
  and routes are untouched.
\<close>

theorem forward_at_most_once:
  "\<exists>r w'. forward E n req w = (Inr r, w') \<and> (if r = Delivered
    then \<exists>k ch b. cm_ser (e_codec E) (Forward (request_message E k req)) = Some b \<and> outward [(ch, frame b)] w w'
    else outward [] w w')"
proof -
  obtain r w' where "forward E n req w = (Inr r, w')" "forwarded E (requests E req) w (r = Delivered) w'"
    using wp_forward[of E n req w] unfolding wp_result by blast
  then show ?thesis by (intro exI[where x = r] exI[where x = w']) (auto simp: forwarded_def)
qed

text \<open>
  A message reaches a subscriber on another server, once \<open>set_node_manager\<close> and \<open>set_route_table\<close> have been
  called; the server's own start never calls them. When a title has no subscriber here, the ring names node \<open>n\<close>, the forwarder's slots hold a live connection to \<open>n\<close> and its address, and the
  serialiser reads back what it wrote within the size limit, the title handler queues one frame for
  \<open>n\<close> and sends nothing to its own clients; on \<open>n\<close> the frame is parsed into a message whose dispatch
  sends the sender's bytes, unchanged, to one subscriber of the title and to nobody else.
\<close>

theorem remote_delivery:
  assumes "frame_ok d" "choose_ok E" "targets w d = []"
    and "w_cluster w = ManagerPort mg" "scm_get_node_for_title E (m_title (view d)) mg = Some n"
    and "w_fw_node_manager w = Some nm" "w_fw_route_table w = Some rt" "get_node_addr rt n = Some (addr_show a)" "length (fst a) = 4"
    and "dm_get (tp_connections (nm_transport nm)) n = Some ch" "ch \<notin> set (tp_dropped (nm_transport nm))"
    and "\<forall>k. \<exists>b. cm_ser (e_codec E) (Forward (request_message E k (title_request d))) = Some b
      \<and> cm_de C b = Some (Forward (request_message E k (title_request d))) \<and> length b \<le> MAX_MESSAGE_SIZE"
    and "choose_ok E2" "w_manager w2 = Some mg2" "scm_has_services mg2"
    and "find_all_by_title (m_title (view d)) None (w_registry w2) \<noteq> []"
  shows "\<exists>w1 b m w3 x k. handle_title E c d w = (Inr ok, w1) \<and> outward [(ch, frame b)] w w1
    \<and> cm_ser (e_codec E) (Forward m) = Some b \<and> take_frames (frame b) = ([b], []) \<and> cm_de C b = Some (Forward m)
    \<and> handle_cluster_message E2 reach (Forward m) w2 = (Inr (), w3)
    \<and> x \<in> set (find_all_by_title (m_title (view d)) None (w_registry w2))
    \<and> w_sent w3 = w_sent w2 @ log_send E2 k (cl_sender (w_heap w2 x)) (content d)"
proof -
  let ?k = "Suc (w_tick w)" and ?w = "w\<lparr>w_tick := Suc (w_tick w)\<rparr>"
  let ?m = "request_message E ?k (title_request d)"
  obtain b where b: "cm_ser (e_codec E) (Forward ?m) = Some b" "cm_de C b = Some (Forward ?m)" "length b \<le> MAX_MESSAGE_SIZE"
    using assms(12) by blast
  have none: "find_one_by_title (e_choose E (w_tick w)) (m_title (view d)) (Some (m_source (view d))) (w_registry w) = None"
    using choose_targets[OF assms(2), where k = "w_tick w" and d = d and w = w] assms(3) by (auto split: option.splits)
  have fw: "wp (forward E n (title_request d)) (\<lambda>r w'. r = Delivered \<and> outward [(ch, frame b)] ?w w') ?w"
    by (rule forward_connected[OF _ _ assms(8,9) _ assms(11)]) (use assms b in simp_all)
  have "wp (handle_title E c d) (\<lambda>x w'. x = ok \<and> outward [(ch, frame b)] w w') w"
  proof -
    have "wp (sbind (forward E n (title_request d)) (\<lambda>res. sret (res = Delivered, d))) (\<lambda>(b', d'). wp (if b' then sret ok
        else sbind (reply_no_target E c TitleReturn d') (\<lambda>_. sret ok)) (\<lambda>x w'. x = ok \<and> outward [(ch, frame b)] w w')) ?w"
      unfolding wp_sbind by (rule wp_mono[OF fw]) (auto simp: wp_simps outward_def accepted_def)
    then show ?thesis
      using assms(1,4,5) none
      by (simp add: handle_title_def wp_basic wp_sbind sbind_slift route_def choose_one_def next_tick_def
          port_find_node_for_title_def title_request_def case_prod_unfold)
  qed
  then obtain w1 where w1: "handle_title E c d w = (Inr ok, w1)" "outward [(ch, frame b)] w w1"
    unfolding wp_result by auto
  have "take_frames (frame b) = ([b], [])"
    using take_frames_frame[OF b(3), of "[]"] by (simp add: take_frames.simps[of "[]"] HEADER_SIZE_def)
  moreover have "wp (handle_cluster_message E2 reach (Forward ?m)) (\<lambda>_ w'. \<exists>x \<in> set (find_all_by_title (m_title (view d)) None (w_registry w2)).
      w_sent w' = w_sent w2 @ log_send E2 (Suc (w_tick w2)) (cl_sender (w_heap w2 x)) (content d)) w2"
  proof -
    have m: "\<not> fm_is_broadcast ?m" "\<not> fm_is_group ?m" "fm_target_client_id ?m = 0" "fm_title ?m = m_title (view d)"
      "fm_payload ?m = content d" "\<not> fm_require_ack ?m"
      by (simp_all add: request_message_def title_request_def)
    have "wp (deliver E2 ?m) (\<lambda>out w'. \<exists>x \<in> set (find_all_by_title (m_title (view d)) None (w_registry w2)).
      w_sent w' = w_sent w2 @ log_send E2 (Suc (w_tick w2)) (cl_sender (w_heap w2 x)) (content d)) w2"
      by (rule wp_mono[OF deliver_wp[OF assms(13) m(1-3)]]) (use assms(16) m in auto)
    then show ?thesis using assms(14,15) m by (simp add: handle_cluster_message_def wp_basic wp_sbind)
  qed
  then obtain w3 x where "handle_cluster_message E2 reach (Forward ?m) w2 = (Inr (), w3)"
      "x \<in> set (find_all_by_title (m_title (view d)) None (w_registry w2))"
      "w_sent w3 = w_sent w2 @ log_send E2 (Suc (w_tick w2)) (cl_sender (w_heap w2 x)) (content d)"
    unfolding wp_result by auto
  ultimately show ?thesis using w1 b(1,2) by (intro exI conjI)
qed

section \<open>Witnesses\<close>

text \<open>A server without clients, with a live connection to the node that owns every title.\<close>

definition title0 :: rex_data where
  "title0 = rd_new Title ''x'' [1]"

definition env1 :: "mem_db env" where
  "env1 = env0\<lparr>e_random := (\<lambda>_. 5), e_codec :=
     (let m = Forward (request_message (env0\<lparr>e_random := (\<lambda>_. 5)\<rparr>) 0 (title_request title0)) in
      \<lparr>cm_ser = (\<lambda>x. if x = m then Some [1] else None), cm_de = (\<lambda>_. Some m)\<rparr>)\<rparr>"

definition table1 :: route_table where
  "table1 = rt_new\<lparr>title_to_nodes := \<lparr>virtual_nodes = 1, ring = [(9, ''b'')], positions = [(''b'', [9])], sorted_ring = [9]\<rparr>,
     node_id_to_addr := [(''b'', addr_show ([127, 0, 0, 1], 9000))]\<rparr>"

definition world1 :: "mem_db world" where
  "world1 = world0\<lparr>w_cluster := ManagerPort ((scm_new ''a'' True)\<lparr>scm_route_table := table1\<rparr>), w_fw_route_table := Some table1,
     w_fw_node_manager := Some ((nm_new (cluster_config_new 0 ''a'' ([127, 0, 0, 1], 9001)))\<lparr>nm_transport := linked\<rparr>)\<rparr>"

definition room1 :: "mem_db world" where
  "room1 = (room False)\<lparr>w_manager := Some (set_services (scm_new ''b'' True))\<rparr>"

theorem remote_delivery_witness:
  "\<exists>w1 m w3 s. handle_title env1 3 title0 world1 = (Inr ok, w1) \<and> accepted w1 = [(0, frame [1])]
    \<and> cm_de (e_codec env1) [1] = Some (Forward m)
    \<and> handle_cluster_message env0 (\<lambda>_. True) (Forward m) room1 = (Inr (), w3)
    \<and> w_sent w3 = w_sent room1 @ [(s, content title0)]"
proof -
  have d: "frame_ok title0" "m_title (view title0) = ''x''"
    using rd_new_ok[of "''x''" "[1]"] by (simp_all add: title0_def fits_def)
  have ch: "choose_ok env0" "choose_ok env1"
    by (auto simp: choose_ok_def env0_def env1_def split: list.splits)
  have t: "targets world1 title0 = []"
    by (simp add: targets_def find_all_by_title_def world1_def world0_def build_services_def Let_def registry_new_def)
  have w: "w_fw_node_manager world1 = Some ((nm_new (cluster_config_new 0 ''a'' ([127, 0, 0, 1], 9001)))\<lparr>nm_transport := linked\<rparr>)"
    "w_fw_route_table world1 = Some table1" "w_cluster world1 = ManagerPort ((scm_new ''a'' True)\<lparr>scm_route_table := table1\<rparr>)"
    by (simp_all add: world1_def)
  have n: "scm_get_node_for_title env1 (m_title (view title0)) ((scm_new ''a'' True)\<lparr>scm_route_table := table1\<rparr>) = Some ''b''"
  proof -
    have "binary_search [9] (1 :: u64) = Inl 0" by (simp add: binary_search_def bs_loop.simps)
    then show ?thesis
      by (simp add: scm_get_node_for_title_def get_node_by_title_def ring_get_def get_by_hash_def table1_def start_pos_def Let_def
          d env1_def env0_def)
  qed
  have a: "get_node_addr table1 ''b'' = Some (addr_show ([127, 0, 0, 1], 9000))" by (simp add: get_node_addr_def table1_def)
  have l: "dm_get (tp_connections linked) ''b'' = Some 0" "0 \<notin> set (tp_dropped linked)" "tp_accepted linked = []"
    by (simp_all add: linked_def transport_connect_def transport_new_def new_channel_def)
  have c: "\<exists>b. cm_ser (e_codec env1) (Forward (request_message env1 k (title_request title0))) = Some b
      \<and> cm_de (e_codec env1) b = Some (Forward (request_message env1 k (title_request title0))) \<and> length b \<le> MAX_MESSAGE_SIZE" for k
    by (simp add: env1_def request_message_def Let_def MAX_MESSAGE_SIZE_def)
  have r: "w_manager room1 = Some (set_services (scm_new ''b'' True))" "scm_has_services (set_services (scm_new ''b'' True))"
    "find_all_by_title (m_title (view title0)) None (w_registry room1) \<noteq> []"
    by (simp_all add: room1_def set_services_def d find_all_by_title_def room_index)
  obtain w1 b m w3 x k where o: "handle_title env1 3 title0 world1 = (Inr ok, w1)" "outward [(0, frame b)] world1 w1"
    "cm_ser (e_codec env1) (Forward m) = Some b" "cm_de (e_codec env1) b = Some (Forward m)"
    "handle_cluster_message env0 (\<lambda>_. True) (Forward m) room1 = (Inr (), w3)"
    "w_sent w3 = w_sent room1 @ log_send env0 k (cl_sender (w_heap room1 x)) (content title0)"
    using remote_delivery[OF d(1) ch(2) t w(3) n w(1,2) a _ _ _ _ ch(1) r, of 0 "e_codec env1" 3 "\<lambda>_. True"] l c by auto
  have "b = [1]" using o(3) by (simp add: env1_def Let_def split: if_splits)
  moreover have "accepted world1 = []" by (simp add: accepted_def w l)
  ultimately show ?thesis
    using o by (intro exI[where x = w1] exI[where x = m] exI[where x = w3]) (auto simp: outward_def log_send_def env0_def)
qed

end
