(* ===== verification/Streams.thy ===== *)
theory Streams
  imports Wire
begin

text \<open>
  Byte streams of frames, as the connections of server and client read them: a loop that cuts whole
  frames off a buffer, and a reader that appends what arrives and calls the loop. The contract of
  such a reader is a locale; in it, that every frame is taken once and in order, however the bytes
  arrive. A second locale is the reader of a connection with several streams.
\<close>

abbreviation stream :: "rex_data list \<Rightarrow> bytes" where
  "stream fs \<equiv> concat (map content fs)"

text \<open>The beginning of a stream that ends inside the first frame of \<open>fs\<close>, or at its start.\<close>

definition partial :: "rex_data list \<Rightarrow> bytes \<Rightarrow> bool" where
  "partial fs r \<longleftrightarrow> r = [] \<or> (\<exists>f fs' n. fs = f # fs' \<and> n < length (content f) \<and> r = take n (content f))"

lemma stream_prefix:
  assumes "a @ b = stream fs"
  shows "\<exists>gs hs r. fs = gs @ hs \<and> a = stream gs @ r \<and> partial hs r \<and> r @ b = stream hs"
  using assms
proof (induction fs arbitrary: a)
  case Nil
  then show ?case by (intro exI[of _ "[]"]) (simp add: partial_def)
next
  case (Cons f fs)
  show ?case
  proof (cases "length a < length (content f)")
    case True
    have "a = take (length a) (a @ b)" by simp
    also have "\<dots> = take (length a) (content f)" unfolding Cons(2) using True by simp
    finally have "a = take (length a) (content f)" .
    then have "partial (f # fs) a" using True unfolding partial_def by blast
    then show ?thesis using Cons(2) by (intro exI[of _ "[]"] exI[of _ "f # fs"] exI[of _ a]) simp
  next
    case False
    then obtain a' where a: "a = content f @ a'"
      using Cons(2) by (metis append_eq_append_conv_if append_eq_conv_conj concat.simps(2) list.simps(9) not_le_imp_less order_le_less)
    then obtain gs hs r where "fs = gs @ hs" "a' = stream gs @ r" "partial hs r" "r @ b = stream hs"
      using Cons(1)[of a'] Cons(2) by auto
    then show ?thesis using a by (intro exI[of _ "f # gs"] exI[of _ hs] exI[of _ r]) simp
  qed
qed

lemma partial_waits:
  assumes "\<forall>f \<in> set fs. frame_ok f" "partial fs r"
  shows "try_deserialize dbg r = Inr (None, r)"
  using assms by (auto simp: partial_def try_deserialize_prefix) (simp add: try_deserialize_def wire_consts)

lemma partial_short:
  "partial fs r \<Longrightarrow> \<forall>f \<in> set fs. length (content f) \<le> mx \<Longrightarrow> length r \<le> mx"
  by (auto simp: partial_def)

lemma stream_length: "\<forall>f \<in> set fs. frame_ok f \<Longrightarrow> length fs \<le> length (stream fs)"
  using frame_ok_len by (induction fs) (fastforce simp: wire_consts)+

text \<open>
  \<open>loop n buf\<close> is the parse loop with fuel \<open>n\<close>, \<open>read mx chunks buf\<close> the reader with buffer limit
  \<open>mx\<close>, \<open>step\<close> what one frame does to the state, for the frames that are \<open>good\<close>.
\<close>

locale frame_reader =
  fixes loop :: "nat \<Rightarrow> bytes \<Rightarrow> 'w \<Rightarrow> (fault + bytes option) \<times> 'w"
    and read :: "nat \<Rightarrow> bytes list \<Rightarrow> bytes \<Rightarrow> 'w \<Rightarrow> (fault + bytes option) \<times> 'w"
    and good :: "rex_data \<Rightarrow> bool"
    and step :: "rex_data \<Rightarrow> 'w \<Rightarrow> 'w"
    and dbg :: bool
  assumes good_ok: "good d \<Longrightarrow> frame_ok d"
    and loop_wait: "try_deserialize dbg buf = Inr (None, buf) \<Longrightarrow> loop (Suc n) buf w = (Inr (Some buf), w)"
    and loop_take: "good d \<Longrightarrow> loop (Suc n) (content d @ r) w = loop n r (step d w)"
    and read_end: "read mx [] r w = (Inr (Some r), w)"
    and read_chunk: "loop (Suc (length (r @ ch))) (r @ ch) w = (Inr (Some r'), w') \<Longrightarrow> length r' \<le> mx \<Longrightarrow>
      read mx (ch # chs) r w = read mx chs r' w'"
begin

lemma loop_stream:
  assumes "\<forall>f \<in> set fs. good f" "\<forall>f \<in> set gs. frame_ok f" "partial gs r" "length fs < n"
  shows "loop n (stream fs @ r) w = (Inr (Some r), fold step fs w)"
  using assms(1,4)
proof (induction fs arbitrary: n w)
  case Nil
  then obtain k where "n = Suc k" by (cases n) auto
  then show ?case by (simp add: loop_wait partial_waits[OF assms(2,3)])
next
  case (Cons f fs)
  then obtain k where n: "n = Suc k" by (cases n) auto
  have "loop n (stream (f # fs) @ r) w = loop k (stream fs @ r) (step f w)"
    using Cons(2) loop_take[of f k "stream fs @ r" w] by (simp add: n)
  then show ?case using Cons n by simp
qed

text \<open>One chunk: the frames it completes are taken, and an incomplete frame is left in the buffer.\<close>

lemma read_one:
  assumes "\<forall>f \<in> set fs. good f \<and> length (content f) \<le> mx" "partial fs r" "r @ ch @ rest = stream fs"
  shows "\<exists>gs hs r'. fs = gs @ hs \<and> partial hs r' \<and> r' @ rest = stream hs
    \<and> (\<forall>chs w. read mx (ch # chs) r w = read mx chs r' (fold step gs w))"
proof -
  from stream_prefix[of "r @ ch" rest fs] assms(3)
  obtain gs hs r' where d: "fs = gs @ hs" "r @ ch = stream gs @ r'" "partial hs r'" "r' @ rest = stream hs"
    by auto
  have ok: "\<forall>f \<in> set gs. good f" "\<forall>f \<in> set hs. frame_ok f" "length r' \<le> mx"
    using assms(1) d(1,3) by (auto simp: good_ok intro: partial_short)
  have "\<forall>f \<in> set gs. frame_ok f" using ok(1) good_ok by blast
  from stream_length[OF this] have "length gs < Suc (length (r @ ch))" unfolding d(2) by simp
  note p = loop_stream[OF ok(1,2) d(3) this]
  show ?thesis using d(1,3,4) read_chunk[OF p[folded d(2)] ok(3)] by blast
qed

lemma read_all:
  assumes "\<forall>f \<in> set fs. good f" "partial fs r" "r = stream fs"
  shows "fs = []"
proof (cases fs)
  case (Cons f fs')
  have "frame_ok f" using assms(1) Cons by (simp add: good_ok)
  from frame_ok_len[OF this] assms(2,3) Cons show ?thesis by (auto simp: partial_def dest: arg_cong[of _ _ length])
qed simp

lemma read_from:
  assumes "\<forall>f \<in> set fs. good f \<and> length (content f) \<le> mx" "partial fs r" "r @ concat chunks = stream fs"
  shows "read mx chunks r w = (Inr (Some []), fold step fs w)"
  using assms
proof (induction chunks arbitrary: fs r w)
  case Nil
  then have "fs = []" using read_all[of fs r] by simp
  then show ?case using Nil by (simp add: read_end)
next
  case (Cons ch chunks)
  from read_one[of fs mx r ch "concat chunks"] Cons(2-4)
  obtain gs hs r' where d: "fs = gs @ hs" "partial hs r'" "r' @ concat chunks = stream hs"
    and n: "\<And>chs w. read mx (ch # chs) r w = read mx chs r' (fold step gs w)" by auto
  from Cons(1)[OF _ d(2,3), of "fold step gs w"] Cons(2) n show ?case by (simp add: d(1))
qed

lemma read_stream:
  "\<forall>f \<in> set fs. good f \<and> length (content f) \<le> mx \<Longrightarrow> concat chunks = stream fs \<Longrightarrow>
    read mx chunks [] w = (Inr (Some []), fold step fs w)"
  by (rule read_from) (simp_all add: partial_def)

end

text \<open>
  Several byte streams of one connection, as a QUIC connection has them: each has its own buffer, and
  their chunks arrive in any order. \<open>mux mx es q\<close> takes the chunks \<open>es\<close>, each with its stream, from
  the state \<open>q\<close>, in which \<open>buf q s\<close> is the buffer of stream \<open>s\<close>.
\<close>

abbreviation chunks_of :: "nat \<Rightarrow> (nat \<times> 'a) list \<Rightarrow> 'a list" where
  "chunks_of s es \<equiv> map snd (filter (\<lambda>e. fst e = s) es)"

locale stream_mux = frame_reader loop read good step dbg
  for loop :: "nat \<Rightarrow> bytes \<Rightarrow> 'w \<Rightarrow> (fault + bytes option) \<times> 'w"
    and read :: "nat \<Rightarrow> bytes list \<Rightarrow> bytes \<Rightarrow> 'w \<Rightarrow> (fault + bytes option) \<times> 'w"
    and good :: "rex_data \<Rightarrow> bool" and step :: "rex_data \<Rightarrow> 'w \<Rightarrow> 'w" and dbg :: bool +
  fixes mux :: "nat \<Rightarrow> (nat \<times> bytes) list \<Rightarrow> 'q \<Rightarrow> 'w \<Rightarrow> (fault + 'q option) \<times> 'w"
    and buf :: "'q \<Rightarrow> nat \<Rightarrow> bytes option"
    and put :: "nat \<Rightarrow> bytes \<Rightarrow> 'q \<Rightarrow> 'q"
  assumes mux_end: "mux mx [] q w = (Inr (Some q), w)"
    and mux_chunk: "buf q s = Some r \<Longrightarrow> read mx [ch] r w = (Inr (Some r'), w') \<Longrightarrow>
      mux mx ((s, ch) # es) q w = mux mx es (put s r' q) w'"
    and buf_put: "buf (put s r q) = (buf q)(s \<mapsto> r)"
begin

lemma mux_from:
  assumes "\<And>s r. buf q s = Some r \<Longrightarrow> (\<forall>f \<in> set (fs s). good f \<and> length (content f) \<le> mx) \<and> partial (fs s) r
      \<and> r @ concat (chunks_of s es) = stream (fs s)"
    and "\<forall>e \<in> set es. fst e \<in> dom (buf q)"
  shows "\<exists>gs q'. mux mx es q w = (Inr (Some q'), fold step (map snd gs) w)
    \<and> (\<forall>s \<in> dom (buf q). chunks_of s gs = fs s \<and> buf q' s = Some []) \<and> dom (buf q') = dom (buf q)
    \<and> fst ` set gs \<subseteq> dom (buf q)"
  using assms
proof (induction es arbitrary: q fs w)
  case Nil
  have e: "fs s = [] \<and> r = []" if b: "buf q s = Some r" for s r
  proof -
    have "fs s = []" using Nil(1)[OF b] by (intro read_all[of "fs s" r]) auto
    then show ?thesis using Nil(1)[OF b] by simp
  qed
  show ?case by (intro exI[of _ "[]"] exI[of _ q]) (use e in \<open>auto simp: mux_end\<close>)
next
  case (Cons e es)
  obtain s ch where sc: "e = (s, ch)" by (cases e)
  obtain r where b: "buf q s = Some r" using Cons(3) sc by auto
  from Cons(2)[OF b] read_one[of "fs s" mx r ch "concat (chunks_of s es)"] sc
  obtain gs hs r' where d: "fs s = gs @ hs" "partial hs r'" "r' @ concat (chunks_of s es) = stream hs"
    and n: "\<And>chs w. read mx (ch # chs) r w = read mx chs r' (fold step gs w)" by auto
  have "mux mx (e # es) q w = mux mx es (put s r' q) (fold step gs w)"
    unfolding sc by (rule mux_chunk[OF b]) (simp add: n read_end)
  moreover have "\<exists>gs' q'. mux mx es (put s r' q) (fold step gs w) = (Inr (Some q'), fold step (map snd gs') (fold step gs w))
    \<and> (\<forall>t \<in> dom (buf (put s r' q)). chunks_of t gs' = (fs(s := hs)) t \<and> buf q' t = Some []) \<and> dom (buf q') = dom (buf (put s r' q))
    \<and> fst ` set gs' \<subseteq> dom (buf (put s r' q))"
  proof (rule Cons(1))
    show "(\<forall>f \<in> set ((fs(s := hs)) t). good f \<and> length (content f) \<le> mx) \<and> partial ((fs(s := hs)) t) x
      \<and> x @ concat (chunks_of t es) = stream ((fs(s := hs)) t)" if "buf (put s r' q) t = Some x" for t x
      using that Cons(2)[OF b] Cons(2)[of t x] d sc by (auto simp: buf_put split: if_splits)
    show "\<forall>e \<in> set es. fst e \<in> dom (buf (put s r' q))" using Cons(3) by (auto simp: buf_put)
  qed
  moreover have "dom (buf (put s r' q)) = dom (buf q)" using b by (auto simp: buf_put)
  ultimately obtain gs' q' where r: "mux mx (e # es) q w = (Inr (Some q'), fold step (gs @ map snd gs') w)"
    "\<And>t. t \<in> dom (buf q) \<Longrightarrow> chunks_of t gs' = (fs(s := hs)) t \<and> buf q' t = Some []" "dom (buf q') = dom (buf q)"
    "fst ` set gs' \<subseteq> dom (buf q)" by auto
  have "chunks_of t (map (Pair s) gs @ gs') = fs t" if "t \<in> dom (buf q)" for t
    using r(2)[OF that] d(1) by (auto simp: filter_map o_def)
  with r b show ?case by (intro exI[of _ "map (Pair s) gs @ gs'"] exI[of _ q']) (auto simp: o_def)
qed

lemma mux_streams:
  assumes "\<And>s. s \<in> dom (buf q) \<Longrightarrow> buf q s = Some [] \<and> (\<forall>f \<in> set (fs s). good f \<and> length (content f) \<le> mx)
      \<and> concat (chunks_of s es) = stream (fs s)"
    and "\<forall>e \<in> set es. fst e \<in> dom (buf q)"
  shows "\<exists>gs q'. mux mx es q w = (Inr (Some q'), fold step (map snd gs) w)
    \<and> (\<forall>s \<in> dom (buf q). chunks_of s gs = fs s \<and> buf q' s = Some []) \<and> dom (buf q') = dom (buf q)
    \<and> fst ` set gs \<subseteq> dom (buf q)"
proof (rule mux_from[OF _ assms(2)])
  show "(\<forall>f \<in> set (fs s). good f \<and> length (content f) \<le> mx) \<and> partial (fs s) r \<and> r @ concat (chunks_of s es) = stream (fs s)"
    if "buf q s = Some r" for s r
    using assms(1)[of s] that by (simp add: domI partial_def)
qed

end

end
