(* ===== verification/Connection.thy ===== *)
theory Connection
  imports Delivery Streams
begin

text \<open>
  A connection's byte stream: whatever chunks it arrives in, the driver handles the frames in order,
  once each; what happens to a frame larger than the buffer limit; and the cancellation token of a
  connection.
\<close>

definition serve :: "'db env \<Rightarrow> cref \<Rightarrow> rex_data \<Rightarrow> 'db world \<Rightarrow> 'db world" where
  "serve E c d w = snd (touch_peer c (snd (handle E c d w)))"

lemma handle_served:
  "servable d \<Longrightarrow> sbind (handle E c d) (\<lambda>_. sbind (touch_peer c) (\<lambda>_. k)) w = k (serve E c d w)"
  using safe_handle[of d E c] unfolding safe_def wp_result
  by (fastforce simp: sbind_def serve_def touch_peer_def smod_def dest: spec[of _ w])

interpretation driver: frame_reader "\<lambda>n. parse_loop n E dbg c" "\<lambda>mx chunks. drive_loop E dbg c mx (map DataIn chunks)"
    servable "serve E c" dbg for E dbg c
proof
  show "frame_ok d" if "servable d" for d using that by (simp add: servable_def)
  show "parse_loop (Suc n) E dbg c buf w = (Inr (Some buf), w)" if "try_deserialize dbg buf = Inr (None, buf)" for n buf w
    using that by (simp add: sbind_slift sret_def)
  show "parse_loop (Suc n) E dbg c (content d @ r) w = parse_loop n E dbg c r (serve E c d w)" if "servable d" for n d r w
    using that by (simp add: try_deserialize_frame servable_def sbind_slift handle_served)
  show "drive_loop E dbg c mx (map DataIn (ch # chs)) r w = drive_loop E dbg c mx (map DataIn chs) r' w'"
    if "parse_loop (Suc (length (r @ ch))) E dbg c (r @ ch) w = (Inr (Some r'), w')" "length r' \<le> mx" for mx ch chs r r' w w'
    using that by (simp add: parse_and_handle_buffer_def sbind_def sret_def)
qed (simp_all add: sret_def)

section \<open>What a login leaves alone\<close>

text \<open>
  A part \<open>P\<close> of the state that sends, the persistence ports, the cluster port and changes of the
  registry that keep the ids do not touch.
\<close>

definition same_ids :: "registry \<Rightarrow> registry \<Rightarrow> bool" where
  "same_ids r r' \<longleftrightarrow> (\<forall>c. id_of r' c = id_of r c)"

locale untouched =
  fixes P :: "'db world \<Rightarrow> 'b"
  assumes tick: "P (w\<lparr>w_tick := k\<rparr>) = P w"
    and sent: "P (w\<lparr>w_sent := xs\<rparr>) = P w"
    and db: "P (w\<lparr>w_db := db\<rparr>) = P w"
    and errors: "P (w\<lparr>w_offline_error := e\<rparr>) = P w" "P (w\<lparr>w_state_error := e\<rparr>) = P w"
    and cluster: "P (w\<lparr>w_cluster := p\<rparr>) = P w"
    and registry: "same_ids (w_registry w) r \<Longrightarrow> P (w\<lparr>w_registry := r\<rparr>) = P w"
begin

definition keeps :: "('e, 'db world, 'a) sm \<Rightarrow> bool" where
  "keeps m \<longleftrightarrow> (\<forall>w. P (snd (m w)) = P w)"

lemma keeps_basic: "keeps (sret x)" "keeps (slift r)" "keeps (sget f)"
  by (simp_all add: keeps_def sret_def slift_def sget_def)

lemma keeps_smod: "(\<And>w. P (f w) = P w) \<Longrightarrow> keeps (smod f)"
  by (simp add: keeps_def smod_def)

lemma keeps_srun: "(\<And>w. P (snd (f w)) = P w) \<Longrightarrow> keeps (srun f)"
  by (simp add: keeps_def srun_def case_prod_unfold)

lemma keeps_sbind: "keeps m \<Longrightarrow> (\<And>x. keeps (k x)) \<Longrightarrow> keeps (sbind m k)"
  unfolding keeps_def sbind_def by (auto split: prod.splits sum.splits) (metis snd_conv)+

lemma keeps_if: "keeps m \<Longrightarrow> keeps n \<Longrightarrow> keeps (if b then m else n)"
  by simp

lemma keeps_cases:
  "keeps m \<Longrightarrow> (\<And>x. keeps (k x)) \<Longrightarrow> keeps (case z of None \<Rightarrow> m | Some x \<Rightarrow> k x)"
  "(\<And>x y. keeps (j x y)) \<Longrightarrow> keeps (case p of (x, y) \<Rightarrow> j x y)"
  "keeps m \<Longrightarrow> keeps n \<Longrightarrow> keeps (case b of NoopStore \<Rightarrow> m | SledStore \<Rightarrow> n)"
  by (auto split: option.splits prod.splits backend.splits)

lemma keeps_sfor: "(\<And>x. keeps (f x)) \<Longrightarrow> keeps (sfor xs f)"
  by (induction xs) (auto intro: keeps_basic keeps_sbind)

lemma keeps_send_buf: "keeps (send_buf E c buf)"
proof (unfold send_buf_def, rule keeps_srun, goal_cases)
  case (1 w)
  have "same_ids (w_registry w) (upd_client c (update_last_recv now) (w_registry w))" for now
    by (simp add: same_ids_def update_last_recv_def)
  then show ?case by (simp add: Let_def tick sent registry)
qed

lemma keeps_registry:
  "(\<And>r. same_ids r (f r)) \<Longrightarrow> keeps (upd_registry f)" "(\<And>r. same_ids r (snd (g r))) \<Longrightarrow> keeps (on_registry g)"
  unfolding upd_registry_def on_registry_def
  by (auto intro!: keeps_smod keeps_srun simp: registry case_prod_unfold)

lemma keeps_ports:
  "keeps (on_db m)" "keeps (note_offline r x)" "keeps (note_state r' x)" "keeps (port_register_client i)"
  unfolding on_db_def note_offline_def note_state_def port_register_client_def
  by (auto intro!: keeps_smod keeps_srun keeps_sbind keeps_basic simp: db errors cluster case_prod_unfold
      split: sum.splits option.splits cluster_port.splits)

lemmas keeps_intros = keeps_basic keeps_sbind keeps_if keeps_cases keeps_sfor keeps_send_buf keeps_registry keeps_ports

lemma keeps_stores: "keeps (on_repo m)" "keeps (state_save E i ts now g)" "keeps (buffer_get E i)" "keeps (buffer_clear E i)"
  unfolding on_repo_def state_save_def buffer_get_def buffer_clear_def by (intro keeps_intros)+

lemma same_ids_add: "same_ids r (add_client c r)" "same_ids r (snd (claim_ghost i r))"
proof -
  have "heap (add_client c r) = heap r" by (simp add: add_client_def Let_def)
  then show "same_ids r (add_client c r)" by (simp add: same_ids_def)
qed (simp add: same_ids_def claim_ghost_def)

lemma keeps_add_client: "keeps (svc_add_client E c)"
  unfolding svc_add_client_def by (intro keeps_intros keeps_stores same_ids_add)

lemma keeps_drain: "keeps (drain_one E c i m)" "keeps (reply E c cmd d)"
  unfolding drain_one_def reply_def by (intro keeps_intros)+

text \<open>The part of a login of a new client that follows the assignment of the id.\<close>

lemma keeps_login_tail:
  "keeps (sbind (upd_registry (upd_client c (insert_title t))) (\<lambda>_.
     sbind (svc_add_client E c) (\<lambda>_. sbind (svc_get_offline_messages E i) (\<lambda>queued.
     sbind (if queued = [] then sret () else sbind (sfor queued (drain_one E c i)) (\<lambda>_. svc_clear_offline_messages E i))
       (\<lambda>_. sbind (reply E c LoginReturn d) (\<lambda>_. sret x))))))"
  unfolding svc_get_offline_messages_def svc_clear_offline_messages_def
  by (intro keeps_intros keeps_add_client keeps_stores keeps_drain) (simp add: same_ids_def insert_title_def)

end

interpretation tok: untouched w_client_shutdowns
  by unfold_locales simp_all

interpretation cid: untouched "\<lambda>w. id_of (w_registry w) c" for c
  by unfold_locales (simp_all add: same_ids_def)

lemma login_fresh_parts:
  assumes "frame_ok d" "find_some_by_id (m_source (view d)) (w_registry w) = None"
  shows "w_client_shutdowns (snd (handle_login E c d w)) = w_client_shutdowns w"
    "id_of (w_registry (snd (handle_login E c d w))) c = m_source (view d)"
proof -
  let ?w = "w\<lparr>w_registry := upd_client c (set_id (m_source (view d))) (w_registry w)\<rparr>"
  define tail where "tail = sbind (upd_registry (upd_client c (insert_title (m_title (view d))))) (\<lambda>_.
     sbind (svc_add_client E c) (\<lambda>_. sbind (svc_get_offline_messages E (m_source (view d))) (\<lambda>queued.
     sbind (if queued = [] then sret () else sbind (sfor queued (drain_one E c (m_source (view d))))
       (\<lambda>_. svc_clear_offline_messages E (m_source (view d)))) (\<lambda>_. sbind (reply E c LoginReturn d) (\<lambda>_. sret ok)))))"
  have eq: "handle_login E c d w = tail ?w"
    using assms unfolding handle_login_def tail_def
    by (simp add: srv_simps upd_registry_def)
  have "tok.keeps tail" "cid.keeps c tail"
    unfolding tail_def by (rule tok.keeps_login_tail, rule cid.keeps_login_tail)
  then show "w_client_shutdowns (snd (handle_login E c d w)) = w_client_shutdowns w"
    "id_of (w_registry (snd (handle_login E c d w))) c = m_source (view d)"
    unfolding eq tok.keeps_def cid.keeps_def by (simp_all add: set_id_def)
qed

section \<open>Properties\<close>

text \<open>
  C4: However the bytes of a connection are cut into chunks, the driver handles exactly the frames of
  the stream, in order and once each, renewing the peer's activity stamp after each, and ends with
  an empty buffer; the parse loop always has enough fuel. The frames are well formed and no larger than
  the buffer limit.
\<close>

theorem stream_handled_in_order:
  assumes "\<forall>f \<in> set fs. servable f \<and> length (content f) \<le> mx" "concat chunks = stream fs"
  shows "drive_loop E dbg c mx (map DataIn chunks) [] w = (Inr (Some []), fold (serve E c) fs w)"
  by (rule driver.read_stream[OF assms])

text \<open>
  When more than the buffer limit of an unfinished frame has arrived, the driver forgets these
  bytes and treats what follows as the start of a new frame: the rest of the connection runs as if they
  had never been sent.
\<close>

theorem oversized_frame_forgotten:
  assumes "frame_ok f" "mx < n" "n < length (content f)"
  shows "drive_loop E dbg c mx (DataIn (take n (content f)) # es) [] w = drive_loop E dbg c mx es [] w"
proof -
  have "parse_and_handle_buffer E dbg c mx (take n (content f)) w = (Inr (Some []), w)"
    using assms by (simp add: parse_and_handle_buffer_def try_deserialize_prefix sbind_def slift_def sret_def)
  then show ?thesis by (simp add: sbind_def)
qed

text \<open>
  The cancellation token of a connection is filed under the random id of its client object. Once
  the client has logged in under another id, an admin disconnect of that id finds no token, and when
  the connection ends the token is not removed either: its entry stays forever.
\<close>

theorem login_loses_token:
  assumes "frame_ok d" "m_source (view d) \<noteq> uuid" "find_some_by_id (m_source (view d)) (w_registry w) = None"
    and "dm_get (w_client_shutdowns w) (m_source (view d)) = None"
  shows "let w1 = snd (sbind (accept c uuid a s) (\<lambda>_. driver_new c) w);
      w2 = snd (handle_login E c d w1);
      w3 = snd (sbind (sget (\<lambda>w. id_of (w_registry w) c)) unregister_client_shutdown w2) in
    fst (cancel_client (m_source (view d)) w2) = Inr False
    \<and> dm_get (w_client_shutdowns w2) uuid = Some (w_next_token w)
    \<and> dm_get (w_client_shutdowns w3) uuid = Some (w_next_token w)"
proof -
  let ?w1 = "snd (sbind (accept c uuid a s) (\<lambda>_. driver_new c) w)"
  have t: "w_client_shutdowns ?w1 = dm_insert uuid (w_next_token w) (w_client_shutdowns w)"
    and n: "find_some_by_id (m_source (view d)) (w_registry ?w1) = None"
    using assms(3) by (simp_all add: accept_def driver_new_def register_client_shutdown_def srv_simps srun_def
        client_new_def set_transport_label_def find_some_by_id_def)
  note l = login_fresh_parts[OF assms(1) n, of E c]
  show ?thesis
    using assms(2,4) unfolding Let_def cancel_client_def
    by (simp add: srun_def srv_simps l t unregister_client_shutdown_def smod_def update_conv' delete_conv')
qed

section \<open>Witnesses\<close>

definition check0 :: rex_data where
  "check0 = rd_new Check ''x'' [1]"

lemma check0_ok: "frame_ok check0" "servable check0" "length (content check0) = 39"
proof -
  have f: "fits ''x'' [1]" by (simp add: fits_def)
  show "frame_ok check0" "servable check0"
    by (simp_all add: check0_def servable_def rd_new_ok[OF f])
  show "length (content check0) = 39"
    by (simp add: check0_def rd_new_def rd_new_over_def wire_consts Let_def)
qed

theorem stream_handled_in_order_witness:
  "drive_loop env0 True 0 100 (map DataIn [take 5 (content check0), [], drop 5 (content check0)]) [] world0
    = (Inr (Some []), serve env0 0 check0 world0)"
  using stream_handled_in_order[of "[check0]" 100 "[take 5 (content check0), [], drop 5 (content check0)]" env0 True 0 world0]
  by (simp add: check0_ok)

theorem oversized_frame_forgotten_witness:
  "drive_loop env0 True 0 10 [DataIn (take 20 (content check0))] [] world0 = (Inr (Some []), world0)"
  using oversized_frame_forgotten[of check0 10 20 env0 True 0 "[]" world0] by (simp add: check0_ok sret_def)

theorem login_loses_token_witness:
  "let d = reply_frame Login check0;
       w1 = snd (sbind (accept 0 7 ([127, 0, 0, 1], 5000) 3) (\<lambda>_. driver_new 0) world0);
       w2 = snd (handle_login env0 0 d w1) in
   fst (cancel_client 0 w2) = Inr False \<and> dm_get (w_client_shutdowns w2) 7 = Some 0"
proof -
  have "frame_ok (reply_frame Login check0)" "m_source (view (reply_frame Login check0)) = 0"
    using check0_ok by (simp_all add: reply_frame_ok check0_def rd_new_ok fits_def)
  then show ?thesis
    using login_loses_token[of "reply_frame Login check0" 7 world0 0 "([127, 0, 0, 1], 5000)" 3 env0]
    by (simp add: Let_def world0_def build_services_def registry_new_def find_some_by_id_def)
qed

end
