(* ===== verification/Sessions.thy ===== *)
theory Sessions
  imports Routing
begin

text \<open>
  The life of a session: what a login leaves in the registry, in the offline queue and in the
  database, what a restarted server makes of it, and what the janitor takes away.
\<close>

section \<open>The stores behind the services\<close>

lemmas store_split = option.splits prod.splits backend.splits cluster_port.splits sum.splits if_splits

text \<open>The parts of the state that an operation on a store leaves alone.\<close>

definition kept :: "'db world \<Rightarrow> 'db world \<Rightarrow> bool" where
  "kept w w' \<longleftrightarrow> w_registry w' = w_registry w \<and> w_sent w' = w_sent w \<and> w_tick w' = w_tick w \<and> w_now w' = w_now w
     \<and> w_offline w' = w_offline w \<and> w_state_store w' = w_state_store w \<and> w_config w' = w_config w \<and> w_acks w' = w_acks w"

lemma wp_state_save:
  "wp (state_save E i ts t u) (\<lambda>_ w'. kept w w' \<and> w_offline_error w' = w_offline_error w \<and> w_cluster w' = w_cluster w
     \<and> (w_state_store w = NoopStore \<longrightarrow> w_db w' = w_db w)
     \<and> (w_state_store w = SledStore \<longrightarrow> w_state_error w' = None \<longrightarrow> repo_save (e_sled E) (e_bincode E)
        \<lparr>pc_client_id = i, pc_titles = ts, pc_created_at = t, pc_ghost_until = u\<rparr> (w_db w) = (Inr (), w_db w'))) w"
  by (auto simp: state_save_def wp_simps on_repo_def on_db_def note_state_def kept_def split: store_split)

lemma wp_buffer_get:
  "w_offline w = SledStore \<Longrightarrow> wp (buffer_get E i) (\<lambda>ms w'. kept w w' \<and> w_state_error w' = w_state_error w \<and> w_cluster w' = w_cluster w
     \<and> (case w_offline_error w' of Some _ \<Rightarrow> ms = [] | None \<Rightarrow>
        get_offline_messages (e_sled E) (e_bincode E) offline_config (w_now w) i (w_db w) = (Inr ms, w_db w'))) w"
  by (auto simp: buffer_get_def wp_simps on_db_def note_offline_def kept_def split: store_split)

lemma wp_buffer_clear:
  "w_offline w = SledStore \<Longrightarrow> wp (buffer_clear E i) (\<lambda>_ w'. kept w w' \<and> w_state_error w' = w_state_error w \<and> w_cluster w' = w_cluster w
     \<and> (w_offline_error w' = None \<longrightarrow> clear_offline_messages (e_sled E) (e_bincode E) i (w_db w) = (Inr (), w_db w'))) w"
  by (auto simp: buffer_clear_def wp_simps on_db_def note_offline_def kept_def split: store_split)

text \<open>The clients tree holds one row per client, under the client's id.\<close>

definition rows_ok :: "bincode \<Rightarrow> contents \<Rightarrow> bool" where
  "rows_ok B V \<longleftrightarrow> (\<forall>k b. V T_CLIENTS k = Some b \<longrightarrow> (\<exists>p. de_client B b = Some p \<and> k = u128_le (pc_client_id p)))"

definition row :: "bincode \<Rightarrow> contents \<Rightarrow> u128 \<Rightarrow> persisted_client option" where
  "row B V i = Option.bind (V T_CLIENTS (u128_le i)) (de_client B)"

lemma rows_cong: "V T_CLIENTS = V' T_CLIENTS \<Longrightarrow> row B V = row B V' \<and> rows_ok B V = rows_ok B V'"
  by (simp add: fun_eq_iff row_def rows_ok_def)

lemma other_tree:
  assumes "\<And>t. t \<noteq> T_CLIENTS \<Longrightarrow> V' t = V t"
  shows "queue_of B V' = queue_of B V" "queues_ok B V' = queues_ok B V"
proof -
  have "V' T_OFFLINE_INDEX = V T_OFFLINE_INDEX" "V' T_OFFLINE_QUEUE = V T_OFFLINE_QUEUE"
    using assms by simp_all
  then have "index_ids B V' = index_ids B V" "stored B V' = stored B V" "V' T_OFFLINE_INDEX = V T_OFFLINE_INDEX"
    by (simp_all add: fun_eq_iff index_ids_def stored_def)
  then show "queue_of B V' = queue_of B V" "queues_ok B V' = queues_ok B V"
    by (simp_all add: fun_eq_iff queue_of_def queues_ok_def)
qed

lemma saved_row:
  assumes "sled_db S v" "bincode_ok B" "repo_save S B p db = (Inr (), db')"
  shows "row B (v db') = (row B (v db))(pc_client_id p \<mapsto> p)" "rows_ok B (v db) \<Longrightarrow> rows_ok B (v db')"
    "queue_of B (v db') = queue_of B (v db)" "queues_ok B (v db') = queues_ok B (v db)"
proof -
  from sled_db.save_ok[OF assms] obtain b where
    V: "v db' = v_put T_CLIENTS (u128_le (pc_client_id p)) b (v db)" and b: "de_client B b = Some p" by blast
  show "row B (v db') = (row B (v db))(pc_client_id p \<mapsto> p)"
    by (simp add: fun_eq_iff row_def V v_at b)
  show "rows_ok B (v db) \<Longrightarrow> rows_ok B (v db')"
    using b by (auto simp: rows_ok_def V v_at split: if_splits)
  show "queue_of B (v db') = queue_of B (v db)" "queues_ok B (v db') = queues_ok B (v db)"
    by (rule other_tree; simp add: V v_put_def)+
qed

section \<open>Login\<close>

text \<open>The frames of the queued messages that get through, in order.\<close>

fun drained :: "'db env \<Rightarrow> sender_ref \<Rightarrow> u128 \<Rightarrow> nat \<Rightarrow> offline_message list \<Rightarrow> (sender_ref \<times> bytes) list" where
  "drained E s i k [] = []"
| "drained E s i k (m # ms) = log_send E k s (content (drain_frame i m)) @ drained E s i (Suc k) ms"

lemma wp_drain:
  assumes "\<And>r'. quiet (w_registry w) r' \<Longrightarrow> Q () (w\<lparr>w_registry := r', w_tick := w_tick w + length ms,
      w_sent := w_sent w @ drained E (cl_sender (w_heap w c)) i (w_tick w) ms\<rparr>)"
  shows "wp (sfor ms (drain_one E c i)) Q w"
  using assms
proof (induction ms arbitrary: w)
  case Nil
  have "w\<lparr>w_registry := w_registry w, w_tick := w_tick w + length [], w_sent := w_sent w @ []\<rparr> = w" by simp
  then show ?case using Nil[OF quiet_refl] by (simp add: wp_simps)
next
  case (Cons m ms)
  have "wp (send_buf E c (content (drain_frame i m))) (\<lambda>_. wp (sfor ms (drain_one E c i)) Q) w"
  proof (rule wp_send_buf, rule Cons(1))
    fix r1 r2
    let ?w1 = "w\<lparr>w_registry := r1, w_tick := Suc (w_tick w),
      w_sent := w_sent w @ log_send E (w_tick w) (cl_sender (w_heap w c)) (content (drain_frame i m))\<rparr>"
    assume q1: "quiet (w_registry w) r1" and q2: "quiet (w_registry ?w1) r2"
    have "quiet (w_registry w) r2" using q1 q2 by (auto intro: quiet_trans)
    from Cons(2)[OF this] q1 show "Q () (?w1\<lparr>w_registry := r2, w_tick := w_tick ?w1 + length ms,
        w_sent := w_sent ?w1 @ drained E (cl_sender (w_heap ?w1 c)) i (w_tick ?w1) ms\<rparr>)"
      by (simp add: quiet_fields)
  qed
  then show ?case by (simp add: wp_simps drain_one_def[of E c i m] drain_frame_eq sbind_slift)
qed

text \<open>The registry in which the connection \<open>c\<close> has become client \<open>i\<close> with the title \<open>t\<close>, and its row.\<close>

definition joined :: "u128 \<Rightarrow> string \<Rightarrow> cref \<Rightarrow> registry \<Rightarrow> registry" where
  "joined i t c r = add_client c (snd (claim_ghost i (upd_client c (insert_title t) (upd_client c (set_id i) r))))"

definition login_row :: "u128 \<Rightarrow> string \<Rightarrow> cref \<Rightarrow> 'db world \<Rightarrow> persisted_client" where
  "login_row i t c w = \<lparr>pc_client_id = i, pc_titles = cl_titles (insert_title t (set_id i (w_heap w c))),
     pc_created_at = w_now w, pc_ghost_until = sat_add (w_now w) (sc_ghost_ttl_secs (w_config w))\<rparr>"

text \<open>What is left in the stores, and what was sent, when both stores report no error.\<close>

definition login_stored :: "'db env \<Rightarrow> ('db \<Rightarrow> contents) \<Rightarrow> u128 \<Rightarrow> string \<Rightarrow> cref \<Rightarrow> rex_data \<Rightarrow> 'db world \<Rightarrow> 'db world \<Rightarrow> bool" where
  "login_stored E v i t c d w w' \<longleftrightarrow>
     (let B = e_bincode E; q = queue_of B (v (w_db w)); s = cl_sender (w_heap w c);
          ms = filter (\<lambda>m. \<not> is_expired (w_now w) (message_ttl offline_config) m) (q i) in
      row B (v (w_db w')) = (row B (v (w_db w)))(i \<mapsto> login_row i t c w) \<and> rows_ok B (v (w_db w'))
      \<and> queues_ok B (v (w_db w')) \<and> queue_of B (v (w_db w')) = (if ms = [] then q else q(i := []))
      \<and> w_sent w' = w_sent w @ drained E s i (w_tick w) ms
          @ log_send E (w_tick w + length ms) s (content (reply_frame LoginReturn d)))"

lemma wp_add_client:
  "wp (svc_add_client E c) (\<lambda>_ w'. w_registry w' = add_client c (snd (claim_ghost (id_of (w_registry w) c) (w_registry w)))
     \<and> kept (w\<lparr>w_registry := w_registry w'\<rparr>) w' \<and> w_offline_error w' = w_offline_error w
     \<and> (w_state_store w = SledStore \<longrightarrow> w_state_error w' = None \<longrightarrow> repo_save (e_sled E) (e_bincode E)
        \<lparr>pc_client_id = id_of (w_registry w) c, pc_titles = titles_of (w_registry w) c, pc_created_at = w_now w,
         pc_ghost_until = sat_add (w_now w) (sc_ghost_ttl_secs (w_config w))\<rparr> (w_db w) = (Inr (), w_db w'))) w"
  by (cases "w_cluster w"; simp add: svc_add_client_def wp_simps on_registry_def upd_registry_def port_register_client_def
      case_prod_unfold; rule wp_mono[OF wp_state_save]; simp add: kept_def claim_ghost_def)

text \<open>The drain of the queue: read, send, clear.\<close>

lemma wp_queue:
  assumes on: "w_offline w = SledStore"
  shows "wp (svc_get_offline_messages E i) (\<lambda>queued. wp (if queued = [] then sret ()
      else sbind (sfor queued (drain_one E c i)) (\<lambda>_. svc_clear_offline_messages E i))
    (\<lambda>_ w'. \<exists>ms. quiet (w_registry w) (w_registry w') \<and> w_state_error w' = w_state_error w \<and> w_tick w' = w_tick w + length ms
      \<and> w_sent w' = w_sent w @ drained E (cl_sender (w_heap w c)) i (w_tick w) ms
      \<and> (w_offline_error w' = None \<longrightarrow> (\<exists>db. get_offline_messages (e_sled E) (e_bincode E) offline_config (w_now w) i (w_db w) = (Inr ms, db)
        \<and> (if ms = [] then w_db w' = db else clear_offline_messages (e_sled E) (e_bincode E) i db = (Inr (), w_db w')))))) w"
  unfolding svc_get_offline_messages_def
proof (rule wp_mono[OF wp_buffer_get[OF on]], goal_cases)
  case (1 ms w1)
  then have k: "kept w w1" "w_state_error w1 = w_state_error w" and g: "case w_offline_error w1 of Some _ \<Rightarrow> ms = [] | None \<Rightarrow>
        get_offline_messages (e_sled E) (e_bincode E) offline_config (w_now w) i (w_db w) = (Inr ms, w_db w1)" by auto
  show ?case
  proof (cases "ms = []")
    case True
    then show ?thesis
      using k g by (auto simp: wp_simps kept_def split: option.splits intro!: exI[where x = "[]"])
  next
    case False
    let ?w2 = "\<lambda>r. w1\<lparr>w_registry := r, w_tick := w_tick w1 + length ms,
      w_sent := w_sent w1 @ drained E (cl_sender (w_heap w1 c)) i (w_tick w1) ms\<rparr>"
    have on1: "w_offline (?w2 r) = SledStore" for r using k on by (simp add: kept_def)
    have gm: "get_offline_messages (e_sled E) (e_bincode E) offline_config (w_now w) i (w_db w) = (Inr ms, w_db w1)"
      using g False by (simp split: option.splits)
    have "wp (sfor ms (drain_one E c i)) (\<lambda>_. wp (svc_clear_offline_messages E i) (\<lambda>_ w'. quiet (w_registry w) (w_registry w')
        \<and> w_state_error w' = w_state_error w \<and> w_tick w' = w_tick w + length ms
        \<and> w_sent w' = w_sent w @ drained E (cl_sender (w_heap w c)) i (w_tick w) ms
        \<and> (w_offline_error w' = None \<longrightarrow> clear_offline_messages (e_sled E) (e_bincode E) i (w_db w1) = (Inr (), w_db w')))) w1"
      unfolding svc_clear_offline_messages_def
      by (rule wp_drain, rule wp_mono[OF wp_buffer_clear[OF on1]]) (use k in \<open>simp add: kept_def\<close>)
    from this have "wp (sfor ms (drain_one E c i)) (\<lambda>_. wp (svc_clear_offline_messages E i) (\<lambda>_ w'. \<exists>ms. quiet (w_registry w) (w_registry w')
      \<and> w_state_error w' = w_state_error w \<and> w_tick w' = w_tick w + length ms
      \<and> w_sent w' = w_sent w @ drained E (cl_sender (w_heap w c)) i (w_tick w) ms
      \<and> (w_offline_error w' = None \<longrightarrow> (\<exists>db. get_offline_messages (e_sled E) (e_bincode E) offline_config (w_now w) i (w_db w) = (Inr ms, db)
        \<and> (if ms = [] then w_db w' = db else clear_offline_messages (e_sled E) (e_bincode E) i db = (Inr (), w_db w')))))) w1"
      by (rule wp_mono) (erule wp_mono, use gm False in auto)
    then show ?thesis using False by (simp add: wp_simps)
  qed
qed

text \<open>The database after a login without errors.\<close>

lemma login_db:
  assumes S: "sled_db (e_sled E) v" and B: "bincode_ok (e_bincode E)"
    and V: "queues_ok (e_bincode E) (v (w_db w))" "rows_ok (e_bincode E) (v (w_db w))"
    and run: "repo_save (e_sled E) (e_bincode E) p (w_db w) = (Inr (), db1)"
      "get_offline_messages (e_sled E) (e_bincode E) offline_config now i db1 = (Inr ms, db2)"
      "if ms = [] then db3 = db2 else clear_offline_messages (e_sled E) (e_bincode E) i db2 = (Inr (), db3)"
  shows "ms = filter (\<lambda>m. \<not> is_expired now (message_ttl offline_config) m) (queue_of (e_bincode E) (v (w_db w)) i)"
    "row (e_bincode E) (v db3) = (row (e_bincode E) (v (w_db w)))(pc_client_id p \<mapsto> p)" "rows_ok (e_bincode E) (v db3)"
    "queues_ok (e_bincode E) (v db3)" "queue_of (e_bincode E) (v db3) = (if ms = [] then queue_of (e_bincode E) (v (w_db w))
      else (queue_of (e_bincode E) (v (w_db w)))(i := []))"
proof -
  let ?B = "e_bincode E"
  note s = saved_row[OF S B run(1)]
  have q1: "queues_ok ?B (v db1)" using s(4) V(1) by simp
  note g = sled_db.get_messages_ok[OF S q1 run(2)]
  show "ms = filter (\<lambda>m. \<not> is_expired now (message_ttl offline_config) m) (queue_of ?B (v (w_db w)) i)"
    using g s(3) by simp
  have q2: "queues_ok ?B (v db2)" using q1 g by simp
  have t: "v db3 T_CLIENTS = v db2 T_CLIENTS"
    using run(3) sled_db.clear_messages_other[OF S] by (cases "ms = []") auto
  show "row ?B (v db3) = (row ?B (v (w_db w)))(pc_client_id p \<mapsto> p)" "rows_ok ?B (v db3)"
    using s(1) s(2)[OF V(2)] rows_cong[of "v db3" "v db1"] by (simp_all add: t g(1))
  show "queues_ok ?B (v db3)" "queue_of ?B (v db3) = (if ms = [] then queue_of ?B (v (w_db w))
      else (queue_of ?B (v (w_db w)))(i := []))"
    using run(3) q2 sled_db.clear_messages_ok[OF S q2] s(3) g(1) by (cases "ms = []"; simp)+
qed

lemma login_wp:
  assumes S: "sled_db (e_sled E) v" and B: "bincode_ok (e_bincode E)"
    and V: "queues_ok (e_bincode E) (v (w_db w))" "rows_ok (e_bincode E) (v (w_db w))"
    and f: "frame_ok d" and new: "find_some_by_id (m_source (view d)) (w_registry w) = None"
    and on: "w_offline w = SledStore" "w_state_store w = SledStore"
  shows "wp (handle_login E c d) (\<lambda>x w'. x = ok
    \<and> quiet (joined (m_source (view d)) (m_title (view d)) c (w_registry w)) (w_registry w')
    \<and> (w_offline_error w' = None \<longrightarrow> w_state_error w' = None \<longrightarrow>
        login_stored E v (m_source (view d)) (m_title (view d)) c d w w')) w"
proof -
  let ?i = "m_source (view d)" and ?t = "m_title (view d)"
  let ?r = "upd_client c (insert_title ?t) (upd_client c (set_id ?i) (w_registry w))"
  let ?Q = "\<lambda>x w'. x = ok \<and> quiet (joined ?i ?t c (w_registry w)) (w_registry w')
    \<and> (w_offline_error w' = None \<longrightarrow> w_state_error w' = None \<longrightarrow> login_stored E v ?i ?t c d w w')"
  have id: "id_of ?r c = ?i" by (simp add: set_id_def insert_title_def)
  have "wp (svc_add_client E c) (\<lambda>_. wp (svc_get_offline_messages E ?i) (\<lambda>queued. wp (if queued = [] then sret ()
      else sbind (sfor queued (drain_one E c ?i)) (\<lambda>_. svc_clear_offline_messages E ?i))
      (\<lambda>_. wp (reply E c LoginReturn d) (\<lambda>_. ?Q ok)))) (w\<lparr>w_registry := ?r\<rparr>)"
  proof (rule wp_mono[OF wp_add_client], goal_cases)
    case (1 x w1)
    then have k: "w_registry w1 = joined ?i ?t c (w_registry w)" "kept (w\<lparr>w_registry := w_registry w1\<rparr>) w1"
      and sv: "w_state_error w1 = None \<Longrightarrow> repo_save (e_sled E) (e_bincode E) (login_row ?i ?t c w) (w_db w) = (Inr (), w_db w1)"
      using on by (auto simp: joined_def id login_row_def set_id_def insert_title_def)
    have on1: "w_offline w1 = SledStore" using k on by (simp add: kept_def)
    have snd1: "cl_sender (w_heap w1 c) = cl_sender (w_heap w c)"
      by (simp add: k joined_def claim_ghost_def set_id_def insert_title_def)
    show ?case
    proof (rule wp_mono[OF wp_queue[OF on1]], rule wp_mono, assumption, goal_cases)
      case (1 q wq y w2)
      from 1(2) obtain ms where w2: "quiet (w_registry w1) (w_registry w2)" "w_state_error w2 = w_state_error w1"
        "w_tick w2 = w_tick w1 + length ms" "w_sent w2 = w_sent w1 @ drained E (cl_sender (w_heap w1 c)) ?i (w_tick w1) ms"
        and db: "w_offline_error w2 = None \<longrightarrow> (\<exists>db. get_offline_messages (e_sled E) (e_bincode E) offline_config (w_now w1) ?i (w_db w1)
          = (Inr ms, db) \<and> (if ms = [] then w_db w2 = db else clear_offline_messages (e_sled E) (e_bincode E) ?i db = (Inr (), w_db w2)))"
        by (elim exE conjE) (rule that)
      have w1: "w_now w1 = w_now w" "w_tick w1 = w_tick w" "w_sent w1 = w_sent w" using k(2) by (simp_all add: kept_def)
      have "login_stored E v ?i ?t c d w (w2\<lparr>w_registry := r, w_tick := Suc (w_tick w2), w_sent := w_sent w2
          @ log_send E (w_tick w2) (cl_sender (w_heap w2 c)) (content (reply_frame LoginReturn d))\<rparr>)"
        if no: "w_offline_error w2 = None" "w_state_error w2 = None" for r
      proof -
        have sv1: "repo_save (e_sled E) (e_bincode E) (login_row ?i ?t c w) (w_db w) = (Inr (), w_db w1)"
          using sv w2(2) no(2) by simp
        obtain db where g: "get_offline_messages (e_sled E) (e_bincode E) offline_config (w_now w) ?i (w_db w1) = (Inr ms, db)"
          "if ms = [] then w_db w2 = db else clear_offline_messages (e_sled E) (e_bincode E) ?i db = (Inr (), w_db w2)"
          using db no(1) w1 by auto
        note r = login_db[OF S B V sv1 g]
        have "pc_client_id (login_row ?i ?t c w) = ?i" by (simp add: login_row_def)
        then show ?thesis
          unfolding login_stored_def Let_def r(1)[symmetric]
          using r(2-5) w2 w1 snd1 by (simp add: quiet_fields)
      qed
      then show ?case
        unfolding wp_reply[OF f] using w2(1) by (intro wp_send_buf) (auto simp: k intro: quiet_trans)
    qed
  qed
  then show ?thesis
    using f new unfolding handle_login_def
    by (simp add: wp_simps sbind_slift upd_registry_def)
qed

lemma login_run:
  assumes "sled_db (e_sled E) v" "bincode_ok (e_bincode E)"
    and "queues_ok (e_bincode E) (v (w_db w))" "rows_ok (e_bincode E) (v (w_db w))"
    and "frame_ok d" "find_some_by_id (m_source (view d)) (w_registry w) = None"
    and "w_offline w = SledStore" "w_state_store w = SledStore"
  obtains w' where "handle_login E c d w = (Inr ok, w')"
    "quiet (joined (m_source (view d)) (m_title (view d)) c (w_registry w)) (w_registry w')"
    "w_offline_error w' = None \<longrightarrow> w_state_error w' = None \<longrightarrow>
      login_stored E v (m_source (view d)) (m_title (view d)) c d w w'"
proof -
  from login_wp[OF assms, of c] obtain x w' where "handle_login E c d w = (Inr x, w')" "x = ok
      \<and> quiet (joined (m_source (view d)) (m_title (view d)) c (w_registry w)) (w_registry w')
      \<and> (w_offline_error w' = None \<longrightarrow> w_state_error w' = None \<longrightarrow>
        login_stored E v (m_source (view d)) (m_title (view d)) c d w w')"
    unfolding wp_result by (elim exE conjE) (rule that, simp_all)
  then show ?thesis by (intro that[of w']) simp_all
qed

text \<open>A login under an id that is connected changes the connected client's object and answers; that is all.\<close>

definition relogged :: "string \<Rightarrow> cref \<Rightarrow> cref \<Rightarrow> registry \<Rightarrow> registry" where
  "relogged t c x r = upd_client x (insert_title t) (upd_client x (set_sender (cl_sender (heap r c))) r)"

lemma relogin_run:
  assumes "frame_ok d" "find_some_by_id (m_source (view d)) (w_registry w) = Some x"
  obtains w' where "handle_login E c d w = (Inr ok, w')" "w_db w' = w_db w"
    "quiet (relogged (m_title (view d)) c x (w_registry w)) (w_registry w')"
    "w_sent w' = w_sent w @ log_send E (w_tick w) (cl_sender (w_heap w c)) (content (reply_frame LoginReturn d))"
proof -
  have "wp (handle_login E c d) (\<lambda>r w'. r = ok \<and> w_db w' = w_db w
    \<and> quiet (relogged (m_title (view d)) c x (w_registry w)) (w_registry w')
    \<and> w_sent w' = w_sent w @ log_send E (w_tick w) (cl_sender (w_heap w c)) (content (reply_frame LoginReturn d))) w"
    using assms by (simp add: handle_login_def wp_simps sbind_slift upd_registry_def wp_reply)
      (rule wp_send_buf, simp add: relogged_def insert_title_def set_sender_def)
  then show thesis unfolding wp_result by (elim exE conjE) (rule that, simp_all)
qed

text \<open>Changing the object of a connection that is not logged in does not concern the registry.\<close>

lemma fresh_upd_ok:
  assumes ok: "reg_ok r" and c: "\<forall>i. dm_get (id2client r) i \<noteq> Some c"
  shows "reg_ok (upd_client c f r)"
proof -
  have reg: "registered (upd_client c f r) x \<longleftrightarrow> registered r x" for x
    using c by (auto simp: registered_def)
  have x: "registered r x \<Longrightarrow> x \<noteq> c" for x using c by (auto simp: registered_def)
  show ?thesis
  proof (rule reg_okI, unfold reg upd_client_frame subscribers_upd_client)
    show "dm_get (id2client r) i = Some y \<Longrightarrow> cl_id (((heap r)(c := f (heap r c))) y) = i" for i y
      using reg_okD(1)[OF ok, of i y] c by auto
    show "registered r y \<Longrightarrow> t \<in> set (cl_titles (((heap r)(c := f (heap r c))) y)) \<Longrightarrow> atomic t" for y t
      using reg_okD(2)[OF ok, of y t] x[of y] by auto
    show "y \<in> set (subscribers r t) \<longleftrightarrow> registered r y \<and> t \<in> set (cl_titles (((heap r)(c := f (heap r c))) y))" for y t
      using reg_okD(4)[OF ok, of y t] x[of y] by auto
  qed (use reg_ok_maps[OF ok] reg_okD(3)[OF ok] ok in \<open>auto simp: reg_ok_def\<close>)
qed

lemma claim_ghost_ok: "reg_ok r \<Longrightarrow> reg_ok (snd (claim_ghost i r))" "subs (snd (claim_ghost i r)) = subs r"
  by (simp_all add: reg_ok_def claim_ghost_def registered_def subscribers_def subs_def fun_eq_iff)

lemma joined_ok:
  assumes ok: "reg_ok r" and c: "\<forall>i. dm_get (id2client r) i \<noteq> Some c" and new: "dm_get (id2client r) i = None"
    and t: "\<forall>x \<in> set (titles_of r c). atomic x"
  shows "reg_ok (joined i t c r)" "subs (joined i t c r) = (subs r)(i \<mapsto> set (titles_of r c) \<union> set (title_parts t))"
proof -
  let ?r = "upd_client c (insert_title t) (upd_client c (set_id i) r)"
  have 1: "reg_ok (snd (claim_ghost i ?r))"
    using fresh_upd_ok[OF fresh_upd_ok[OF ok c]] c by (intro claim_ghost_ok) simp
  have 2: "id_of (snd (claim_ghost i ?r)) c = i" "id2client (snd (claim_ghost i ?r)) = id2client r"
    "set (titles_of (snd (claim_ghost i ?r)) c) = set (titles_of r c) \<union> set (title_parts t)"
    by (simp_all add: claim_ghost_def set_id_def insert_title_set)
  show "reg_ok (joined i t c r)"
    unfolding joined_def by (rule add_client_ok[OF 1]) (use 2 new t in \<open>auto dest: title_parts_atomic\<close>)
  have "subs ?r x = subs r x" for x using c by (cases "dm_get (id2client r) x") (auto simp: subs_def)
  then show "subs (joined i t c r) = (subs r)(i \<mapsto> set (titles_of r c) \<union> set (title_parts t))"
    unfolding joined_def subs_add_client 2 claim_ghost_ok by (simp add: fun_eq_iff)
qed

section \<open>Restart\<close>

text \<open>The rows after a login: one more, or another, for an id that was not connected.\<close>

definition rows_after_login :: "'db env \<Rightarrow> ('db \<Rightarrow> contents) \<Rightarrow> cref \<Rightarrow> rex_data \<Rightarrow> 'db world \<Rightarrow> u128 \<Rightarrow> persisted_client option" where
  "rows_after_login E v c d w = (let i = m_source (view d); R = row (e_bincode E) (v (w_db w)) in
     if find_some_by_id i (w_registry w) = None then R(i \<mapsto> login_row i (m_title (view d)) c w) else R)"

lemma login_rows:
  assumes "sled_db (e_sled E) v" "bincode_ok (e_bincode E)"
    and "queues_ok (e_bincode E) (v (w_db w))" "rows_ok (e_bincode E) (v (w_db w))"
    and "frame_ok d" "w_offline w = SledStore" "w_state_store w = SledStore"
  obtains w1 where "handle_login E c d w = (Inr ok, w1)" "w_offline_error w1 = None \<longrightarrow> w_state_error w1 = None \<longrightarrow>
      row (e_bincode E) (v (w_db w1)) = rows_after_login E v c d w \<and> rows_ok (e_bincode E) (v (w_db w1))"
proof (cases "find_some_by_id (m_source (view d)) (w_registry w)")
  case None
  show thesis
  proof (rule login_run[OF assms(1-5) None assms(6,7), of c], goal_cases)
    case (1 w1)
    show ?case by (rule that[OF 1(1)]) (use 1(3) None in \<open>simp add: login_stored_def Let_def rows_after_login_def\<close>)
  qed
next
  case (Some x)
  show thesis
    by (rule relogin_run[OF assms(5) Some, of E c], rule that)
      (use assms(4) Some in \<open>auto simp: rows_after_login_def Let_def\<close>)
qed

lemma read_rows_ok:
  "read_rows B es = Inr ps \<Longrightarrow> \<exists>rs. es = map (\<lambda>(k, b, p). Inr (k, b)) rs \<and> ps = map (snd \<circ> snd) rs
     \<and> (\<forall>(k, b, p) \<in> set rs. de_client B b = Some p)"
proof (induction es arbitrary: ps)
  case (Cons e es)
  then obtain k b p qs where 1: "e = Inr (k, b)" "de_client B b = Some p" "read_rows B es = Inr qs" "ps = p # qs"
    by (auto simp: rbind_def split: sum.splits option.splits)
  from Cons.IH[OF 1(3)] obtain rs where "es = map (\<lambda>(k, b, p). Inr (k, b)) rs" "qs = map (snd \<circ> snd) rs"
    "\<forall>(k, b, p) \<in> set rs. de_client B b = Some p" by blast
  with 1 show ?case by (intro exI[where x = "(k, b, p) # rs"]) simp
qed simp

lemma load_all_ok:
  assumes S: "sled_db S v" and ok: "rows_ok B (v db)" and run: "repo_load_all S B db = (Inr ps, db')"
  shows "v db' = v db" "map_of (map (\<lambda>p. (pc_client_id p, p)) ps) i = row B (v db) i"
proof -
  obtain db1 where 1: "sl_open_tree S T_CLIENTS db = (Inr (), db1)" "db' = db1" "read_rows B (sl_iter S T_CLIENTS db1) = Inr ps"
    using run by (auto simp: repo_load_all_def store_ok)
  show V: "v db' = v db" using sled_db.open_ok[OF S 1(1)] 1(2) by simp
  obtain rs where rs: "sl_iter S T_CLIENTS db1 = map (\<lambda>(k, b, p). Inr (k, b)) rs" "ps = map (snd \<circ> snd) rs"
    "\<forall>(k, b, p) \<in> set rs. de_client B b = Some p" using read_rows_ok[OF 1(3)] by blast
  have row: "(k, b, p) \<in> set rs \<Longrightarrow> v db T_CLIENTS k = Some b \<and> de_client B b = Some p \<and> k = u128_le (pc_client_id p)" for k b p
  proof -
    assume m: "(k, b, p) \<in> set rs"
    then have "Inr (k, b) \<in> set (sl_iter S T_CLIENTS db1)" by (force simp: rs(1))
    from sled_db.iter_sound[OF S this] have b: "v db T_CLIENTS k = Some b" using V 1(2) by simp
    moreover have p: "de_client B b = Some p" using rs(3) m by auto
    ultimately show ?thesis using ok unfolding rows_ok_def by fastforce
  qed
  have all: "v db T_CLIENTS k = Some b \<Longrightarrow> \<exists>p. (k, b, p) \<in> set rs" for k b
    using sled_db.iter_complete[OF S, of T_CLIENTS db1 k b] rs(1) V 1(2) by force
  have "filter (Not \<circ> isl) (sl_iter S T_CLIENTS db1) = sl_iter S T_CLIENTS db1"
    by (auto simp: rs(1) filter_id_conv)
  then have "distinct (map fst rs)"
    using sled_db.iter_distinct[OF S, of T_CLIENTS db1] by (simp add: rs(1) o_def case_prod_unfold)
  moreover have "map fst rs = map u128_le (map (pc_client_id \<circ> snd \<circ> snd) rs)" using row by auto
  ultimately have d: "distinct (map fst (map (\<lambda>p. (pc_client_id p, p)) ps))"
    by (simp add: rs(2) o_def distinct_map inj_on_def)
  have "map_of (map (\<lambda>p. (pc_client_id p, p)) ps) i = Some p \<longleftrightarrow> row B (v db) i = Some p" for p
    unfolding map_of_eq_Some_iff[OF d] using row all by (force simp: rs(2) row_def bind_eq_Some_conv)
  then show "map_of (map (\<lambda>p. (pc_client_id p, p)) ps) i = row B (v db) i"
    by (cases "row B (v db) i"; cases "map_of (map (\<lambda>p. (pc_client_id p, p)) ps) i") force+
qed

text \<open>The entries become ghosts, the first one of an id.\<close>

definition ghost_of :: "restored_client \<Rightarrow> string list \<times> u64" where
  "ghost_of e = (rc_titles e, rc_ghost_until e)"

lemma wp_restore_all:
  assumes "id2client (w_registry w) = []" "ghosts (w_registry w) = []"
  shows "wp (sfor es (\<lambda>entry. sbind (on_registry (add_ghost (rc_client_id entry) (rc_titles entry) (rc_ghost_until entry)))
      (\<lambda>r. case r of Inl _ \<Rightarrow> sret () | Inr _ \<Rightarrow> port_register_client (rc_client_id entry))))
    (\<lambda>_ w'. id2client (w_registry w') = [] \<and> w_state_error w' = w_state_error w
      \<and> (\<forall>i. dm_get (ghosts (w_registry w')) i = map_of (map (\<lambda>e. (rc_client_id e, ghost_of e)) es) i)) w"
  by (rule wp_sfor[where I = "\<lambda>ys w'. id2client (w_registry w') = [] \<and> w_state_error w' = w_state_error w
      \<and> (\<forall>i. dm_get (ghosts (w_registry w')) i = map_of (map (\<lambda>e. (rc_client_id e, ghost_of e)) ys) i)"])
    (use assms in \<open>auto simp: wp_simps on_registry_def add_ghost_def port_register_client_def ghost_of_def map_add_def
      update_conv split: store_split\<close>)

lemma safe_restore: "\<exists>w'. restore_ghosts E w = (Inr (), w')"
proof -
  have "returns (restore_ghosts E)"
    unfolding restore_ghosts_def state_load_all_def on_repo_def on_db_def note_state_def on_registry_def port_register_client_def
    by (intro safe_intros TrueI)
  then show ?thesis unfolding safe_def wp_result by auto
qed

lemma restore_wp:
  assumes S: "sled_db (e_sled E) v" and ok: "rows_ok (e_bincode E) (v (w_db w))"
    and w: "id2client (w_registry w) = []" "ghosts (w_registry w) = []" "w_state_store w = SledStore" "w_repo_open w"
      "sc_persistence_enabled (w_config w)"
  shows "wp (restore_ghosts E) (\<lambda>_ w'. w_state_error w' = None \<longrightarrow> (\<forall>i. dm_get (ghosts (w_registry w')) i
    = map_option (\<lambda>p. (pc_titles p, pc_ghost_until p)) (row (e_bincode E) (v (w_db w)) i))) w"
proof -
  let ?Q = "\<lambda>_ w'. w_state_error w' = None \<longrightarrow> (\<forall>i. dm_get (ghosts (w_registry w')) i
    = map_option (\<lambda>p. (pc_titles p, pc_ghost_until p)) (row (e_bincode E) (v (w_db w)) i))"
  let ?body = "\<lambda>entry. sbind (on_registry (add_ghost (rc_client_id entry) (rc_titles entry) (rc_ghost_until entry)))
      (\<lambda>r. case r of Inl _ \<Rightarrow> sret () | Inr _ \<Rightarrow> port_register_client (rc_client_id entry))"
  obtain r db where run: "repo_load_all (e_sled E) (e_bincode E) (w_db w) = (r, db)" by fastforce
  show ?thesis
  proof (cases r)
    case (Inl e)
    then show ?thesis
      using w run by (simp add: restore_ghosts_def wp_simps state_load_all_def on_repo_def on_db_def note_state_def)
  next
    case (Inr ps)
    let ?w1 = "w\<lparr>w_db := db, w_state_error := None\<rparr>"
    have "wp (sfor (map restored_from ps) ?body) ?Q ?w1"
    proof (rule wp_mono[OF wp_restore_all])
      show "?Q x w'" if "id2client (w_registry w') = [] \<and> w_state_error w' = w_state_error ?w1 \<and>
        (\<forall>i. dm_get (ghosts (w_registry w')) i = map_of (map (\<lambda>e. (rc_client_id e, ghost_of e)) (map restored_from ps)) i)" for x w'
      proof -
        have "map_of (map (\<lambda>e. (rc_client_id e, ghost_of e)) (map restored_from ps)) i
            = map_option (\<lambda>p. (pc_titles p, pc_ghost_until p)) (map_of (map (\<lambda>p. (pc_client_id p, p)) ps) i)" for i
          by (induction ps) (auto simp: restored_from_def ghost_of_def)
        then show ?thesis using that load_all_ok(2)[OF S ok run[unfolded Inr]] by simp
      qed
    qed (use w in simp_all)
    then show ?thesis
      using w run Inr by (simp add: restore_ghosts_def wp_simps state_load_all_def on_repo_def on_db_def note_state_def)
  qed
qed

section \<open>The janitor\<close>

definition idle :: "u64 \<Rightarrow> 'db world \<Rightarrow> u128 \<Rightarrow> bool" where
  "idle timeout w i \<longleftrightarrow> (\<exists>c. find_some_by_id i (w_registry w) = Some c \<and> timeout < sat_sub (w_now w) (cl_last_recv (w_heap w c)))"

text \<open>What a sweep over the clients \<open>is\<close> leaves.\<close>

definition swept :: "u128 list \<Rightarrow> 'db world \<Rightarrow> 'db world \<Rightarrow> bool" where
  "swept is w w' \<longleftrightarrow> reg_ok (w_registry w') \<and> heap (w_registry w') = heap (w_registry w)
     \<and> subs (w_registry w') = (\<lambda>i. if i \<in> set is then None else subs (w_registry w) i)
     \<and> (\<forall>i. i \<notin> set is \<longrightarrow> find_some_by_id i (w_registry w') = find_some_by_id i (w_registry w))
     \<and> w_closed w' = w_closed w @ map (\<lambda>i. cl_sender (w_heap w (the (find_some_by_id i (w_registry w))))) is
     \<and> w_db w' = w_db w \<and> w_cluster w' = w_cluster w \<and> w_sent w' = w_sent w \<and> w_acks w' = w_acks w"

lemma take_inactive_ids:
  assumes "reg_ok (w_registry w)"
  shows "distinct (take_inactive (w_now w) t (w_registry w))"
    "i \<in> set (take_inactive (w_now w) t (w_registry w)) \<longleftrightarrow> idle t w i"
proof -
  have d: "dm_ok (id2client (w_registry w))" using assms by (simp add: reg_ok_def)
  then show "distinct (take_inactive (w_now w) t (w_registry w))"
    by (simp add: take_inactive_def dm_ok_def distinct_map_filter)
  show "i \<in> set (take_inactive (w_now w) t (w_registry w)) \<longleftrightarrow> idle t w i"
    using dm_mem_get[OF d] by (force simp: take_inactive_def idle_def find_some_by_id_def)
qed

lemma inactive_wp:
  assumes ok: "reg_ok (w_registry w)"
  shows "wp (cleanup_inactive_clients t) (\<lambda>_. swept (take_inactive (w_now w) t (w_registry w)) w) w"
proof -
  let ?is = "take_inactive (w_now w) t (w_registry w)"
  have "wp (sfor ?is (\<lambda>client_id. sbind (on_registry (remove_client client_id)) (\<lambda>r. case r of
      None \<Rightarrow> sret () | Some client \<Rightarrow> client_close client))) (\<lambda>_. swept ?is w) w"
  proof (rule wp_sfor[where I = "\<lambda>ys. swept ys w"])
    show "swept [] w w" using ok by (simp add: swept_def)
    fix ys x zs w1
    assume split: "?is = ys @ x # zs" and I: "swept ys w w1"
    have "x \<notin> set ys" using take_inactive_ids(1)[OF ok, of t] by (simp add: split)
    moreover have "idle t w x" using take_inactive_ids(2)[OF ok, of x t] by (simp add: split)
    ultimately obtain c where c: "find_some_by_id x (w_registry w) = Some c" "find_some_by_id x (w_registry w1) = Some c"
      using I by (auto simp: idle_def swept_def)
    then have r: "fst (remove_client x (w_registry w1)) = Some c" by (simp add: remove_client_def find_some_by_id_def)
    have "reg_ok (snd (remove_client x (w_registry w1)))" using I by (simp add: swept_def remove_client_ok)
    then show "wp (sbind (on_registry (remove_client x)) (\<lambda>r. case r of
      None \<Rightarrow> sret () | Some client \<Rightarrow> client_close client)) (\<lambda>_. swept (ys @ [x]) w) w1"
      using I c(1) r
      by (auto simp: wp_simps on_registry_def client_close_def case_prod_unfold swept_def subs_remove_client fun_eq_iff
          find_some_by_id_def id2client_remove)
  qed
  then show ?thesis by (simp add: cleanup_inactive_clients_def wp_simps)
qed

text \<open>The ghosts that expired are forgotten everywhere.\<close>

lemma wp_sweep_all:
  "wp (sfor is (\<lambda>client_id. sbind (on_registry (remove_ghost client_id)) (\<lambda>_.
      sbind (port_unregister_client client_id) (\<lambda>_. buffer_clear E client_id))))
    (\<lambda>_ w'. w_registry w' = (w_registry w)\<lparr>ghosts := fold dm_remove is (ghosts (w_registry w))\<rparr>
      \<and> w_state_error w' = w_state_error w
      \<and> w_cluster w' = (case w_cluster w of NoopClusterPort \<Rightarrow> NoopClusterPort
          | ManagerPort m \<Rightarrow> ManagerPort (fold scm_unregister_client is m))) w"
  by (rule wp_sfor[where I = "\<lambda>ys w'. w_registry w' = (w_registry w)\<lparr>ghosts := fold dm_remove ys (ghosts (w_registry w))\<rparr>
      \<and> w_state_error w' = w_state_error w
      \<and> w_cluster w' = (case w_cluster w of NoopClusterPort \<Rightarrow> NoopClusterPort
          | ManagerPort m \<Rightarrow> ManagerPort (fold scm_unregister_client ys m))"])
    (auto simp: wp_simps on_registry_def remove_ghost_def port_unregister_client_def buffer_clear_def on_db_def note_offline_def
      split: store_split)

lemma sweep_wp:
  assumes S: "sled_db (e_sled E) v" and ok: "rows_ok (e_bincode E) (v (w_db w))" "w_state_store w = SledStore" "w_repo_open w"
    and clean: "\<forall>e \<in> set (sl_iter (e_sled E) T_CLIENTS (snd (sl_open_tree (e_sled E) T_CLIENTS (w_db w)))). \<not> isl e"
  shows "wp (cleanup_expired_ghosts E now) (\<lambda>_ w'. w_state_error w' = None \<longrightarrow> (\<exists>is.
      (\<forall>i. i \<in> set is \<longleftrightarrow> (\<exists>p. row (e_bincode E) (v (w_db w)) i = Some p \<and> pc_ghost_until p < now))
      \<and> w_registry w' = (w_registry w)\<lparr>ghosts := fold dm_remove is (ghosts (w_registry w))\<rparr>
      \<and> w_cluster w' = (case w_cluster w of NoopClusterPort \<Rightarrow> NoopClusterPort
          | ManagerPort m \<Rightarrow> ManagerPort (fold scm_unregister_client is m)))) w"
proof -
  obtain r db where run: "repo_take_expired_ghosts (e_sled E) (e_bincode E) now (w_db w) = (r, db)" by fastforce
  show ?thesis
  proof (cases r)
    case (Inl e)
    then show ?thesis
      using ok run by (simp add: cleanup_expired_ghosts_def wp_simps state_take_expired_ghosts_def on_repo_def on_db_def note_state_def)
  next
    case (Inr ids)
    have keys: "\<exists>c. k = u128_le c" if "v (w_db w) T_CLIENTS k = Some b" for k b
      using ok(1) that by (auto simp: rows_ok_def)
    have "i \<in> set ids \<longleftrightarrow> (\<exists>p. row (e_bincode E) (v (w_db w)) i = Some p \<and> pc_ghost_until p < now)" for i
      using sled_db.take_expired_ghosts_ok(2)[OF S run[unfolded Inr] clean, of i] keys
      by (auto simp: row_def bind_eq_Some_conv)
    then have "wp (sfor ids (\<lambda>client_id. sbind (on_registry (remove_ghost client_id)) (\<lambda>_.
        sbind (port_unregister_client client_id) (\<lambda>_. buffer_clear E client_id)))) (\<lambda>_ w'. w_state_error w' = None \<longrightarrow> (\<exists>is.
      (\<forall>i. i \<in> set is \<longleftrightarrow> (\<exists>p. row (e_bincode E) (v (w_db w)) i = Some p \<and> pc_ghost_until p < now))
      \<and> w_registry w' = (w_registry w)\<lparr>ghosts := fold dm_remove is (ghosts (w_registry w))\<rparr>
      \<and> w_cluster w' = (case w_cluster w of NoopClusterPort \<Rightarrow> NoopClusterPort
          | ManagerPort m \<Rightarrow> ManagerPort (fold scm_unregister_client is m)))) (w\<lparr>w_db := db, w_state_error := None\<rparr>)"
      by (intro wp_mono[OF wp_sweep_all]) auto
    then show ?thesis
      using ok run Inr by (simp add: cleanup_expired_ghosts_def wp_simps state_take_expired_ghosts_def on_repo_def on_db_def note_state_def)
  qed
qed

lemma fold_dm_remove: "dm_get (fold dm_remove is g) i = (if i \<in> set is then None else dm_get g i)"
  by (induction "is" arbitrary: g) (auto simp: delete_conv')

lemma fold_unregister:
  "scm_get_node_for_client i (fold scm_unregister_client is m) = (if i \<in> set is then None else scm_get_node_for_client i m)"
  by (induction "is" arbitrary: m)
    (auto simp: scm_get_node_for_client_def scm_unregister_client_def get_node_by_client_def rt_unregister_client_def delete_conv')

section \<open>Properties\<close>

text \<open>
  C13: What a login does with the queue of the client, on a server whose two stores are the database;
  the handler returns in every case. When the id is not connected and neither store reports an error,
  the client's unexpired messages are sent in the order they were queued, each carrying the client's id
  and its own message id, then the answer to the login, and the client's row holds its titles. If
  anything was due, the client's queue is empty afterwards, whether the sends succeed or not: a message
  whose send fails is lost. If nothing was due, the queue is left as it is, its expired messages
  included. No other queue changes. When the id is connected already, the login sends the answer alone
  and leaves the database as it was, whatever is queued.
\<close>

theorem login_drains_queue:
  assumes "sled_db (e_sled E) v" "bincode_ok (e_bincode E)"
    and "queues_ok (e_bincode E) (v (w_db w))" "rows_ok (e_bincode E) (v (w_db w))"
    and "frame_ok d" "w_offline w = SledStore" "w_state_store w = SledStore"
  shows "\<exists>w'. handle_login E c d w = (Inr ok, w') \<and> (case find_some_by_id (m_source (view d)) (w_registry w) of
      None \<Rightarrow> w_offline_error w' = None \<longrightarrow> w_state_error w' = None \<longrightarrow>
        login_stored E v (m_source (view d)) (m_title (view d)) c d w w'
    | Some x \<Rightarrow> w_db w' = w_db w \<and> w_sent w' = w_sent w
        @ log_send E (w_tick w) (cl_sender (w_heap w c)) (content (reply_frame LoginReturn d)))"
proof (cases "find_some_by_id (m_source (view d)) (w_registry w)")
  case None
  show ?thesis unfolding None option.case
    by (rule login_run[OF assms(1-5) None assms(6,7), of c]) (intro exI conjI)
next
  case (Some x)
  show ?thesis unfolding Some option.case by (rule relogin_run[OF assms(5) Some, of E c]) blast
qed

text \<open>
  C14: A login registers the client, on a server whose two stores are the database: when the connection
  is not yet logged in and the id is not connected, the id is afterwards subscribed to the titles of the connection and to every part of the
  login's title, no other subscription changes, and the registry stays consistent.
\<close>

theorem login_registers:
  assumes "sled_db (e_sled E) v" "bincode_ok (e_bincode E)"
    and "queues_ok (e_bincode E) (v (w_db w))" "rows_ok (e_bincode E) (v (w_db w))"
    and "frame_ok d" "find_some_by_id (m_source (view d)) (w_registry w) = None"
    and "w_offline w = SledStore" "w_state_store w = SledStore"
    and "reg_ok (w_registry w)" "\<forall>i. find_some_by_id i (w_registry w) \<noteq> Some c" "\<forall>x \<in> set (titles_of (w_registry w) c). atomic x"
  shows "\<exists>w'. handle_login E c d w = (Inr ok, w') \<and> reg_ok (w_registry w') \<and> subs (w_registry w') = (subs (w_registry w))
    (m_source (view d) \<mapsto> set (titles_of (w_registry w) c) \<union> set (title_parts (m_title (view d))))"
proof -
  obtain w' where w': "handle_login E c d w = (Inr ok, w')"
      "quiet (joined (m_source (view d)) (m_title (view d)) c (w_registry w)) (w_registry w')"
    by (rule login_run[OF assms(1-8), of c])
  have "\<forall>i. dm_get (id2client (w_registry w)) i \<noteq> Some c" "dm_get (id2client (w_registry w)) (m_source (view d)) = None"
    using assms(6,10) by (simp_all add: find_some_by_id_def)
  note j = joined_ok[OF assms(9) this assms(11), of "m_title (view d)"]
  show ?thesis using w' j by (auto simp: quiet_reg_ok quiet_subs)
qed

text \<open>
  C15: A session survives the server. When a client logs in on a server whose two stores are the
  database, without a store error, and the server stops right after, a server started on the same
  database with persistence enabled returns from restoring the clients, and, when its store reports no
  error, its ghosts are exactly the clients with a row: those there were before, and, if the id of the
  login was not connected, the client with the titles and the deadline of its login. A login under a
  connected id writes no row: that id is restored with the row it had, or not at all.
\<close>

theorem restart_restores:
  assumes "sled_db (e_sled E) v" "bincode_ok (e_bincode E)"
    and "queues_ok (e_bincode E) (v (w_db w))" "rows_ok (e_bincode E) (v (w_db w))"
    and "frame_ok d" "w_offline w = SledStore" "w_state_store w = SledStore" "sc_persistence_enabled cfg"
  shows "\<exists>w1 w2. handle_login E c d w = (Inr ok, w1)
    \<and> restore_ghosts E (build_services cfg True port (w_db w1) h now) = (Inr (), w2)
    \<and> (w_offline_error w1 = None \<longrightarrow> w_state_error w1 = None \<longrightarrow> w_state_error w2 = None \<longrightarrow>
      (\<forall>i. dm_get (ghosts (w_registry w2)) i = map_option (\<lambda>p. (pc_titles p, pc_ghost_until p))
        (rows_after_login E v c d w i)))"
proof -
  obtain w1 where w1: "handle_login E c d w = (Inr ok, w1)" "w_offline_error w1 = None \<longrightarrow> w_state_error w1 = None \<longrightarrow>
      row (e_bincode E) (v (w_db w1)) = rows_after_login E v c d w \<and> rows_ok (e_bincode E) (v (w_db w1))"
    by (rule login_rows[OF assms(1-7), of c])
  let ?w = "build_services cfg True port (w_db w1) h now"
  have b: "id2client (w_registry ?w) = []" "ghosts (w_registry ?w) = []" "w_state_store ?w = SledStore" "w_repo_open ?w"
    "sc_persistence_enabled (w_config ?w)" "w_db ?w = w_db w1"
    using assms(8) by (simp_all add: build_services_def Let_def registry_new_def)
  obtain w2 where w2: "restore_ghosts E ?w = (Inr (), w2)"
    using safe_restore[of E ?w] by blast
  have "dm_get (ghosts (w_registry w2)) i = map_option (\<lambda>p. (pc_titles p, pc_ghost_until p)) (rows_after_login E v c d w i)"
    if "w_offline_error w1 = None" "w_state_error w1 = None" "w_state_error w2 = None" for i
  proof -
    from w1(2) that(1,2) have r: "row (e_bincode E) (v (w_db w1)) = rows_after_login E v c d w"
      "rows_ok (e_bincode E) (v (w_db ?w))" by (simp_all add: b)
    from restore_wp[OF assms(1) r(2) b(1-5)] w2 that(3) show ?thesis
      unfolding wp_result by (auto simp: b r(1))
  qed
  then show ?thesis using w1(1) w2 by blast
qed

text \<open>
  C30: The janitor removes the idle clients and nobody else. In a consistent registry a round of it
  returns; the clients whose last activity is longer ago than the timeout are gone with all their
  subscriptions and their connections are closed, in order; every other client keeps its entry and its
  subscriptions. The cluster's routes and the database keep the removed clients: the round does not
  touch them.
\<close>

theorem janitor_removes_idle:
  assumes "reg_ok (w_registry w)"
  shows "\<exists>w' is. cleanup_inactive_clients t w = (Inr (), w') \<and> swept is w w' \<and> distinct is \<and> (\<forall>i. i \<in> set is \<longleftrightarrow> idle t w i)"
proof -
  obtain w' where "cleanup_inactive_clients t w = (Inr (), w')" "swept (take_inactive (w_now w) t (w_registry w)) w w'"
    using inactive_wp[OF assms, of t] unfolding wp_result by auto
  then show ?thesis using take_inactive_ids[OF assms, where t = t] by blast
qed

text \<open>
  The ghost sweep goes by the rows of the database alone. It returns; when the store reports no
  error, the clients whose row has passed its deadline are forgotten as ghosts and taken out of the
  cluster's routes, all others stay; connected clients keep their connection and subscriptions, so a
  client that stays connected past the deadline of its login loses its route in the cluster.
\<close>

theorem ghost_sweep_exact:
  assumes "sled_db (e_sled E) v" "rows_ok (e_bincode E) (v (w_db w))" "w_state_store w = SledStore" "w_repo_open w"
    and "\<forall>e \<in> set (sl_iter (e_sled E) T_CLIENTS (snd (sl_open_tree (e_sled E) T_CLIENTS (w_db w)))). \<not> isl e"
    and "w_cluster w = ManagerPort m"
  shows "\<exists>w'. cleanup_expired_ghosts E now w = (Inr (), w') \<and> (w_state_error w' = None \<longrightarrow>
    (\<exists>m'. w_cluster w' = ManagerPort m' \<and> subs (w_registry w') = subs (w_registry w)
      \<and> (\<forall>i. find_some_by_id i (w_registry w') = find_some_by_id i (w_registry w))
      \<and> (\<forall>i. let gone = (\<exists>p. row (e_bincode E) (v (w_db w)) i = Some p \<and> pc_ghost_until p < now) in
          dm_get (ghosts (w_registry w')) i = (if gone then None else dm_get (ghosts (w_registry w)) i)
          \<and> scm_get_node_for_client i m' = (if gone then None else scm_get_node_for_client i m))))"
proof -
  obtain w' where w': "cleanup_expired_ghosts E now w = (Inr (), w')" "w_state_error w' = None \<longrightarrow> (\<exists>is.
      (\<forall>i. i \<in> set is \<longleftrightarrow> (\<exists>p. row (e_bincode E) (v (w_db w)) i = Some p \<and> pc_ghost_until p < now))
      \<and> w_registry w' = (w_registry w)\<lparr>ghosts := fold dm_remove is (ghosts (w_registry w))\<rparr>
      \<and> w_cluster w' = ManagerPort (fold scm_unregister_client is m))"
    using sweep_wp[OF assms(1-5), of now] unfolding wp_result assms(6) by auto
  have "\<exists>m'. w_cluster w' = ManagerPort m' \<and> subs (w_registry w') = subs (w_registry w)
      \<and> (\<forall>i. find_some_by_id i (w_registry w') = find_some_by_id i (w_registry w))
      \<and> (\<forall>i. let gone = (\<exists>p. row (e_bincode E) (v (w_db w)) i = Some p \<and> pc_ghost_until p < now) in
          dm_get (ghosts (w_registry w')) i = (if gone then None else dm_get (ghosts (w_registry w)) i)
          \<and> scm_get_node_for_client i m' = (if gone then None else scm_get_node_for_client i m))"
    if no: "w_state_error w' = None"
  proof -
    obtain xs where i: "\<And>i. i \<in> set xs \<longleftrightarrow> (\<exists>p. row (e_bincode E) (v (w_db w)) i = Some p \<and> pc_ghost_until p < now)"
      and r: "w_registry w' = (w_registry w)\<lparr>ghosts := fold dm_remove xs (ghosts (w_registry w))\<rparr>"
        "w_cluster w' = ManagerPort (fold scm_unregister_client xs m)" using w'(2) no by blast
    show ?thesis
      unfolding Let_def i[symmetric] r
      by (intro exI[where x = "fold scm_unregister_client xs m"])
        (simp add: fold_dm_remove fold_unregister find_some_by_id_def subs_def fun_eq_iff)
  qed
  then show ?thesis using w'(1) by (intro exI[where x = w'] conjI impI)
qed

text \<open>
  C38: A second login under a connected id takes the session over but not the new title. The handler
  returns, later messages to the client go to the new connection and the client object lists the parts
  of the title, but the routing of every title is what it was: a part the client was not subscribed to
  before is not routed to it.
\<close>

theorem relogin_not_routed:
  assumes "reg_ok (w_registry w)" "frame_ok d" "find_some_by_id (m_source (view d)) (w_registry w) = Some x"
  shows "\<exists>w' k. handle_login E c d w = (Inr ok, w')
    \<and> cl_sender (w_heap w' x) = cl_sender (w_heap w c)
    \<and> set (titles_of (w_registry w') x) = set (titles_of (w_registry w) x) \<union> set (title_parts (m_title (view d)))
    \<and> (\<forall>t e. find_all_by_title t e (w_registry w') = find_all_by_title t e (w_registry w))
    \<and> (\<forall>t. t \<notin> set (titles_of (w_registry w) x) \<longrightarrow> x \<notin> set (find_all_by_title t None (w_registry w')))
    \<and> w_sent w' = w_sent w @ log_send E k (cl_sender (w_heap w c)) (content (reply_frame LoginReturn d))"
proof -
  have x: "registered (w_registry w) x"
    using assms(1,3) by (auto simp: registered_def find_some_by_id_def dest: reg_okD(1))
  have no: "x \<notin> set (find_all_by_title t None (w_registry w))" if "t \<notin> set (titles_of (w_registry w) x)" for t
    using reg_okD(4)[OF assms(1), of x t] that
    by (auto simp: find_all_by_title_def subscribers_def split: option.splits)
  have ids: "find_all_by_title t e (upd_client x (insert_title u) (upd_client x (set_sender s) r)) = find_all_by_title t e r" for t e u s r
    by (auto simp: find_all_by_title_def insert_title_def set_sender_def intro!: filter_cong split: option.split)
  obtain w' where w': "handle_login E c d w = (Inr ok, w')"
      "quiet (relogged (m_title (view d)) c x (w_registry w)) (w_registry w')"
      "w_sent w' = w_sent w @ log_send E (w_tick w) (cl_sender (w_heap w c)) (content (reply_frame LoginReturn d))"
    by (rule relogin_run[OF assms(2,3), of E c])
  then have "cl_sender (w_heap w' x) = cl_sender (w_heap w c)"
    "set (titles_of (w_registry w') x) = set (titles_of (w_registry w) x) \<union> set (title_parts (m_title (view d)))"
    "\<And>t e. find_all_by_title t e (w_registry w') = find_all_by_title t e (w_registry w)"
    by (simp_all add: quiet_find_all quiet_fields ids relogged_def insert_title_set)
      (simp_all add: insert_title_def set_sender_def)
  then show ?thesis using no w'(1,3) by (intro exI[where x = w'] exI[where x = "w_tick w"]) simp
qed

section \<open>Witnesses\<close>

text \<open>A database in which one message waits for client 0.\<close>

definition m0 :: offline_message where
  "m0 = offline_message_new 1000 1 0 ''x'' [9]"

definition db0 :: mem_db where
  "db0 = snd (add_offline_message mem_sled bincode_fixint offline_config m0 [])"

definition stored0 :: "mem_db world" where
  "stored0 = world0\<lparr>w_db := db0\<rparr>"

lemma db0_run: "add_offline_message mem_sled bincode_fixint offline_config m0 [] = (Inr (), db0)"
  by (simp add: db0_def add_offline_message_def sbind_def db_do_def db_read_def mem_sled_def codec_def slift_def
      sret_def Let_def offline_config_def offline_queue_config_default_def get_offline_message_ids_def bincode_fixint_def
      short_def m0_def offline_message_new_def offline_queue_key_def)

lemma db0_clients: "dm_get db0 (T_CLIENTS, k) = None"
  by (simp add: db0_def add_offline_message_def sbind_def db_do_def db_read_def mem_sled_def codec_def
      slift_def sret_def Let_def offline_config_def offline_queue_config_default_def get_offline_message_ids_def bincode_fixint_def
      short_def m0_def offline_message_new_def offline_queue_key_def)

lemma db0_ok:
  "queues_ok bincode_fixint (mem_view db0)" "rows_ok bincode_fixint (mem_view db0)"
  "queue_of bincode_fixint (mem_view db0) 0 = [m0]"
proof -
  have e: "queues_ok bincode_fixint (mem_view [])" "\<forall>c. om_id m0 \<notin> set (index_ids bincode_fixint (mem_view []) c)"
    "queue_of bincode_fixint (mem_view []) 0 = []" "om_client_id m0 = 0"
    by (simp_all add: queues_ok_def index_ids_def mem_view_def queue_of_def m0_def offline_message_new_def)
  note a = mem.add_message_ok[OF bincode_fixint_ok e(1) e(2)[rule_format] db0_run]
  show "queues_ok bincode_fixint (mem_view db0)" by (rule a)
  show "queue_of bincode_fixint (mem_view db0) 0 = [m0]"
    unfolding a(2) by (simp add: e offline_config_def offline_queue_config_default_def)
  show "rows_ok bincode_fixint (mem_view db0)" by (simp add: rows_ok_def mem_view_def db0_clients)
qed

lemma stored0_ok:
  "find_some_by_id i (w_registry stored0) = None" "w_offline stored0 = SledStore" "w_state_store stored0 = SledStore"
  "w_repo_open stored0" "w_db stored0 = db0" "reg_ok (w_registry stored0)" "titles_of (w_registry stored0) c = []"
  by (simp_all add: stored0_def world0_def build_services_def Let_def config_from_id_def default_persistence_enabled_def
      find_some_by_id_def reg_ok_new) (simp_all add: registry_new_def nobody_def client_new_def title_parts_x)

lemma env0_store: "e_sled env0 = mem_sled" "e_bincode env0 = bincode_fixint" "log_send env0 k s b = [(s, b)]"
  by (simp_all add: env0_def log_send_def)

definition login0 :: rex_data where
  "login0 = rd_new Login ''x'' []"

lemma login0_ok: "frame_ok login0" "m_title (view login0) = ''x''" "m_source (view login0) = 0"
  using rd_new_ok[of "''x''" "[]"] by (simp_all add: login0_def fits_def)

lemma m0_fresh: "\<not> is_expired 1000 (message_ttl offline_config) m0"
  by (simp add: is_expired_def sat_sub_def m0_def offline_message_new_def offline_config_def offline_queue_config_default_def)

lemma stored0_now: "w_now stored0 = 1000" "w_sent stored0 = []" "w_tick stored0 = 0" "cl_sender (w_heap stored0 c) = 0"
  by (simp_all add: stored0_def world0_def build_services_def Let_def registry_new_def nobody_def client_new_def)

lemmas start0 = mem.sled_db_axioms[folded env0_store(1)] bincode_fixint_ok[folded env0_store(2)]
  db0_ok(1,2)[folded env0_store(2) stored0_ok(5)] login0_ok(1)

theorem login_drains_queue_witness:
  "\<exists>w'. handle_login env0 7 login0 stored0 = (Inr ok, w') \<and> (w_offline_error w' = None \<longrightarrow> w_state_error w' = None \<longrightarrow>
    w_sent w' = [(0, content (drain_frame 0 m0)), (0, content (reply_frame LoginReturn login0))]
    \<and> queue_of bincode_fixint (mem_view (w_db w')) 0 = [])"
  using login_drains_queue[OF start0 stored0_ok(2,3), where c = 7]
  by (auto simp: stored0_ok(1) login_stored_def Let_def login0_ok stored0_ok stored0_now env0_store db0_ok m0_fresh)

theorem login_registers_witness:
  "\<exists>w'. handle_login env0 7 login0 stored0 = (Inr ok, w') \<and> reg_ok (w_registry w') \<and> subs (w_registry w') 0 = Some {''x''}"
  using login_registers[OF start0 stored0_ok(1,2,3), where c = 7]
  by (auto simp: stored0_ok login0_ok title_parts_x)

theorem restart_restores_witness:
  "\<exists>w1 w2. handle_login env0 7 login0 stored0 = (Inr ok, w1)
    \<and> restore_ghosts env0 (build_services (config_from_id ''rex'') True None (w_db w1) (\<lambda>_. nobody) 2000) = (Inr (), w2)
    \<and> (w_offline_error w1 = None \<longrightarrow> w_state_error w1 = None \<longrightarrow> w_state_error w2 = None \<longrightarrow>
      map_option fst (dm_get (ghosts (w_registry w2)) 0) = Some [''x''])"
proof -
  have "sc_persistence_enabled (config_from_id ''rex'')" by (simp add: config_from_id_def default_persistence_enabled_def)
  moreover have "cl_titles (insert_title ''x'' (set_id 0 (w_heap stored0 7))) = [''x'']"
    by (simp add: insert_title_def set_id_def stored0_ok push_title_def)
  ultimately show ?thesis
    using restart_restores[OF start0 stored0_ok(2,3), of "config_from_id ''rex''" 7 None "\<lambda>_. nobody" 2000]
    by (auto simp: login0_ok login_row_def rows_after_login_def stored0_ok Let_def)
qed

theorem janitor_removes_idle_witness:
  "\<exists>w'. cleanup_inactive_clients 45 (room False) = (Inr (), w') \<and> subs (w_registry w') = Map.empty
    \<and> length (w_closed w') = length (w_closed (room False)) + 3"
proof -
  have "w_now (room False) = 1000" "cl_last_recv (w_heap (room False) c) = 0" for c
    by (simp_all add: room_def world0_def build_services_def Let_def registry_new_def client_new_def)
  then have i: "idle 45 (room False) i \<longleftrightarrow> i \<in> {5, 6, 0}" for i
    by (auto simp: idle_def find_some_by_id_def room_index sat_sub_def)
  obtain w' xs where r: "cleanup_inactive_clients 45 (room False) = (Inr (), w')" "swept xs (room False) w'"
    and xs: "distinct xs" "\<forall>i. i \<in> set xs \<longleftrightarrow> idle 45 (room False) i"
    using janitor_removes_idle[OF room_reg_ok[of False], of 45] by blast
  have s: "set xs = {5, 6, 0}" using xs(2) i by blast
  then have "length xs = 3" using distinct_card[OF xs(1)] by simp
  moreover have "subs (w_registry (room False)) i = None" if "i \<notin> {5, 6, 0}" for i
    using that by (simp add: subs_def room_index)
  ultimately show ?thesis
    using r s by (intro exI[where x = w']) (auto simp: swept_def fun_eq_iff)
qed

theorem ghost_sweep_exact_witness:
  "let w = stored0\<lparr>w_cluster := ManagerPort (scm_register_client 3 (scm_new ''a'' True))\<rparr> in
   \<exists>w'. cleanup_expired_ghosts env0 5000 w = (Inr (), w') \<and> (w_state_error w' = None \<longrightarrow>
     (\<exists>m'. w_cluster w' = ManagerPort m' \<and> scm_get_node_for_client 3 m' = Some ''a''))"
proof -
  let ?m = "scm_register_client 3 (scm_new ''a'' True)"
  let ?w = "stored0\<lparr>w_cluster := ManagerPort ?m\<rparr>"
  have rows: "rows_ok (e_bincode env0) (mem_view (w_db ?w))" "row (e_bincode env0) (mem_view (w_db ?w)) 3 = None"
    "\<forall>e \<in> set (sl_iter (e_sled env0) T_CLIENTS (snd (sl_open_tree (e_sled env0) T_CLIENTS (w_db ?w)))). \<not> isl e"
    "scm_get_node_for_client 3 ?m = Some ''a''"
    using db0_clients
    by (simp_all add: rows_ok_def row_def stored0_def env0_store mem_view_def, auto simp: mem_sled_def scm_get_node_for_client_def
      scm_register_client_def get_node_by_client_def rt_register_client_def scm_new_def)
  have w: "w_state_store ?w = SledStore" "w_repo_open ?w" "w_cluster ?w = ManagerPort ?m" by (simp_all add: stored0_ok)
  show ?thesis
    using ghost_sweep_exact[OF start0(1) rows(1) w(1,2) rows(3) w(3), of 5000] rows(2,4) unfolding Let_def by fastforce
qed

theorem relogin_not_routed_witness:
  "\<exists>w'. handle_login env0 7 login0 (room False) = (Inr ok, w') \<and> cl_sender (w_heap w' 2) = 17
    \<and> ''x'' \<in> set (titles_of (w_registry w') 2) \<and> 2 \<notin> set (find_all_by_title ''x'' None (w_registry w'))"
proof -
  have f: "find_some_by_id (m_source (view login0)) (w_registry (room False)) = Some 2"
    by (simp add: login0_ok find_some_by_id_def room_index)
  have "titles_of (w_registry (room False)) 2 = []"
    by (simp add: room_def registry_new_def client_new_def title_parts_x)
  then show ?thesis
    using relogin_not_routed[OF room_reg_ok[of False] login0_ok(1) f, of env0 7]
    by (elim exE conjE) (intro exI conjI, assumption, simp_all add: login0_ok room_fields title_parts_x)
qed

end
