(* ===== verification/Histories.thy ===== *)
theory Histories
  imports Connection Sessions
begin

text \<open>
  Histories of the server at the grain of frames. An event is one frame handled on a connection, a
  connection made or lost, a round of the janitor, a message of the cluster, a start, a restore, or a
  change of the clock. The abstract state is who is subscribed to what; every event has an effect on it.
  As long as the clients are polite, the server's registry implements the abstract state and stays
  consistent: nobody is lost from the title index and nobody stays in it.
\<close>

section \<open>Operations that keep the subscriptions\<close>

definition calm_reg :: "registry \<Rightarrow> registry \<Rightarrow> bool" where
  "calm_reg r r' \<longleftrightarrow> id2client r' = id2client r \<and> title2clients r' = title2clients r
     \<and> (\<forall>c. id_of r' c = id_of r c \<and> set (titles_of r' c) = set (titles_of r c))
     \<and> (dm_ok (ghosts r) \<longrightarrow> dm_ok (ghosts r'))"

definition calm :: "('e, 'db world, 'a) sm \<Rightarrow> bool" where
  "calm m \<longleftrightarrow> (\<forall>w. calm_reg (w_registry w) (w_registry (snd (m w))))"

text \<open>The registry after \<open>m\<close> is \<open>r\<close>, up to what calm operations change.\<close>

definition after :: "registry \<Rightarrow> ('e, 'db world, 'a) sm \<Rightarrow> 'db world \<Rightarrow> bool" where
  "after r m w \<longleftrightarrow> calm_reg r (w_registry (snd (m w)))"

lemma calm_reg_refl [simp]: "calm_reg r r"
  by (simp add: calm_reg_def)

lemma calm_reg_trans: "calm_reg r r' \<Longrightarrow> calm_reg r' r'' \<Longrightarrow> calm_reg r r''"
  by (simp add: calm_reg_def)

lemma calm_reg_subs: "calm_reg r r' \<Longrightarrow> subs r' = subs r"
  by (simp add: calm_reg_def subs_def fun_eq_iff)

lemma calm_reg_ok: "calm_reg r r' \<Longrightarrow> reg_ok r \<Longrightarrow> reg_ok r'"
  by (simp add: calm_reg_def reg_ok_def registered_def subscribers_def)

lemma quiet_calm: "quiet r r' \<Longrightarrow> calm_reg r r'"
  by (simp add: calm_reg_def quiet_fields)

named_theorems calm_intros "operations that keep the subscriptions"

lemma calm_basic [calm_intros]: "calm (sret x)" "calm (slift r)" "calm (sget f)"
  by (simp_all add: calm_def sret_def slift_def sget_def)

lemma calm_smod: "(\<And>w. calm_reg (w_registry w) (w_registry (f w))) \<Longrightarrow> calm (smod f)"
  by (simp add: calm_def smod_def)

lemma calm_srun: "(\<And>w. calm_reg (w_registry w) (w_registry (snd (f w)))) \<Longrightarrow> calm (srun f)"
  by (simp add: calm_def srun_def case_prod_unfold)

lemma after_calm: "calm m \<Longrightarrow> after (w_registry w) m w"
  by (simp add: after_def calm_def)

lemma after_here: "calm m \<Longrightarrow> r = w_registry w \<Longrightarrow> after r m w"
  by (simp add: after_calm)

lemma after_sbind:
  assumes "after r m w" "\<And>x. calm (k x)"
  shows "after r (sbind m k) w"
proof -
  obtain e w1 where m: "m w = (e, w1)" by fastforce
  then have "calm_reg r (w_registry w1)" using assms(1) by (simp add: after_def)
  then show ?thesis
    using assms(2) m by (cases e) (auto simp: after_def sbind_def calm_def intro: calm_reg_trans)
qed

lemma calm_sbind [calm_intros]: "calm m \<Longrightarrow> (\<And>x. calm (k x)) \<Longrightarrow> calm (sbind m k)"
  using after_sbind[OF after_calm, of m k] by (simp add: calm_def after_def)

lemma calm_if [calm_intros]: "calm m \<Longrightarrow> calm n \<Longrightarrow> calm (if b then m else n)"
  by simp

lemma calm_option [calm_intros]: "calm m \<Longrightarrow> (\<And>x. calm (k x)) \<Longrightarrow> calm (case z of None \<Rightarrow> m | Some x \<Rightarrow> k x)"
  by (cases z) simp_all

lemma calm_sum [calm_intros]: "(\<And>e. calm (m e)) \<Longrightarrow> (\<And>x. calm (k x)) \<Longrightarrow> calm (case r of Inl e \<Rightarrow> m e | Inr x \<Rightarrow> k x)"
  by (cases r) simp_all

lemma calm_prod [calm_intros]: "(\<And>x y. calm (k x y)) \<Longrightarrow> calm (case p of (x, y) \<Rightarrow> k x y)"
  by (cases p) simp

lemma calm_backend [calm_intros]: "calm m \<Longrightarrow> calm n \<Longrightarrow> calm (case b of NoopStore \<Rightarrow> m | SledStore \<Rightarrow> n)"
  by (cases b) simp_all

lemma calm_sfor [calm_intros]: "(\<And>x. calm (f x)) \<Longrightarrow> calm (sfor xs f)"
  by (induction xs) (auto intro!: calm_basic calm_sbind)

text \<open>The primitive operations of the services that leave the registry alone.\<close>

lemma calm_prims [calm_intros]:
  "calm next_tick" "calm (client_close c)" "calm (on_db m)" "calm (port_register_client i)"
  "calm (port_unregister_client i)" "calm (register_client_shutdown i)" "calm (unregister_client_shutdown i)"
  "calm (cancel_client i)" "calm (register_pending_ack n s t g)" "calm (take_pending_ack n)"
  "calm (take_expired_acks now)" "calm (on_transport x f)" "calm (smod (\<lambda>w. w\<lparr>w_manager := mg\<rparr>))"
  "calm (smod (\<lambda>w. w\<lparr>w_offline_error := e\<rparr>))" "calm (smod (\<lambda>w. w\<lparr>w_state_error := e\<rparr>))"
  "calm (srun (\<lambda>w. (j w, w\<lparr>w_msg_counter := w_msg_counter w + 1\<rparr>)))"
  "calm (srun (\<lambda>w. (k w, w\<lparr>w_round_robin := w_round_robin w + 1\<rparr>)))"
  unfolding next_tick_def client_close_def on_db_def port_register_client_def port_unregister_client_def
    register_client_shutdown_def unregister_client_shutdown_def cancel_client_def register_pending_ack_def
    take_pending_ack_def take_expired_acks_def on_transport_def
  by (intro calm_smod calm_srun; simp add: case_prod_unfold split: option.split cluster_port.split)+

lemma calm_send_buf [calm_intros]: "calm (send_buf E c buf)"
  unfolding send_buf_def by (rule calm_srun) (simp add: Let_def quiet_calm[OF quiet_touch])

lemma calm_ghosts [calm_intros]:
  "calm (on_registry (claim_ghost i))" "calm (on_registry (remove_ghost i))" "calm (on_registry (add_ghost i ts g))"
  unfolding on_registry_def
  by (rule calm_srun; simp add: case_prod_unfold claim_ghost_def remove_ghost_def add_ghost_def calm_reg_def
      split: option.split)+

section \<open>Everything but logins, subscriptions and removals is calm\<close>

lemma calm_stores [calm_intros]:
  "calm (note_offline r x)" "calm (note_state z y)" "calm (on_repo m)" "calm (buffer_queue E i t p)"
  "calm (buffer_get E i)" "calm (buffer_clear E i)" "calm (buffer_count E i)" "calm (buffer_close E)"
  unfolding note_offline_def note_state_def on_repo_def buffer_queue_def buffer_get_def buffer_clear_def
    buffer_count_def buffer_close_def by (intro calm_intros)+

lemma calm_states [calm_intros]:
  "calm (state_save E i ts now g)" "calm (state_remove E i)" "calm (state_load_all E)"
  "calm (state_take_expired_ghosts E now)" "calm (state_flush E)" "calm (state_close E)"
  unfolding state_save_def state_remove_def state_load_all_def state_take_expired_ghosts_def state_flush_def
    state_close_def by (intro calm_intros calm_smod; simp split: backend.split)+

lemma calm_services [calm_intros]:
  "calm (choose_one E t ex)" "calm (route E t ex)" "calm (svc_get_offline_messages E i)"
  "calm (svc_clear_offline_messages E i)" "calm (setup_message_ack E i t g d)"
  "calm (send_ack E c m rc cmd src)" "calm (queue_offline_message E i t p)"
  unfolding choose_one_def route_def svc_get_offline_messages_def svc_clear_offline_messages_def
    setup_message_ack_def send_ack_def queue_offline_message_def by (intro calm_intros)+

lemma calm_try_send [calm_intros]:
  "calm (fw_send_to E n m)" "calm (try_reconnect_and_send E n a m)" "calm (try_send E n a req)"
  unfolding fw_send_to_def try_reconnect_and_send_def try_send_def Let_def by (intro calm_intros)+

lemma calm_walks [calm_intros]: "calm (fallback_walk E req ex rt ns)" "calm (broadcast_to E m ns)"
  by (induction ns) (auto intro!: calm_intros simp del: not_None_eq)

lemma calm_forward [calm_intros]:
  "calm (fallback_excluding E req ex)" "calm (forward E n req)" "calm (fw_broadcast E m)" "calm (announce_ack E ack)"
  unfolding fallback_excluding_def forward_def fw_broadcast_def announce_ack_def by (intro calm_intros)+

lemma calm_deliver_one [calm_intros]: "calm (deliver_one E buf out c)"
  unfolding deliver_one_def by (intro calm_intros)

lemma calm_deliver_all [calm_intros]: "calm (deliver_all E buf out cs)"
  by (induction cs arbitrary: out) (auto intro!: calm_intros)

lemma calm_manager [calm_intros]: "calm (handle_cluster_message E reach m)" "calm (start_cluster_manager E reach n a ss)"
  unfolding handle_cluster_message_def start_cluster_manager_def deliver_def Let_def
  by (cases m; auto intro!: calm_intros) (intro calm_intros)

lemma calm_replies [calm_intros]: "calm (reply E c cmd d)" "calm (reply_no_target E c cmd d)"
  unfolding reply_def reply_no_target_def by (intro calm_intros)+

lemma calm_send_all [calm_intros]: "calm (send_all E buf cs)"
  by (induction cs) (auto intro!: calm_intros)

lemma calm_handlers [calm_intros]:
  "calm (handle_check E c d)" "calm (drain_one E c i m)" "calm (deliver_message E c d t)" "calm (handle_group E c d)"
  "calm (handle_ack E c d)"
  unfolding handle_check_def drain_one_def deliver_message_def handle_group_def handle_ack_def
  by (intro calm_intros)+

lemma calm_route_plan [calm_intros]:
  "(\<And>c. calm (f c)) \<Longrightarrow> (\<And>n. calm (g n)) \<Longrightarrow> calm h \<Longrightarrow>
    calm (case plan of RouteLocal c \<Rightarrow> f c | RouteRemote n \<Rightarrow> g n | RouteNone \<Rightarrow> h)"
  by (cases plan) simp_all

lemma calm_handle_title [calm_intros]: "calm (handle_title E c d)"
  unfolding handle_title_def by (intro calm_intros)

lemma calm_background [calm_intros]:
  "calm (cleanup_expired_ghosts E now)" "calm (cleanup_expired_acks E)" "calm (restore_ghosts E)"
  unfolding cleanup_expired_ghosts_def cleanup_expired_acks_def restore_ghosts_def by (intro calm_intros)+

lemma calm_touch_peer [calm_intros]: "calm (touch_peer c)"
  unfolding touch_peer_def by (rule calm_smod) (simp add: quiet_calm[OF quiet_touch])

section \<open>Events and their effect\<close>

datatype event = Clock u64
  | Accept cref u128 socket_addr sender_ref
  | Frame cref rex_data
  | Hangup cref
  | Janitor u64
  | FromCluster "socket_addr \<Rightarrow> bool" cluster_message
  | StartCluster "socket_addr \<Rightarrow> bool" "node_id option" socket_addr "socket_addr list"
  | Cancel u128
  | Restore
  | Queue u128 string bytes
  | CloseStores

primrec occurs :: "'db env \<Rightarrow> event \<Rightarrow> 'db world \<Rightarrow> 'db world" where
  "occurs E (Clock now) w = w\<lparr>w_now := now\<rparr>"
| "occurs E (Accept c uuid a s) w = snd (sbind (accept c uuid a s) (\<lambda>_. driver_new c) w)"
| "occurs E (Frame c d) w = snd (sbind (handle E c d) (\<lambda>_. touch_peer c) w)"
| "occurs E (Hangup c) w = snd (sbind (sbind (sget (\<lambda>w. id_of (w_registry w) c)) unregister_client_shutdown)
     (\<lambda>_. sbind (sget (\<lambda>w. id_of (w_registry w) c)) (svc_remove_client E)) w)"
| "occurs E (Janitor t) w = snd (janitor_tick E t w)"
| "occurs E (FromCluster reach m) w = snd (handle_cluster_message E reach m w)"
| "occurs E (StartCluster reach n a ss) w = snd (start_cluster_manager E reach n a ss w)"
| "occurs E (Cancel i) w = snd (cancel_client i w)"
| "occurs E Restore w = snd (restore_ghosts E w)"
| "occurs E (Queue i t p) w = snd (queue_offline_message E i t p w)"
| "occurs E CloseStores w = snd (sbind (buffer_close E) (\<lambda>_. state_close E) w)"

text \<open>
  What a polite client sends: well-formed frames; a login on a connection that has no titles and is not
  logged in, under an id that nobody uses, or a login under a connected id that asks for titles this
  client has; registrations of one title at a time, neither empty nor with a semicolon. A connection is
  accepted into a fresh object.
\<close>

definition polite_login :: "cref \<Rightarrow> msg \<Rightarrow> registry \<Rightarrow> bool" where
  "polite_login c m r \<longleftrightarrow> (case find_some_by_id (m_source m) r of
     None \<Rightarrow> c \<notin> snd ` set (id2client r) \<and> titles_of r c = []
   | Some x \<Rightarrow> set (title_parts (m_title m)) \<subseteq> set (titles_of r x))"

fun polite :: "event \<Rightarrow> registry \<Rightarrow> bool" where
  "polite (Accept c uuid a s) r \<longleftrightarrow> c \<notin> snd ` set (id2client r)"
| "polite (Frame c d) r \<longleftrightarrow> frame_ok d \<and> (m_command (view d) = Login \<longrightarrow> polite_login c (view d) r)
     \<and> (m_command (view d) = RegTitle \<longrightarrow> atomic (m_title (view d)))"
| "polite _ r \<longleftrightarrow> True"

text \<open>
  The effect on the subscriptions. A login under a free id subscribes it to the parts of its title; a
  cast removes the clients it cannot reach, a hangup the client of the connection, the janitor the idle
  ones.
\<close>

definition message_effect :: "msg \<Rightarrow> u128 set \<Rightarrow> subscriptions \<Rightarrow> subscriptions" where
  "message_effect m lost s = (case m_command m of
     Login \<Rightarrow> (if s (m_source m) = None then s(m_source m \<mapsto> set (title_parts (m_title m))) else s)
   | RegTitle \<Rightarrow> s(m_source m := map_option (insert (m_title m)) (s (m_source m)))
   | DelTitle \<Rightarrow> s(m_source m := map_option (\<lambda>T. T - {m_title m}) (s (m_source m)))
   | Cast \<Rightarrow> (\<lambda>i. if i \<in> lost then None else s i)
   | _ \<Rightarrow> s)"

fun effect :: "'db env \<Rightarrow> 'db world \<Rightarrow> event \<Rightarrow> subscriptions \<Rightarrow> subscriptions" where
  "effect E w (Frame c d) s = message_effect (view d) (id_of (w_registry w) ` set (missed (cast_outcomes E w d))) s"
| "effect E w (Hangup c) s = s(id_of (w_registry w) c := None)"
| "effect E w (Janitor t) s = (\<lambda>i. if i \<in> set (take_inactive (w_now w) t (w_registry w)) then None else s i)"
| "effect E w _ s = s"

fun polite_run :: "'db env \<Rightarrow> event list \<Rightarrow> 'db world \<Rightarrow> bool" where
  "polite_run E [] w \<longleftrightarrow> True"
| "polite_run E (e # es) w \<longleftrightarrow> polite e (w_registry w) \<and> polite_run E es (occurs E e w)"

fun effects :: "'db env \<Rightarrow> event list \<Rightarrow> 'db world \<Rightarrow> subscriptions \<Rightarrow> subscriptions" where
  "effects E [] w s = s"
| "effects E (e # es) w s = effects E es (occurs E e w) (effect E w e s)"

section \<open>Every polite event has its effect\<close>

text \<open>The registry implements the subscriptions \<open>s\<close>.\<close>

definition implements :: "registry \<Rightarrow> subscriptions \<Rightarrow> bool" where
  "implements r s \<longleftrightarrow> reg_ok r \<and> subs r = s"

lemma after_implements: "after r m w \<Longrightarrow> implements r s \<Longrightarrow> implements (w_registry (snd (m w))) s"
  by (auto simp: after_def implements_def calm_reg_ok calm_reg_subs)

lemmas calm_implements = after_implements[OF after_calm]

lemma after_upd: "after r (k ()) (w\<lparr>w_registry := f (w_registry w)\<rparr>) \<Longrightarrow> after r (sbind (upd_registry f) k) w"
  by (simp add: after_def sbind_def upd_registry_def smod_def)

lemma after_on: "after r (k (fst (g (w_registry w)))) (w\<lparr>w_registry := snd (g (w_registry w))\<rparr>) \<Longrightarrow> after r (sbind (on_registry g) k) w"
  by (simp add: after_def sbind_def on_registry_def srun_def case_prod_unfold)

lemma after_get: "after r (k (f w)) w \<Longrightarrow> after r (sbind (sget f) k) w"
  by (simp add: after_def sbind_def sget_def)

lemma after_add_client:
  "after (add_client c (snd (claim_ghost (id_of (w_registry w) c) (w_registry w)))) (svc_add_client E c) w"
  unfolding svc_add_client_def
  by (intro after_get after_on after_upd) (rule after_here, intro calm_intros, simp)

lemma after_remove_client: "after (snd (remove_client i (w_registry w))) (svc_remove_client E i) w"
  unfolding svc_remove_client_def
  by (intro after_on) (rule after_here, intro calm_intros, simp)

lemma login_free_implements:
  assumes i: "implements (w_registry w) s" and f: "frame_ok d" and free: "find_some_by_id (m_source (view d)) (w_registry w) = None"
    and p: "polite_login c (view d) (w_registry w)"
  shows "implements (w_registry (snd (handle_login E c d w))) (s(m_source (view d) \<mapsto> set (title_parts (m_title (view d)))))"
proof (rule after_implements)
  let ?j = "joined (m_source (view d)) (m_title (view d)) c (w_registry w)"
  have "id_of (upd_client c (insert_title t) (upd_client c (set_id k) r)) c = k" for t k r
    by (simp add: set_id_def insert_title_def)
  then have a: "after ?j (svc_add_client E c)
      (w\<lparr>w_registry := upd_client c (insert_title (m_title (view d))) (upd_client c (set_id (m_source (view d))) (w_registry w))\<rparr>)"
    using after_add_client[of c "w\<lparr>w_registry := upd_client c (insert_title (m_title (view d)))
      (upd_client c (set_id (m_source (view d))) (w_registry w))\<rparr>" E] by (simp add: joined_def)
  show "after ?j (handle_login E c d) w"
    unfolding handle_login_def frame_access[OF f] sbind_slift
    by (rule after_get, simp only: free option.case, intro after_upd, rule after_sbind)
      (use a in simp, intro calm_intros)
  have "\<forall>k. dm_get (id2client (w_registry w)) k \<noteq> Some c" "dm_get (id2client (w_registry w)) (m_source (view d)) = None"
      "titles_of (w_registry w) c = []"
    using p free by (force simp: polite_login_def find_some_by_id_def image_iff dest: map_of_SomeD)+
  then show "implements ?j (s(m_source (view d) \<mapsto> set (title_parts (m_title (view d)))))"
    using joined_ok[of "w_registry w" c "m_source (view d)" "m_title (view d)"] i by (simp add: implements_def)
qed

lemma relogged_implements:
  assumes "implements r s" "find_some_by_id i r = Some x" "set (title_parts t) \<subseteq> set (titles_of r x)"
  shows "implements (relogged t c x r) s"
proof -
  have "calm_reg r (relogged t c x r)"
    using assms(3) by (auto simp: calm_reg_def relogged_def insert_title_set)
      (simp_all add: insert_title_def set_sender_def)
  then show ?thesis using assms(1) by (simp add: implements_def calm_reg_ok calm_reg_subs)
qed

lemma login_implements:
  assumes i: "implements (w_registry w) s" and f: "frame_ok d" and p: "polite_login c (view d) (w_registry w)"
  shows "implements (w_registry (snd (handle_login E c d w)))
    (if s (m_source (view d)) = None then s(m_source (view d) \<mapsto> set (title_parts (m_title (view d)))) else s)"
proof (cases "find_some_by_id (m_source (view d)) (w_registry w)")
  case None
  then have "s (m_source (view d)) = None" using i by (auto simp: implements_def subs_def find_some_by_id_def)
  then show ?thesis using login_free_implements[OF i f None p, of E] by simp
next
  case (Some x)
  then have "s (m_source (view d)) \<noteq> None" using i by (auto simp: implements_def subs_def find_some_by_id_def)
  moreover obtain w' where "handle_login E c d w = (Inr ok, w')"
      "quiet (relogged (m_title (view d)) c x (w_registry w)) (w_registry w')"
    by (rule relogin_run[OF f Some, of E c])
  moreover have "implements (relogged (m_title (view d)) c x (w_registry w)) s"
    using relogged_implements[OF i Some] p Some by (simp add: polite_login_def)
  ultimately show ?thesis by (auto simp: implements_def quiet_reg_ok quiet_subs)
qed

lemma session_implements:
  assumes i: "implements (w_registry w) s" and f: "frame_ok d" and m: "mutation_from_command (m_command (view d)) = Some mu"
    and t: "mu = MRegister \<longrightarrow> atomic (m_title (view d))"
  shows "implements (w_registry (snd (handle_session E c d w))) (message_effect (view d) L s)"
proof -
  let ?i = "m_source (view d)" and ?t = "m_title (view d)"
  let ?r = "(case mu of MRegister \<Rightarrow> register_title ?i ?t | MUnregister \<Rightarrow> unregister_title ?i ?t) (w_registry w)"
  have cmd: "m_command (view d) = (case mu of MRegister \<Rightarrow> RegTitle | MUnregister \<Rightarrow> DelTitle)"
    using m by (cases "m_command (view d)") auto
  have "implements ?r (message_effect (view d) L s)"
    using i t by (cases mu) (auto simp: implements_def message_effect_def cmd register_title_ok unregister_title_ok
        subs_register_title subs_unregister_title)
  moreover have "after ?r (handle_session E c d) w"
  proof (cases "find_some_by_id ?i (w_registry w)")
    case None
    then have "?r = w_registry w"
      by (cases mu) (simp_all add: register_title_def unregister_title_def find_some_by_id_def)
    then show ?thesis unfolding handle_session_def frame_access[OF f] sbind_slift m option.case
      by (intro after_get) (simp only: None option.case, intro after_here calm_intros, simp)
  next
    case (Some x)
    show ?thesis unfolding handle_session_def frame_access[OF f] sbind_slift m option.case Let_def
      by (rule after_get) (simp only: Some option.case, intro after_upd after_here calm_intros, simp)
  qed
  ultimately show ?thesis by (intro after_implements)
qed

lemma cast_implements:
  assumes "implements (w_registry w) s" "frame_ok d"
  shows "implements (w_registry (snd (handle_cast E c d w)))
    (\<lambda>i. if i \<in> id_of (w_registry w) ` set (missed (cast_outcomes E w d)) then None else s i)"
proof -
  obtain w' where "handle_cast E c d w = (Inr ok, w')" "cast_result E c d w w'"
    using cast_wp[of w d E c] assms unfolding wp_result implements_def by blast
  then show ?thesis using assms(1) by (auto simp: implements_def cast_result_def)
qed

lemma frame_implements:
  assumes i: "implements (w_registry w) s" and p: "polite (Frame c d) (w_registry w)"
  shows "implements (w_registry (occurs E (Frame c d) w)) (effect E w (Frame c d) s)"
proof -
  have f: "frame_ok d" using p by simp
  have h: "handle E c d = dispatch E c d (m_command (view d))"
    unfolding handle_def frame_access[OF f] sbind_slift ..
  have calm: "calm (dispatch E c d (m_command (view d)))"
    if "m_command (view d) \<notin> {Login, RegTitle, DelTitle, Cast}"
    using that by (cases "m_command (view d)") (simp_all add: dispatch_def calm_intros)
  have "implements (w_registry (snd (handle E c d w))) (effect E w (Frame c d) s)"
  proof (cases "m_command (view d) \<in> {Login, RegTitle, DelTitle, Cast}")
    case True
    then show ?thesis
      using i p f login_implements[OF i f, of c E] session_implements[OF i f, of MRegister E c]
        session_implements[OF i f, of MUnregister E c] cast_implements[OF i f, of E c]
      unfolding h by (auto simp: dispatch_def message_effect_def)
  next
    case False
    then have "effect E w (Frame c d) s = s" by (cases "m_command (view d)") (simp_all add: message_effect_def)
    then show ?thesis using calm_implements[OF calm[OF False] i] unfolding h by simp
  qed
  then show ?thesis
    using after_implements[OF after_sbind[of "w_registry (snd (handle E c d w))" "handle E c d" w "\<lambda>_. touch_peer c"]]
    by (simp add: calm_intros after_def)
qed

lemma accept_implements:
  assumes "implements (w_registry w) s" "polite (Accept c uuid a sd) (w_registry w)"
  shows "implements (w_registry (occurs E (Accept c uuid a sd) w)) s"
proof -
  let ?cl = "set_transport_label ''tcp'' (client_new (w_now w) uuid a [] sd)"
  have "dm_get (id2client (w_registry w)) i \<noteq> Some c" for i
    using assms(2) by (force simp: image_iff dest: map_of_SomeD)
  then have "implements (upd_client c (\<lambda>_. ?cl) (w_registry w)) s"
    using assms(1) alloc_ok[of "w_registry w" c ?cl] by (simp add: implements_def)
  moreover have "after (upd_client c (\<lambda>_. ?cl) (w_registry w)) (sbind (accept c uuid a sd) (\<lambda>_. driver_new c)) w"
    unfolding driver_new_def by (intro after_sbind calm_intros) (simp add: after_def accept_def smod_def)
  ultimately show ?thesis using after_implements by simp
qed

lemma hangup_implements:
  assumes "implements (w_registry w) s"
  shows "implements (w_registry (occurs E (Hangup c) w)) (s(id_of (w_registry w) c := None))"
proof -
  let ?i = "id_of (w_registry w) c"
  obtain w1 where w1: "unregister_client_shutdown ?i w = (Inr (), w1)" "w_registry w1 = w_registry w"
    by (simp add: unregister_client_shutdown_def smod_def)
  then have "occurs E (Hangup c) w = snd (svc_remove_client E ?i w1)" by (simp add: sbind_def sget_def)
  moreover have "implements (snd (remove_client ?i (w_registry w))) (s(?i := None))"
    using assms by (simp add: implements_def remove_client_ok subs_remove_client)
  ultimately show ?thesis
    using after_implements[OF after_remove_client[of ?i w1 E]] by (simp add: w1)
qed

lemma janitor_implements:
  assumes "implements (w_registry w) s"
  shows "implements (w_registry (occurs E (Janitor t) w)) (effect E w (Janitor t) s)"
proof -
  have "reg_ok (w_registry w)" using assms by (simp add: implements_def)
  then obtain w1 where w1: "cleanup_inactive_clients t w = (Inr (), w1)" "swept (take_inactive (w_now w) t (w_registry w)) w w1"
    using inactive_wp[of w t] unfolding wp_result by auto
  have "implements (w_registry w1) (effect E w (Janitor t) s)"
    using w1(2) assms by (auto simp: implements_def swept_def)
  moreover have "after (w_registry w1) (janitor_tick E t) w"
    unfolding janitor_tick_def by (intro after_sbind calm_intros) (simp add: after_def w1)
  ultimately show ?thesis using after_implements by simp
qed

text \<open>Every polite event takes an implementation of the subscriptions to one of its effect on them.\<close>

lemma event_implements:
  assumes i: "implements (w_registry w) s" and p: "polite e (w_registry w)"
  shows "implements (w_registry (occurs E e w)) (effect E w e s)"
proof (cases e)
  case (Accept c uuid a sd)
  then show ?thesis using accept_implements[OF i] p by simp
next
  case (Frame c d)
  then show ?thesis using frame_implements[OF i] p by simp
next
  case (Hangup c)
  then show ?thesis using hangup_implements[OF i, of E c] by simp
next
  case (Janitor t)
  then show ?thesis using janitor_implements[OF i, of E t] by simp
next
  case CloseStores
  then show ?thesis using calm_implements[OF _ i, of "sbind (buffer_close E) (\<lambda>_. state_close E)"] by (simp add: calm_intros)
qed (use i in \<open>simp_all add: calm_implements calm_intros\<close>)

lemma run_implements:
  "implements (w_registry w) s \<Longrightarrow> polite_run E es w \<Longrightarrow>
    implements (w_registry (fold (occurs E) es w)) (effects E es w s)"
  by (induction es arbitrary: w s) (simp_all add: event_implements)

section \<open>Properties\<close>

text \<open>
  C10: In every history of polite clients the registry of the server implements the subscriptions.
  Starting from \<open>build_services\<close>, take any sequence of accepted connections, frames of every command,
  hangups, janitor rounds, cluster messages and starts, cancellations, restores, queued messages and
  changes of the clock, with clients that are polite: frames are well formed, a connection is accepted
  into a fresh object, a login comes on a connection not logged in and without titles under an id not
  connected, or asks under a connected id for titles that client has, and a title is registered alone,
  neither empty nor with a semicolon. Then the registry is consistent, the subscriptions are those the
  events add up to (logins, registrations and removals of titles, hangups, idle clients, and clients a
  cast could not reach), and a lookup of a title returns exactly the ids subscribed to it, each once.
\<close>

theorem server_history:
  assumes "polite_run E es (build_services cfg opened port db h now)"
  shows "let w0 = build_services cfg opened port db h now;
      r = w_registry (fold (occurs E) es w0); s = effects E es w0 Map.empty in
    reg_ok r \<and> subs r = s \<and> distinct (routed_ids t e r)
    \<and> set (routed_ids t e r) = {i. (\<exists>T. s i = Some T \<and> t \<in> T) \<and> e \<noteq> Some i}"
proof -
  let ?w0 = "build_services cfg opened port db h now"
  have "w_registry ?w0 = registry_new h" by (simp add: build_services_def Let_def)
  then have "implements (w_registry ?w0) Map.empty"
    by (simp add: implements_def reg_ok_new) (simp add: subs_def registry_new_def fun_eq_iff)
  from run_implements[OF this assms] show ?thesis
    by (simp add: implements_def Let_def cr.ids_distinct set_eq_iff cr.ids_iff)
qed

section \<open>Witnesses\<close>

definition visit0 :: "event list" where
  "visit0 = [Accept 7 99 ([127, 0, 0, 1], 5000) 12, Frame 7 login0, Frame 7 (rd_new RegTitle ''y'' []),
     Clock 1500, Frame 7 (rd_new DelTitle ''x'' [])]"

lemma visit0_frames:
  "frame_ok (rd_new c ''y'' [])" "view (rd_new c ''y'' []) = \<lparr>m_command = c, m_retcode = Success, m_message_id = 0,
     m_source = 0, m_title = ''y'', m_data = []\<rparr>"
  "frame_ok (rd_new c ''x'' [])" "view (rd_new c ''x'' []) = \<lparr>m_command = c, m_retcode = Success, m_message_id = 0,
     m_source = 0, m_title = ''x'', m_data = []\<rparr>"
  using rd_new_ok[of "''y''" "[]" c] rd_new_ok[of "''x''" "[]" c] by (simp_all add: fits_def)

theorem server_history_witness:
  "let r = w_registry (fold (occurs env0) visit0 world0) in
   subs r = [0 \<mapsto> {''y''}] \<and> routed_ids ''y'' None r = [0] \<and> routed_ids ''x'' None r = []"
proof -
  let ?w = "occurs env0 (Accept 7 99 ([127, 0, 0, 1], 5000) 12) world0"
  have "id2client (w_registry ?w) = []" "titles_of (w_registry ?w) 7 = []"
    by (simp_all add: world0_def build_services_def Let_def registry_new_def accept_def driver_new_def sbind_def sget_def
      smod_def register_client_shutdown_def srun_def client_new_def set_transport_label_def title_parts_x)
  then have p: "polite_run env0 visit0 world0"
    by (simp add: visit0_def visit0_frames login0_def polite_login_def find_some_by_id_def world0_def build_services_def
      registry_new_def Let_def atomic_def del: occurs.simps)
  have s: "effects env0 visit0 world0 Map.empty = [0 \<mapsto> {''y''}]"
    by (auto simp: visit0_def message_effect_def visit0_frames login0_def title_parts_x simp del: occurs.simps)
  have "xs = [0]" if "distinct xs" "set xs = {0}" for xs :: "u128 list"
    using that by (cases xs; cases "tl xs") auto
  then show ?thesis
    using server_history[of env0 visit0 "config_from_id ''rex''" True None "[]" "\<lambda>_. nobody" 1000 "''y''" None]
      server_history[of env0 visit0 "config_from_id ''rex''" True None "[]" "\<lambda>_. nobody" 1000 "''x''" None] p
    unfolding world0_def[symmetric] Let_def s by (auto split: if_splits simp flip: set_empty)
qed

end
