(* ===== verification/Config.thy ===== *)
theory Config
  imports Services
begin

text \<open>
  The configuration of the server (\<^verbatim>\<open>crates/rex-config\<close>, \<^verbatim>\<open>crates/rex-server/src/config.rs\<close> and
  \<^verbatim>\<open>start_server\<close> of \<^verbatim>\<open>crates/rex-cli/src/main.rs\<close>): the schema and its defaults, the validation pass,
  the three override layers and the loader that composes them.

  The environment variables, the files and the TOML parser are given in the record \<open>host\<close>. Strings
  are ASCII where the code lower-cases or trims them, and addresses are IPv4. The reasons of
  \<open>InvalidValue\<close> are left out and one \<open>Semantic\<close> text is shortened; the section, key and value an error
  names are kept.
\<close>

section \<open>The schema\<close>

datatype tracing_format = Pretty | Json

record server_section =
  ss_server_id :: string
  ss_shutdown_grace :: u64
  ss_check_interval :: u64
  ss_client_timeout :: u64

record endpoint_config =
  ep_protocol :: protocol
  ep_address :: socket_addr
  ep_enabled :: bool
  ep_max_buffer_size :: u64
  ep_max_concurrent_handlers :: u64

record cluster_section =
  cs_enabled :: bool
  cs_cluster_addr :: "socket_addr option"
  cs_node_id :: string
  cs_seed_nodes :: "socket_addr list"

record offline_section =
  os_enabled :: bool
  os_ttl_secs :: u64
  os_ghost_ttl_secs :: u64

record persistence_section =
  ps_enabled :: bool
  ps_path :: string
  ps_offline :: offline_section

record ack_section =
  as_enabled :: bool
  as_timeout_ms :: u64
  as_retries :: u32

record observability_config =
  ob_admin_addr :: socket_addr
  ob_admin_token :: "string option"
  ob_tracing_format :: tracing_format
  ob_single_node_cluster_ok :: bool
  ob_admin_metrics_token :: "string option"

record rex_config =
  cfg_server :: server_section
  cfg_endpoints :: "endpoint_config list"
  cfg_cluster :: cluster_section
  cfg_persistence :: persistence_section
  cfg_ack :: ack_section
  cfg_observability :: observability_config

datatype config_error =
    FileNotFound string
  | ParseToml string
  | UnknownKey string string
  | InvalidValue string string string
  | MissingRequired string string
  | Semantic string
  | ConfigIo string

section \<open>Defaults\<close>

definition default_admin_addr :: socket_addr where "default_admin_addr = ([127, 0, 0, 1], 9090)"

definition default_observability :: observability_config where
  "default_observability = \<lparr>ob_admin_addr = default_admin_addr, ob_admin_token = None,
     ob_tracing_format = Pretty, ob_single_node_cluster_ok = True, ob_admin_metrics_token = None\<rparr>"

definition default_cluster_addr :: socket_addr where "default_cluster_addr = ([0, 0, 0, 0], 19882)"

definition default_endpoint :: "protocol \<Rightarrow> 16 word \<Rightarrow> endpoint_config" where
  "default_endpoint p port = \<lparr>ep_protocol = p, ep_address = ([0, 0, 0, 0], port), ep_enabled = True,
     ep_max_buffer_size = 8 * 1024 * 1024, ep_max_concurrent_handlers = 1000\<rparr>"

definition default_config :: rex_config where
  "default_config = \<lparr>
     cfg_server = \<lparr>ss_server_id = ''rex-server'', ss_shutdown_grace = 10, ss_check_interval = 15,
       ss_client_timeout = 45\<rparr>,
     cfg_endpoints = [default_endpoint Tcp 8881, default_endpoint Quic 8882, default_endpoint WebSocket 8883],
     cfg_cluster = \<lparr>cs_enabled = False, cs_cluster_addr = Some default_cluster_addr, cs_node_id = ''auto'',
       cs_seed_nodes = []\<rparr>,
     cfg_persistence = \<lparr>ps_enabled = True, ps_path = ''./.rex_sled'',
       ps_offline = \<lparr>os_enabled = True, os_ttl_secs = 7 * 86400, os_ghost_ttl_secs = 86400\<rparr>\<rparr>,
     cfg_ack = \<lparr>as_enabled = False, as_timeout_ms = 5000, as_retries = 3\<rparr>,
     cfg_observability = default_observability\<rparr>"

section \<open>Validation\<close>

definition validate_server :: "rex_config \<Rightarrow> config_error + unit" where
  "validate_server c = (let s = cfg_server c in
     if ss_server_id s = [] \<or> 64 < length (ss_server_id s)
     then Inl (InvalidValue ''server'' ''server_id'' (ss_server_id s))
     else if 600 < ss_shutdown_grace s
     then Inl (InvalidValue ''server'' ''shutdown_grace'' (decimal (unat (ss_shutdown_grace s))))
     else if ss_check_interval s = 0 \<or> 3600 < ss_check_interval s
     then Inl (InvalidValue ''server'' ''check_interval'' (decimal (unat (ss_check_interval s))))
     else if ss_client_timeout s = 0 \<or> 86400 < ss_client_timeout s
     then Inl (InvalidValue ''server'' ''client_timeout'' (decimal (unat (ss_client_timeout s))))
     else if ss_client_timeout s < ss_check_interval s
     then Inl (Semantic ''server.check_interval'')
     else Inr ())"

fun validate_each :: "nat \<Rightarrow> endpoint_config list \<Rightarrow> config_error + unit" where
  "validate_each idx [] = Inr ()"
| "validate_each idx (ep # eps) =
     (if ep_max_buffer_size ep < 1024 \<or> 64 * 1024 * 1024 < ep_max_buffer_size ep
      then Inl (InvalidValue (''endpoints['' @ decimal idx @ '']'') ''max_buffer_size''
        (decimal (unat (ep_max_buffer_size ep))))
      else if ep_max_concurrent_handlers ep = 0 \<or> 65535 < ep_max_concurrent_handlers ep
      then Inl (InvalidValue (''endpoints['' @ decimal idx @ '']'') ''max_concurrent_handlers''
        (decimal (unat (ep_max_concurrent_handlers ep))))
      else validate_each (Suc idx) eps)"

definition validate_endpoints :: "rex_config \<Rightarrow> config_error + unit" where
  "validate_endpoints c =
     (let enabled_count = length (filter ep_enabled (cfg_endpoints c)) in
      if enabled_count = 0 then Inl (Semantic ''at least one [[endpoints]] entry must have enabled = true'')
      else validate_each 0 (cfg_endpoints c))"

definition validate_cluster :: "rex_config \<Rightarrow> config_error + unit" where
  "validate_cluster c = (let s = cfg_cluster c in
     if cs_enabled s \<and> cs_cluster_addr s = None
     then Inl (Semantic ''cluster.enabled = true but cluster.cluster_addr is not set'')
     else if 64 < length (cs_seed_nodes s)
     then Inl (InvalidValue ''cluster'' ''seed_nodes'' (decimal (length (cs_seed_nodes s))))
     else if 64 < length (cs_node_id s) \<or> CHR '' '' \<in> set (cs_node_id s)
     then Inl (InvalidValue ''cluster'' ''node_id'' (cs_node_id s))
     else Inr ())"

definition ttl_range :: "u64 \<Rightarrow> bool" where "ttl_range t \<longleftrightarrow> 60 \<le> t \<and> t \<le> 30 * 86400"

definition validate_persistence :: "rex_config \<Rightarrow> config_error + unit" where
  "validate_persistence c = (let s = cfg_persistence c in
     if ps_path s = [] then Inl (MissingRequired ''persistence'' ''path'')
     else if \<not> ttl_range (os_ttl_secs (ps_offline s))
     then Inl (InvalidValue ''persistence.offline'' ''ttl_secs'' (decimal (unat (os_ttl_secs (ps_offline s)))))
     else if \<not> ttl_range (os_ghost_ttl_secs (ps_offline s))
     then Inl (InvalidValue ''persistence.offline'' ''ghost_ttl_secs''
       (decimal (unat (os_ghost_ttl_secs (ps_offline s)))))
     else Inr ())"

definition validate_ack :: "rex_config \<Rightarrow> config_error + unit" where
  "validate_ack c = (let s = cfg_ack c in
     if as_timeout_ms s < 10 \<or> 60000 < as_timeout_ms s
     then Inl (InvalidValue ''ack'' ''timeout_ms'' (decimal (unat (as_timeout_ms s))))
     else if 16 < as_retries s then Inl (InvalidValue ''ack'' ''retries'' (decimal (unat (as_retries s))))
     else Inr ())"

definition validate_observability :: "rex_config \<Rightarrow> config_error + unit" where
  "validate_observability c =
     (if snd (ob_admin_addr (cfg_observability c)) = 0
      then Inl (InvalidValue ''observability'' ''admin_addr'' (addr_show (ob_admin_addr (cfg_observability c))))
      else Inr ())"

definition validate_cross_section :: "rex_config \<Rightarrow> config_error + unit" where
  "validate_cross_section c =
     (if \<not> ps_enabled (cfg_persistence c) \<and> os_enabled (ps_offline (cfg_persistence c))
      then Inl (Semantic ''persistence.offline.enabled requires persistence.enabled = true'')
      else Inr ())"

definition validate :: "rex_config \<Rightarrow> config_error + unit" where
  "validate c =
     rbind (validate_server c) (\<lambda>_.
     rbind (validate_endpoints c) (\<lambda>_.
     rbind (validate_cluster c) (\<lambda>_.
     rbind (validate_persistence c) (\<lambda>_.
     rbind (validate_ack c) (\<lambda>_.
     rbind (validate_observability c) (\<lambda>_.
     rbind (validate_cross_section c) (\<lambda>_. Inr ())))))))"

section \<open>Environment variables\<close>

definition parse_bool :: "string \<Rightarrow> string \<Rightarrow> string \<Rightarrow> config_error + bool" where
  "parse_bool sec key s =
     (if s = ''true'' \<or> s = ''1'' \<or> s = ''yes'' then Inr True
      else if s = ''false'' \<or> s = ''0'' \<or> s = ''no'' then Inr False
      else Inl (InvalidValue sec key s))"

text \<open>\<open>str::parse\<close> of an unsigned integer: an optional plus sign, then digits of a value below the bound.\<close>

definition strip_plus :: "string \<Rightarrow> string" where
  "strip_plus s = (if take 1 s = ''+'' then drop 1 s else s)"

definition uint_parse :: "nat \<Rightarrow> string \<Rightarrow> nat option" where
  "uint_parse bound s = read_number None True bound (strip_plus s)"

definition parse_u64 :: "string \<Rightarrow> string \<Rightarrow> string \<Rightarrow> config_error + u64" where
  "parse_u64 sec key s = (case uint_parse (2 ^ 64) s of
     None \<Rightarrow> Inl (InvalidValue sec key s) | Some n \<Rightarrow> Inr (word_of_nat n))"

definition parse_u32 :: "string \<Rightarrow> string \<Rightarrow> string \<Rightarrow> config_error + u32" where
  "parse_u32 sec key s = (case uint_parse (2 ^ 32) s of
     None \<Rightarrow> Inl (InvalidValue sec key s) | Some n \<Rightarrow> Inr (word_of_nat n))"

definition is_space :: "char \<Rightarrow> bool" where
  "is_space ch \<longleftrightarrow> (9 \<le> (of_char ch :: nat) \<and> (of_char ch :: nat) \<le> 13) \<or> of_char ch = (32 :: nat)"

definition trim :: "string \<Rightarrow> string" where
  "trim s = rev (dropWhile is_space (rev (dropWhile is_space s)))"

definition address_list :: "string \<Rightarrow> string list" where
  "address_list s = filter (\<lambda>x. x \<noteq> []) (map trim (split_on CHR '','' s))"

fun parse_each :: "string \<Rightarrow> string \<Rightarrow> string list \<Rightarrow> config_error + socket_addr list" where
  "parse_each sec key [] = Inr []"
| "parse_each sec key (x # xs) = (case addr_parse x of
     None \<Rightarrow> Inl (InvalidValue sec key x)
   | Some a \<Rightarrow> rbind (parse_each sec key xs) (\<lambda>as. Inr (a # as)))"

definition parse_seed_nodes :: "string \<Rightarrow> string \<Rightarrow> string \<Rightarrow> config_error + socket_addr list" where
  "parse_seed_nodes sec key s = parse_each sec key (address_list s)"

definition upd_server :: "(server_section \<Rightarrow> server_section) \<Rightarrow> rex_config \<Rightarrow> rex_config" where
  "upd_server f c = c\<lparr>cfg_server := f (cfg_server c)\<rparr>"

definition upd_cluster :: "(cluster_section \<Rightarrow> cluster_section) \<Rightarrow> rex_config \<Rightarrow> rex_config" where
  "upd_cluster f c = c\<lparr>cfg_cluster := f (cfg_cluster c)\<rparr>"

definition upd_persistence :: "(persistence_section \<Rightarrow> persistence_section) \<Rightarrow> rex_config \<Rightarrow> rex_config" where
  "upd_persistence f c = c\<lparr>cfg_persistence := f (cfg_persistence c)\<rparr>"

definition upd_offline :: "(offline_section \<Rightarrow> offline_section) \<Rightarrow> rex_config \<Rightarrow> rex_config" where
  "upd_offline f = upd_persistence (\<lambda>p. p\<lparr>ps_offline := f (ps_offline p)\<rparr>)"

definition upd_ack :: "(ack_section \<Rightarrow> ack_section) \<Rightarrow> rex_config \<Rightarrow> rex_config" where
  "upd_ack f c = c\<lparr>cfg_ack := f (cfg_ack c)\<rparr>"

definition upd_observability :: "(observability_config \<Rightarrow> observability_config) \<Rightarrow> rex_config \<Rightarrow> rex_config" where
  "upd_observability f c = c\<lparr>cfg_observability := f (cfg_observability c)\<rparr>"

definition merge_value :: "string \<Rightarrow> string \<Rightarrow> string \<Rightarrow> rex_config \<Rightarrow> config_error + rex_config" where
  "merge_value sec key val c =
     (let invalid = Inl (InvalidValue sec key val); u64 = parse_u64 sec key val;
          bool = parse_bool sec key val; at = \<lambda>s k. sec = s \<and> key = k in
      if at ''server'' ''server_id'' then Inr (upd_server (\<lambda>s. s\<lparr>ss_server_id := val\<rparr>) c)
      else if at ''server'' ''shutdown_grace''
      then rbind u64 (\<lambda>v. Inr (upd_server (\<lambda>s. s\<lparr>ss_shutdown_grace := v\<rparr>) c))
      else if at ''server'' ''check_interval''
      then rbind u64 (\<lambda>v. Inr (upd_server (\<lambda>s. s\<lparr>ss_check_interval := v\<rparr>) c))
      else if at ''server'' ''client_timeout''
      then rbind u64 (\<lambda>v. Inr (upd_server (\<lambda>s. s\<lparr>ss_client_timeout := v\<rparr>) c))
      else if at ''cluster'' ''enabled''
      then rbind bool (\<lambda>v. Inr (upd_cluster (\<lambda>s. s\<lparr>cs_enabled := v\<rparr>) c))
      else if at ''cluster'' ''cluster_addr''
      then (case addr_parse val of None \<Rightarrow> invalid
        | Some a \<Rightarrow> Inr (upd_cluster (\<lambda>s. s\<lparr>cs_cluster_addr := Some a\<rparr>) c))
      else if at ''cluster'' ''node_id'' then Inr (upd_cluster (\<lambda>s. s\<lparr>cs_node_id := val\<rparr>) c)
      else if at ''cluster'' ''seed_nodes''
      then rbind (parse_seed_nodes sec key val) (\<lambda>v. Inr (upd_cluster (\<lambda>s. s\<lparr>cs_seed_nodes := v\<rparr>) c))
      else if at ''persistence'' ''enabled''
      then rbind bool (\<lambda>v. Inr (upd_persistence (\<lambda>s. s\<lparr>ps_enabled := v\<rparr>) c))
      else if at ''persistence'' ''path'' then Inr (upd_persistence (\<lambda>s. s\<lparr>ps_path := val\<rparr>) c)
      else if at ''persistence.offline'' ''enabled''
      then rbind bool (\<lambda>v. Inr (upd_offline (\<lambda>s. s\<lparr>os_enabled := v\<rparr>) c))
      else if at ''persistence.offline'' ''ttl_secs''
      then rbind u64 (\<lambda>v. Inr (upd_offline (\<lambda>s. s\<lparr>os_ttl_secs := v\<rparr>) c))
      else if at ''persistence.offline'' ''ghost_ttl_secs''
      then rbind u64 (\<lambda>v. Inr (upd_offline (\<lambda>s. s\<lparr>os_ghost_ttl_secs := v\<rparr>) c))
      else if at ''ack'' ''enabled'' then rbind bool (\<lambda>v. Inr (upd_ack (\<lambda>s. s\<lparr>as_enabled := v\<rparr>) c))
      else if at ''ack'' ''timeout_ms'' then rbind u64 (\<lambda>v. Inr (upd_ack (\<lambda>s. s\<lparr>as_timeout_ms := v\<rparr>) c))
      else if at ''ack'' ''retries''
      then rbind (parse_u32 sec key val) (\<lambda>v. Inr (upd_ack (\<lambda>s. s\<lparr>as_retries := v\<rparr>) c))
      else if at ''observability'' ''admin_token''
      then Inr (upd_observability (\<lambda>s. s\<lparr>ob_admin_token := (if val = [] then None else Some val)\<rparr>) c)
      else if at ''observability'' ''admin_addr''
      then (case addr_parse val of None \<Rightarrow> invalid
        | Some a \<Rightarrow> Inr (upd_observability (\<lambda>s. s\<lparr>ob_admin_addr := a\<rparr>) c))
      else if at ''observability'' ''tracing_format''
      then (if val = ''pretty'' then Inr (upd_observability (\<lambda>s. s\<lparr>ob_tracing_format := Pretty\<rparr>) c)
        else if val = ''json'' then Inr (upd_observability (\<lambda>s. s\<lparr>ob_tracing_format := Json\<rparr>) c)
        else invalid)
      else if at ''observability'' ''single_node_cluster_ok''
      then rbind bool (\<lambda>v. Inr (upd_observability (\<lambda>s. s\<lparr>ob_single_node_cluster_ok := v\<rparr>) c))
      else Inr c)"

datatype config_warning =
    EnvIgnored string string string config_error
  | ServerIdDeprecated
  | InvalidClusterAddr string
  | InvalidSeed string
  | LegacyKey string

definition ENV_PREFIX :: string where "ENV_PREFIX = ''REX__''"

fun split_dunder :: "string \<Rightarrow> string list" where
  "split_dunder [] = [[]]"
| "split_dunder [x] = [[x]]"
| "split_dunder (x # y # xs) =
     (if x = CHR ''_'' \<and> y = CHR ''_'' then [] # split_dunder xs
      else (case split_dunder (y # xs) of [] \<Rightarrow> [[x]] | p # ps \<Rightarrow> (x # p) # ps))"

definition lower :: "char \<Rightarrow> char" where
  "lower ch = (if 65 \<le> (of_char ch :: nat) \<and> (of_char ch :: nat) \<le> 90 then char_of (of_char ch + 32 :: nat) else ch)"

definition to_lowercase :: "string \<Rightarrow> string" where "to_lowercase = map lower"

text \<open>The section and the key a variable names: the first two of the parts after the prefix.\<close>

definition env_key :: "string \<Rightarrow> (string \<times> string) option" where
  "env_key raw_key =
     (if take (length ENV_PREFIX) raw_key \<noteq> ENV_PREFIX then None
      else case split_dunder (drop (length ENV_PREFIX) raw_key) of
        sec # key # _ \<Rightarrow> Some (to_lowercase sec, to_lowercase key)
      | _ \<Rightarrow> None)"

fun apply_env :: "(string \<times> string) list \<Rightarrow> rex_config \<Rightarrow> rex_config \<times> config_warning list" where
  "apply_env [] c = (c, [])"
| "apply_env ((raw_key, raw_val) # vars) c = (case env_key raw_key of
     None \<Rightarrow> apply_env vars c
   | Some (sec, key) \<Rightarrow> (case merge_value sec key raw_val c of
       Inl e \<Rightarrow> (let (c', ws) = apply_env vars c in (c', EnvIgnored sec key raw_val e # ws))
     | Inr c' \<Rightarrow> apply_env vars c'))"

section \<open>Command line\<close>

record cli_overrides =
  co_config_path :: "string option"
  co_server_id :: "string option"
  co_persist :: "bool option"
  co_cluster_enabled :: bool
  co_cluster_addr :: "string option"
  co_seeds :: "string option"
  co_admin_write :: bool

definition cli_cluster :: "cli_overrides \<Rightarrow> rex_config \<Rightarrow> rex_config \<times> config_warning list" where
  "cli_cluster cli c =
     (if co_cluster_enabled cli then
        let (c', w) = (case co_cluster_addr cli of
              Some addr_str \<Rightarrow> (case addr_parse addr_str of
                  Some a \<Rightarrow> (upd_cluster (\<lambda>s. s\<lparr>cs_cluster_addr := Some a\<rparr>) c, [])
                | None \<Rightarrow> (c, [InvalidClusterAddr addr_str]))
            | None \<Rightarrow> (if cs_cluster_addr (cfg_cluster c) = None
                then (upd_cluster (\<lambda>s. s\<lparr>cs_cluster_addr := addr_parse ''0.0.0.0:19882''\<rparr>) c, [])
                else (c, [])))
        in (upd_cluster (\<lambda>s. s\<lparr>cs_enabled := True\<rparr>) c', w)
      else (c, []))"

definition cli_seeds :: "cli_overrides \<Rightarrow> rex_config \<Rightarrow> rex_config \<times> config_warning list" where
  "cli_seeds cli c = (case co_seeds cli of
     None \<Rightarrow> (c, [])
   | Some seeds \<Rightarrow> (let xs = address_list seeds in
       (upd_cluster (\<lambda>s. s\<lparr>cs_seed_nodes := List.map_filter addr_parse xs\<rparr>) c,
        map InvalidSeed (filter (\<lambda>x. addr_parse x = None) xs))))"

definition apply_cli :: "cli_overrides \<Rightarrow> rex_config \<Rightarrow> rex_config \<times> config_warning list" where
  "apply_cli cli c =
     (let (c1, w1) = (case co_server_id cli of None \<Rightarrow> (c, [])
            | Some v \<Rightarrow> (upd_server (\<lambda>s. s\<lparr>ss_server_id := v\<rparr>) c, [ServerIdDeprecated]));
          c2 = (case co_persist cli of None \<Rightarrow> c1 | Some v \<Rightarrow> upd_persistence (\<lambda>s. s\<lparr>ps_enabled := v\<rparr>) c1);
          (c3, w2) = cli_cluster cli c2;
          (c4, w3) = cli_seeds cli c3
      in (c4, w1 @ w2 @ w3))"

section \<open>The configuration file\<close>

datatype file_content = Unreadable | Readable string

record host =
  h_vars :: "(string \<times> string) list"
  h_file :: "string \<Rightarrow> file_content option"
  h_toml :: "string \<Rightarrow> rex_config option"

definition is_file :: "host \<Rightarrow> string \<Rightarrow> bool" where "is_file h p \<longleftrightarrow> h_file h p \<noteq> None"

fun contains :: "string \<Rightarrow> string \<Rightarrow> bool" where
  "contains pat [] = (pat = [])"
| "contains pat (x # xs) = (take (length pat) (x # xs) = pat \<or> contains pat xs)"

definition LEGACY_KEYS :: "string list" where
  "LEGACY_KEYS = [''persistence_enabled'', ''persistence_path'', ''offline_enabled'', ''offline_ttl'',
     ''ack_enabled'', ''ack_timeout'', ''ack_retries'']"

definition collect_legacy_alias_warnings :: "string \<Rightarrow> config_warning list" where
  "collect_legacy_alias_warnings body = map LegacyKey (filter (\<lambda>k. contains (k @ '' ='') body) LEGACY_KEYS)"

definition parse_toml :: "host \<Rightarrow> string \<Rightarrow> config_error + rex_config \<times> config_warning list" where
  "parse_toml h path = (case h_file h path of
     None \<Rightarrow> Inl (FileNotFound path)
   | Some Unreadable \<Rightarrow> Inl (ConfigIo path)
   | Some (Readable body) \<Rightarrow> (case h_toml h body of
       None \<Rightarrow> Inl (ParseToml path)
     | Some c \<Rightarrow> Inr (c, collect_legacy_alias_warnings body)))"

section \<open>The loader\<close>

definition DEFAULT_TOML_PATHS :: "string list" where
  "DEFAULT_TOML_PATHS = [''./rex.toml'', ''./config/rex.toml'', ''/etc/rex/rex.toml'']"

record loader =
  ld_explicit_path :: "string option"
  ld_cli_overrides :: cli_overrides

definition default_overrides :: cli_overrides where
  "default_overrides = \<lparr>co_config_path = None, co_server_id = None, co_persist = None,
     co_cluster_enabled = False, co_cluster_addr = None, co_seeds = None, co_admin_write = False\<rparr>"

definition loader_new :: loader where
  "loader_new = \<lparr>ld_explicit_path = None, ld_cli_overrides = default_overrides\<rparr>"

definition with_config_path_opt :: "string option \<Rightarrow> loader \<Rightarrow> loader" where
  "with_config_path_opt p l = l\<lparr>ld_explicit_path := p\<rparr>"

definition with_config_path :: "string \<Rightarrow> loader \<Rightarrow> loader" where
  "with_config_path p l = l\<lparr>ld_explicit_path := Some p\<rparr>"

definition with_cli_overrides :: "cli_overrides \<Rightarrow> loader \<Rightarrow> loader" where
  "with_cli_overrides o' l = l\<lparr>ld_cli_overrides := o'\<rparr>"

definition resolve_path :: "host \<Rightarrow> loader \<Rightarrow> config_error + string option" where
  "resolve_path h l = (case ld_explicit_path l of
     Some p \<Rightarrow> if is_file h p then Inr (Some p) else Inl (FileNotFound p)
   | None \<Rightarrow> (case map_of (h_vars h) ''REX_CONFIG'' of
       Some p \<Rightarrow> if is_file h p then Inr (Some p) else Inl (FileNotFound p)
     | None \<Rightarrow> Inr (find (is_file h) DEFAULT_TOML_PATHS)))"

definition load :: "host \<Rightarrow> loader \<Rightarrow> config_error + rex_config \<times> config_warning list" where
  "load h l =
     rbind (resolve_path h l) (\<lambda>path.
     rbind (case path of None \<Rightarrow> Inr (default_config, []) | Some p \<Rightarrow> parse_toml h p) (\<lambda>(c1, w1).
     let (c2, w2) = apply_env (h_vars h) c1;
         (c3, w3) = apply_cli (ld_cli_overrides l) c2
     in rbind (validate c3) (\<lambda>_. Inr (c3, w1 @ w2 @ w3))))"

section \<open>The configuration of the server\<close>

record srv_cluster_config =
  sl_enabled :: bool
  sl_cluster_addr :: socket_addr
  sl_seed_nodes :: "socket_addr list"
  sl_node_id :: "string option"

record server_config =
  sv_protocol :: protocol
  sv_bind_addr :: socket_addr
  sv_enabled :: bool
  sv_max_buffer_size :: u64
  sv_max_concurrent_handlers :: u64
  sv_cluster :: "srv_cluster_config option"

definition server_config_new :: "protocol \<Rightarrow> socket_addr \<Rightarrow> server_config" where
  "server_config_new p a = \<lparr>sv_protocol = p, sv_bind_addr = a, sv_enabled = True,
     sv_max_buffer_size = 8 * 1024 * 1024, sv_max_concurrent_handlers = 1000, sv_cluster = None\<rparr>"

definition server_config_from_addr :: "socket_addr \<Rightarrow> server_config" where
  "server_config_from_addr = server_config_new Tcp"

definition enable_cluster :: "socket_addr \<Rightarrow> server_config \<Rightarrow> server_config" where
  "enable_cluster a s = s\<lparr>sv_cluster := Some \<lparr>sl_enabled = True, sl_cluster_addr = a, sl_seed_nodes = [],
     sl_node_id = None\<rparr>\<rparr>"

definition add_seed_node :: "socket_addr \<Rightarrow> server_config \<Rightarrow> server_config" where
  "add_seed_node a s = s\<lparr>sv_cluster := map_option (\<lambda>c. c\<lparr>sl_seed_nodes := sl_seed_nodes c @ [a]\<rparr>) (sv_cluster s)\<rparr>"

definition set_node_id :: "string \<Rightarrow> server_config \<Rightarrow> server_config" where
  "set_node_id n s = s\<lparr>sv_cluster := map_option (\<lambda>c. c\<lparr>sl_node_id := Some n\<rparr>) (sv_cluster s)\<rparr>"

definition is_cluster_enabled :: "server_config \<Rightarrow> bool" where
  "is_cluster_enabled s = (case sv_cluster s of None \<Rightarrow> False | Some c \<Rightarrow> sl_enabled c)"

definition from_endpoint :: "endpoint_config \<Rightarrow> server_config" where
  "from_endpoint ep = (server_config_new (ep_protocol ep) (ep_address ep))
     \<lparr>sv_enabled := ep_enabled ep, sv_max_buffer_size := ep_max_buffer_size ep,
      sv_max_concurrent_handlers := ep_max_concurrent_handlers ep\<rparr>"

definition endpoints_from_config :: "rex_config \<Rightarrow> server_config list" where
  "endpoints_from_config r = map from_endpoint (cfg_endpoints r)"

definition cluster_from_config :: "rex_config \<Rightarrow> srv_cluster_config option" where
  "cluster_from_config r = (let c = cfg_cluster r in
     Some \<lparr>sl_enabled = cs_enabled c,
       sl_cluster_addr = (case cs_cluster_addr c of None \<Rightarrow> default_cluster_addr | Some a \<Rightarrow> a),
       sl_seed_nodes = cs_seed_nodes c,
       sl_node_id = (if cs_node_id c = ''auto'' then None else Some (cs_node_id c))\<rparr>)"

definition system_config_from :: "rex_config \<Rightarrow> system_config" where
  "system_config_from r = \<lparr>sc_server_id = ss_server_id (cfg_server r),
     sc_check_interval = ss_check_interval (cfg_server r),
     sc_client_timeout = ss_client_timeout (cfg_server r),
     sc_persistence_enabled = ps_enabled (cfg_persistence r),
     sc_persistence_path = ps_path (cfg_persistence r),
     sc_offline_enabled = os_enabled (ps_offline (cfg_persistence r)),
     sc_offline_ttl = os_ttl_secs (ps_offline (cfg_persistence r)),
     sc_ack_enabled = as_enabled (cfg_ack r),
     sc_ack_timeout = as_timeout_ms (cfg_ack r),
     sc_ack_retries = as_retries (cfg_ack r),
     sc_ghost_ttl_secs = os_ghost_ttl_secs (ps_offline (cfg_persistence r))\<rparr>"

record server_args =
  sa_address :: "string option"
  sa_protocol :: "string option"
  sa_server_id :: "string option"
  sa_persist :: "bool option"
  sa_cluster :: "bool option"
  sa_cluster_addr :: "string option"
  sa_seeds :: "string option"

text \<open>\<open>start_server\<close> up to the two calls that build the services and open the server.\<close>

definition start_server ::
  "host \<Rightarrow> string option \<Rightarrow> server_args \<Rightarrow> config_error + system_config \<times> server_config" where
  "start_server h config_path args =
     (let overrides = default_overrides\<lparr>co_server_id := sa_server_id args, co_persist := sa_persist args,
            co_cluster_enabled := (case sa_cluster args of None \<Rightarrow> False | Some b \<Rightarrow> b),
            co_cluster_addr := sa_cluster_addr args, co_seeds := sa_seeds args\<rparr>
      in rbind (load h (with_cli_overrides overrides (with_config_path_opt config_path loader_new))) (\<lambda>(root_cfg, _).
         let system_config = system_config_from root_cfg;
             endpoints = endpoints_from_config root_cfg;
             cluster_cfg = cluster_from_config root_cfg;
             server_config = (case endpoints of [] \<Rightarrow> server_config_new Tcp ([127, 0, 0, 1], 8881) | e # _ \<Rightarrow> e)
         in Inr (system_config, server_config\<lparr>sv_cluster := cluster_cfg\<rparr>)))"

section \<open>What a valid configuration is\<close>

definition endpoint_ok :: "endpoint_config \<Rightarrow> bool" where
  "endpoint_ok ep \<longleftrightarrow> ep_max_buffer_size ep \<in> {1024..64 * 1024 * 1024} \<and> ep_max_concurrent_handlers ep \<in> {1..65535}"

definition config_ok :: "rex_config \<Rightarrow> bool" where
  "config_ok c \<longleftrightarrow>
     length (ss_server_id (cfg_server c)) \<in> {1..64} \<and> ss_shutdown_grace (cfg_server c) \<le> 600
   \<and> ss_check_interval (cfg_server c) \<in> {1..3600} \<and> ss_client_timeout (cfg_server c) \<in> {1..86400}
   \<and> ss_check_interval (cfg_server c) \<le> ss_client_timeout (cfg_server c)
   \<and> (\<exists>ep \<in> set (cfg_endpoints c). ep_enabled ep) \<and> list_all endpoint_ok (cfg_endpoints c)
   \<and> (cs_enabled (cfg_cluster c) \<longrightarrow> cs_cluster_addr (cfg_cluster c) \<noteq> None)
   \<and> length (cs_seed_nodes (cfg_cluster c)) \<le> 64
   \<and> length (cs_node_id (cfg_cluster c)) \<le> 64 \<and> CHR '' '' \<notin> set (cs_node_id (cfg_cluster c))
   \<and> ps_path (cfg_persistence c) \<noteq> []
   \<and> os_ttl_secs (ps_offline (cfg_persistence c)) \<in> {60..30 * 86400}
   \<and> os_ghost_ttl_secs (ps_offline (cfg_persistence c)) \<in> {60..30 * 86400}
   \<and> as_timeout_ms (cfg_ack c) \<in> {10..60000} \<and> as_retries (cfg_ack c) \<le> 16
   \<and> snd (ob_admin_addr (cfg_observability c)) \<noteq> 0
   \<and> (os_enabled (ps_offline (cfg_persistence c)) \<longrightarrow> ps_enabled (cfg_persistence c))"

lemma rbind_unit_ok: "rbind r f = Inr x \<longleftrightarrow> (\<exists>u. r = Inr u \<and> f u = Inr x)"
  by (cases r) (auto simp: rbind_def)

lemma guard_ok: "(if P then Inl e else r) = Inr u \<longleftrightarrow> \<not> P \<and> r = Inr u"
  by simp

lemma word_one_le: "1 \<le> (x :: 'a::len word) \<longleftrightarrow> x \<noteq> 0"
  by (simp add: word_le_nat_alt Suc_le_eq unat_gt_0)

lemma list_size_one_le: "Suc 0 \<le> length xs \<longleftrightarrow> xs \<noteq> []"
  by (cases xs) auto

lemma validate_each_ok: "validate_each i eps = Inr u \<longleftrightarrow> list_all endpoint_ok eps"
  by (induction eps arbitrary: i) (auto simp: endpoint_ok_def word_one_le not_less)

lemma validate_endpoints_ok:
  "validate_endpoints c = Inr u \<longleftrightarrow> (\<exists>ep \<in> set (cfg_endpoints c). ep_enabled ep) \<and> list_all endpoint_ok (cfg_endpoints c)"
  by (auto simp: validate_endpoints_def Let_def validate_each_ok filter_empty_conv)

lemma validate_server_ok:
  "validate_server c = Inr u \<longleftrightarrow> length (ss_server_id (cfg_server c)) \<in> {1..64} \<and> ss_shutdown_grace (cfg_server c) \<le> 600
   \<and> ss_check_interval (cfg_server c) \<in> {1..3600} \<and> ss_client_timeout (cfg_server c) \<in> {1..86400}
   \<and> ss_check_interval (cfg_server c) \<le> ss_client_timeout (cfg_server c)"
  by (auto simp: validate_server_def Let_def guard_ok word_one_le list_size_one_le not_less)

lemma validate_cluster_ok:
  "validate_cluster c = Inr u \<longleftrightarrow> (cs_enabled (cfg_cluster c) \<longrightarrow> cs_cluster_addr (cfg_cluster c) \<noteq> None)
   \<and> length (cs_seed_nodes (cfg_cluster c)) \<le> 64
   \<and> length (cs_node_id (cfg_cluster c)) \<le> 64 \<and> CHR '' '' \<notin> set (cs_node_id (cfg_cluster c))"
  by (auto simp: validate_cluster_def Let_def guard_ok not_less)

lemma validate_persistence_ok:
  "validate_persistence c = Inr u \<longleftrightarrow> ps_path (cfg_persistence c) \<noteq> []
   \<and> os_ttl_secs (ps_offline (cfg_persistence c)) \<in> {60..30 * 86400}
   \<and> os_ghost_ttl_secs (ps_offline (cfg_persistence c)) \<in> {60..30 * 86400}"
  by (auto simp: validate_persistence_def ttl_range_def Let_def guard_ok)

lemma validate_ack_ok:
  "validate_ack c = Inr u \<longleftrightarrow> as_timeout_ms (cfg_ack c) \<in> {10..60000} \<and> as_retries (cfg_ack c) \<le> 16"
  by (auto simp: validate_ack_def Let_def guard_ok not_less)

lemma validate_ok: "validate c = Inr u \<longleftrightarrow> config_ok c"
  unfolding config_ok_def validate_def rbind_unit_ok validate_server_ok validate_endpoints_ok validate_cluster_ok
    validate_persistence_ok validate_ack_ok
  by (simp add: validate_observability_def validate_cross_section_def guard_ok) blast

section \<open>Settings\<close>

text \<open>
  The settings that a variable or a flag can change, one by one: the name of each, its value in a
  configuration, how a text is read for it, and the configuration with another value.
\<close>

datatype setting =
    ServerId | ShutdownGrace | CheckInterval | ClientTimeout | ClusterEnabled | ClusterAddr | NodeId
  | SeedNodes | PersistenceEnabled | PersistencePath | OfflineEnabled | OfflineTtl | GhostTtl
  | AckEnabled | AckTimeoutMs | AckRetries | AdminToken | AdminAddr | Format | SingleNodeOk

datatype setting_value =
    VStr (the_str: string) | VU64 (the_u64: u64) | VU32 (the_u32: u32) | VBool (the_bool: bool)
  | VAddr (the_addr: "socket_addr option") | VAddrs (the_addrs: "socket_addr list")
  | VToken (the_token: "string option") | VFormat (the_format: tracing_format)

definition setting_names :: "((string \<times> string) \<times> setting) list" where
  "setting_names = [((''server'', ''server_id''), ServerId), ((''server'', ''shutdown_grace''), ShutdownGrace),
     ((''server'', ''check_interval''), CheckInterval), ((''server'', ''client_timeout''), ClientTimeout),
     ((''cluster'', ''enabled''), ClusterEnabled), ((''cluster'', ''cluster_addr''), ClusterAddr),
     ((''cluster'', ''node_id''), NodeId), ((''cluster'', ''seed_nodes''), SeedNodes),
     ((''persistence'', ''enabled''), PersistenceEnabled), ((''persistence'', ''path''), PersistencePath),
     ((''persistence.offline'', ''enabled''), OfflineEnabled), ((''persistence.offline'', ''ttl_secs''), OfflineTtl),
     ((''persistence.offline'', ''ghost_ttl_secs''), GhostTtl), ((''ack'', ''enabled''), AckEnabled),
     ((''ack'', ''timeout_ms''), AckTimeoutMs), ((''ack'', ''retries''), AckRetries),
     ((''observability'', ''admin_token''), AdminToken), ((''observability'', ''admin_addr''), AdminAddr),
     ((''observability'', ''tracing_format''), Format), ((''observability'', ''single_node_cluster_ok''), SingleNodeOk)]"

fun setting_of :: "rex_config \<Rightarrow> setting \<Rightarrow> setting_value" where
  "setting_of c ServerId = VStr (ss_server_id (cfg_server c))"
| "setting_of c ShutdownGrace = VU64 (ss_shutdown_grace (cfg_server c))"
| "setting_of c CheckInterval = VU64 (ss_check_interval (cfg_server c))"
| "setting_of c ClientTimeout = VU64 (ss_client_timeout (cfg_server c))"
| "setting_of c ClusterEnabled = VBool (cs_enabled (cfg_cluster c))"
| "setting_of c ClusterAddr = VAddr (cs_cluster_addr (cfg_cluster c))"
| "setting_of c NodeId = VStr (cs_node_id (cfg_cluster c))"
| "setting_of c SeedNodes = VAddrs (cs_seed_nodes (cfg_cluster c))"
| "setting_of c PersistenceEnabled = VBool (ps_enabled (cfg_persistence c))"
| "setting_of c PersistencePath = VStr (ps_path (cfg_persistence c))"
| "setting_of c OfflineEnabled = VBool (os_enabled (ps_offline (cfg_persistence c)))"
| "setting_of c OfflineTtl = VU64 (os_ttl_secs (ps_offline (cfg_persistence c)))"
| "setting_of c GhostTtl = VU64 (os_ghost_ttl_secs (ps_offline (cfg_persistence c)))"
| "setting_of c AckEnabled = VBool (as_enabled (cfg_ack c))"
| "setting_of c AckTimeoutMs = VU64 (as_timeout_ms (cfg_ack c))"
| "setting_of c AckRetries = VU32 (as_retries (cfg_ack c))"
| "setting_of c AdminToken = VToken (ob_admin_token (cfg_observability c))"
| "setting_of c AdminAddr = VAddr (Some (ob_admin_addr (cfg_observability c)))"
| "setting_of c Format = VFormat (ob_tracing_format (cfg_observability c))"
| "setting_of c SingleNodeOk = VBool (ob_single_node_cluster_ok (cfg_observability c))"

text \<open>How the text of a variable is read for a setting; \<open>None\<close> when it is not a value of it.\<close>

definition read_bool :: "string \<Rightarrow> setting_value option" where
  "read_bool v = (if v \<in> {''true'', ''1'', ''yes''} then Some (VBool True)
     else if v \<in> {''false'', ''0'', ''no''} then Some (VBool False) else None)"

definition read_u64 :: "string \<Rightarrow> setting_value option" where
  "read_u64 v = map_option (\<lambda>n. VU64 (word_of_nat n)) (uint_parse (2 ^ 64) v)"

fun all_some :: "'a option list \<Rightarrow> 'a list option" where
  "all_some [] = Some []"
| "all_some (None # xs) = None"
| "all_some (Some x # xs) = map_option ((#) x) (all_some xs)"

fun read_setting :: "setting \<Rightarrow> string \<Rightarrow> setting_value option" where
  "read_setting ServerId v = Some (VStr v)"
| "read_setting NodeId v = Some (VStr v)"
| "read_setting PersistencePath v = Some (VStr v)"
| "read_setting ClusterEnabled v = read_bool v"
| "read_setting PersistenceEnabled v = read_bool v"
| "read_setting OfflineEnabled v = read_bool v"
| "read_setting AckEnabled v = read_bool v"
| "read_setting SingleNodeOk v = read_bool v"
| "read_setting AckRetries v = map_option (\<lambda>n. VU32 (word_of_nat n)) (uint_parse (2 ^ 32) v)"
| "read_setting ClusterAddr v = map_option (\<lambda>a. VAddr (Some a)) (addr_parse v)"
| "read_setting AdminAddr v = map_option (\<lambda>a. VAddr (Some a)) (addr_parse v)"
| "read_setting SeedNodes v = map_option VAddrs (all_some (map addr_parse (address_list v)))"
| "read_setting AdminToken v = Some (VToken (if v = [] then None else Some v))"
| "read_setting Format v = (if v = ''pretty'' then Some (VFormat Pretty) else if v = ''json'' then Some (VFormat Json) else None)"
| "read_setting _ v = read_u64 v"

text \<open>What the variables make of a setting: the last one that names it with a readable text.\<close>

definition named :: "string \<Rightarrow> setting option" where
  "named raw_key = Option.bind (env_key raw_key) (map_of setting_names)"

definition assigned :: "setting \<Rightarrow> string \<times> string \<Rightarrow> setting_value option" where
  "assigned s var = (if named (fst var) = Some s then read_setting s (snd var) else None)"

definition env_value :: "(string \<times> string) list \<Rightarrow> setting \<Rightarrow> setting_value \<Rightarrow> setting_value" where
  "env_value vars s v0 = fold (\<lambda>var v. case assigned s var of None \<Rightarrow> v | Some x \<Rightarrow> x) vars v0"

lemmas upd_section_defs = upd_server_def upd_cluster_def upd_persistence_def upd_offline_def upd_ack_def
  upd_observability_def

lemma parse_each_read:
  "parse_each sec key xs = Inr as \<longleftrightarrow> all_some (map addr_parse xs) = Some as"
  by (induction xs arbitrary: as) (auto simp: rbind_unit_ok split: option.splits)

primrec write_setting :: "setting \<Rightarrow> setting_value \<Rightarrow> rex_config \<Rightarrow> rex_config" where
  "write_setting ServerId x c = upd_server (\<lambda>s. s\<lparr>ss_server_id := the_str x\<rparr>) c"
| "write_setting ShutdownGrace x c = upd_server (\<lambda>s. s\<lparr>ss_shutdown_grace := the_u64 x\<rparr>) c"
| "write_setting CheckInterval x c = upd_server (\<lambda>s. s\<lparr>ss_check_interval := the_u64 x\<rparr>) c"
| "write_setting ClientTimeout x c = upd_server (\<lambda>s. s\<lparr>ss_client_timeout := the_u64 x\<rparr>) c"
| "write_setting ClusterEnabled x c = upd_cluster (\<lambda>s. s\<lparr>cs_enabled := the_bool x\<rparr>) c"
| "write_setting ClusterAddr x c = upd_cluster (\<lambda>s. s\<lparr>cs_cluster_addr := the_addr x\<rparr>) c"
| "write_setting NodeId x c = upd_cluster (\<lambda>s. s\<lparr>cs_node_id := the_str x\<rparr>) c"
| "write_setting SeedNodes x c = upd_cluster (\<lambda>s. s\<lparr>cs_seed_nodes := the_addrs x\<rparr>) c"
| "write_setting PersistenceEnabled x c = upd_persistence (\<lambda>s. s\<lparr>ps_enabled := the_bool x\<rparr>) c"
| "write_setting PersistencePath x c = upd_persistence (\<lambda>s. s\<lparr>ps_path := the_str x\<rparr>) c"
| "write_setting OfflineEnabled x c = upd_offline (\<lambda>s. s\<lparr>os_enabled := the_bool x\<rparr>) c"
| "write_setting OfflineTtl x c = upd_offline (\<lambda>s. s\<lparr>os_ttl_secs := the_u64 x\<rparr>) c"
| "write_setting GhostTtl x c = upd_offline (\<lambda>s. s\<lparr>os_ghost_ttl_secs := the_u64 x\<rparr>) c"
| "write_setting AckEnabled x c = upd_ack (\<lambda>s. s\<lparr>as_enabled := the_bool x\<rparr>) c"
| "write_setting AckTimeoutMs x c = upd_ack (\<lambda>s. s\<lparr>as_timeout_ms := the_u64 x\<rparr>) c"
| "write_setting AckRetries x c = upd_ack (\<lambda>s. s\<lparr>as_retries := the_u32 x\<rparr>) c"
| "write_setting AdminToken x c = upd_observability (\<lambda>s. s\<lparr>ob_admin_token := the_token x\<rparr>) c"
| "write_setting AdminAddr x c = upd_observability (\<lambda>s. s\<lparr>ob_admin_addr := the (the_addr x)\<rparr>) c"
| "write_setting Format x c = upd_observability (\<lambda>s. s\<lparr>ob_tracing_format := the_format x\<rparr>) c"
| "write_setting SingleNodeOk x c = upd_observability (\<lambda>s. s\<lparr>ob_single_node_cluster_ok := the_bool x\<rparr>) c"

lemma rbind_map_sum:
  "(case rbind r (\<lambda>v. Inr (f v)) of Inl _ \<Rightarrow> None | Inr c \<Rightarrow> Some c) = (case r of Inl _ \<Rightarrow> None | Inr v \<Rightarrow> Some (f v))"
  by (cases r) (auto simp: rbind_def)

lemma parse_u64_read: "(case parse_u64 sec key v of Inl _ \<Rightarrow> None | Inr n \<Rightarrow> Some (f n))
  = map_option (\<lambda>x. f (the_u64 x)) (read_u64 v)"
  by (simp add: parse_u64_def read_u64_def option.map_comp o_def split: option.split)

lemma parse_bool_read: "(case parse_bool sec key v of Inl _ \<Rightarrow> None | Inr b \<Rightarrow> Some (f b))
  = map_option (\<lambda>x. f (the_bool x)) (read_bool v)"
  by (simp add: parse_bool_def read_bool_def)

lemma parse_seed_nodes_read: "(case parse_seed_nodes sec key v of Inl _ \<Rightarrow> None | Inr as \<Rightarrow> Some (f as))
  = map_option f (all_some (map addr_parse (address_list v)))"
proof (cases "parse_each sec key (address_list v)")
  case (Inl e)
  then have "all_some (map addr_parse (address_list v)) = None"
    using parse_each_read[of sec key "address_list v"] by (metis Inl_Inr_False not_Some_eq)
  with Inl show ?thesis by (simp add: parse_seed_nodes_def)
next
  case (Inr as)
  with parse_each_read[of sec key "address_list v" as] show ?thesis by (simp add: parse_seed_nodes_def)
qed

definition merged :: "string \<times> string \<Rightarrow> string \<Rightarrow> rex_config \<Rightarrow> rex_config option" where
  "merged name v c = (case map_of setting_names name of
     None \<Rightarrow> Some c | Some s \<Rightarrow> map_option (\<lambda>x. write_setting s x c) (read_setting s v))"

lemma merge_value_merged: "(case merge_value sec key v c of Inl _ \<Rightarrow> None | Inr c' \<Rightarrow> Some c') = merged (sec, key) v c"
proof (cases "map_of setting_names (sec, key)")
  case None
  then have "merge_value sec key v c = Inr c"
    by (simp only: map_of_eq_None_iff setting_names_def list.set image_insert image_empty fst_conv insert_iff
        empty_iff de_Morgan_disj prod.inject simp_thms merge_value_def Let_def if_False)
  with None show ?thesis by (simp add: merged_def)
next
  case (Some s)
  from map_of_SomeD[OF this] have "((sec, key), s) \<in> set setting_names" .
  then show ?thesis
    unfolding merged_def Some option.case
    by (simp only: setting_names_def list.set insert_iff empty_iff simp_thms prod.inject)
      (elim disjE; clarify;
       simp add: merge_value_def Let_def rbind_map_sum parse_u64_read parse_bool_read parse_seed_nodes_read
         parse_u32_def option.map_comp o_def split: option.split)
qed

lemma setting_other: "s' \<noteq> s \<Longrightarrow> setting_of (write_setting s x c) s' = setting_of c s'"
  by (cases s; cases s'; simp add: upd_section_defs)

lemma one_of_two: "(if P then Some a else if Q then Some b else None) = Some x \<Longrightarrow> x = a \<or> x = b"
  by (auto split: if_splits)

lemma read_bool_is: "read_bool v = Some x \<Longrightarrow> VBool (the_bool x) = x"
  unfolding read_bool_def by (drule one_of_two) auto

lemma read_u64_is: "read_u64 v = Some x \<Longrightarrow> VU64 (the_u64 x) = x"
  unfolding read_u64_def by (cases "uint_parse (2 ^ 64) v") auto

lemma setting_same: "read_setting s v = Some x \<Longrightarrow> setting_of (write_setting s x c) s = x"
  by (cases s) (auto simp: upd_section_defs read_bool_is read_u64_is split: if_splits)

lemma setting_written:
  "read_setting s v = Some x \<Longrightarrow> setting_of (write_setting s x c) s' = (if s' = s then x else setting_of c s')"
  using setting_other setting_same by simp

lemma write_rest [simp]:
  "cfg_endpoints (write_setting s x c) = cfg_endpoints c"
  "ob_admin_metrics_token (cfg_observability (write_setting s x c)) = ob_admin_metrics_token (cfg_observability c)"
  by (cases s; simp add: upd_section_defs)+

lemma apply_env_rest:
  "cfg_endpoints (fst (apply_env vars c)) = cfg_endpoints c \<and>
   ob_admin_metrics_token (cfg_observability (fst (apply_env vars c))) = ob_admin_metrics_token (cfg_observability c)"
proof (induction vars c rule: apply_env.induct)
  case (2 k v vars c)
  have "cfg_endpoints c' = cfg_endpoints c \<and>
      ob_admin_metrics_token (cfg_observability c') = ob_admin_metrics_token (cfg_observability c)"
    if "merge_value sec key v c = Inr c'" for sec key c'
    using merge_value_merged[of sec key v c] that by (auto simp: merged_def map_option_case split: option.splits)
  with 2 show ?case by (auto split: option.splits sum.splits prod.splits)
qed simp

lemma env_value_step:
  "env_value ((k, v) # vars) s x = env_value vars s (case assigned s (k, v) of None \<Rightarrow> x | Some y \<Rightarrow> y)"
  by (simp add: env_value_def)

lemma merged_setting:
  assumes "env_key k = Some name" "merged name v c = Some c'"
  shows "setting_of c' s = (case assigned s (k, v) of None \<Rightarrow> setting_of c s | Some y \<Rightarrow> y)"
  using assms setting_written[where v = v]
  by (auto simp: merged_def assigned_def named_def split: option.splits)

lemma merged_none:
  assumes "env_key k = Some name" "merged name v c = None"
  shows "assigned s (k, v) = None"
  using assms by (auto simp: merged_def assigned_def named_def split: option.splits)

lemma apply_env_setting: "setting_of (fst (apply_env vars c)) s = env_value vars s (setting_of c s)"
proof (induction vars c rule: apply_env.induct)
  case (2 k v vars c)
  show ?case
  proof (cases "env_key k")
    case None
    with 2(1) show ?thesis by (simp add: env_value_step assigned_def named_def)
  next
    case (Some name)
    obtain sec key where name: "name = (sec, key)" by (cases name)
    show ?thesis
    proof (cases "merge_value sec key v c")
      case (Inl e)
      with merge_value_merged[of sec key v c] have "merged (sec, key) v c = None" by simp
      from merged_none[OF _ this] Some name have "assigned s (k, v) = None" by simp
      with 2(2)[OF Some name[symmetric] Inl] Some name Inl show ?thesis
        by (simp add: env_value_step split_beta)
    next
      case (Inr c')
      with merge_value_merged[of sec key v c] have "merged (sec, key) v c = Some c'" by simp
      from merged_setting[OF _ this] Some name have "setting_of c' s = (case assigned s (k, v) of None \<Rightarrow> setting_of c s | Some y \<Rightarrow> y)" by simp
      with 2(3)[OF Some name[symmetric] Inr] Some name Inr show ?thesis
        by (simp add: env_value_step)
    qed
  qed
qed (simp add: env_value_def)

text \<open>What the flags make of a setting that has the value \<open>v\<close> without them.\<close>

fun cli_value :: "cli_overrides \<Rightarrow> setting \<Rightarrow> setting_value \<Rightarrow> setting_value" where
  "cli_value cli ServerId v = (case co_server_id cli of None \<Rightarrow> v | Some i \<Rightarrow> VStr i)"
| "cli_value cli PersistenceEnabled v = (case co_persist cli of None \<Rightarrow> v | Some b \<Rightarrow> VBool b)"
| "cli_value cli ClusterEnabled v = (if co_cluster_enabled cli then VBool True else v)"
| "cli_value cli ClusterAddr v =
     (if \<not> co_cluster_enabled cli then v
      else case co_cluster_addr cli of
        None \<Rightarrow> (if v = VAddr None then VAddr (Some default_cluster_addr) else v)
      | Some a \<Rightarrow> (case addr_parse a of None \<Rightarrow> v | Some x \<Rightarrow> VAddr (Some x)))"
| "cli_value cli SeedNodes v =
     (case co_seeds cli of None \<Rightarrow> v | Some xs \<Rightarrow> VAddrs (List.map_filter addr_parse (address_list xs)))"
| "cli_value cli _ v = v"

lemma addr_parse_default: "addr_parse ''0.0.0.0:19882'' = Some default_cluster_addr"
  by (simp add: addr_parse_def default_cluster_addr_def read_number_def is_digit_def digits_val_def)

definition opt_write :: "setting \<Rightarrow> setting_value option \<Rightarrow> rex_config \<Rightarrow> rex_config" where
  "opt_write s ov c = (case ov of None \<Rightarrow> c | Some x \<Rightarrow> write_setting s x c)"

definition cli_addr :: "cli_overrides \<Rightarrow> rex_config \<Rightarrow> setting_value option" where
  "cli_addr cli c = (if \<not> co_cluster_enabled cli then None
     else case co_cluster_addr cli of
       None \<Rightarrow> (if setting_of c ClusterAddr = VAddr None then Some (VAddr (Some default_cluster_addr)) else None)
     | Some a \<Rightarrow> map_option (\<lambda>x. VAddr (Some x)) (addr_parse a))"

lemma cli_cluster_writes: "fst (cli_cluster cli c) =
    opt_write ClusterEnabled (if co_cluster_enabled cli then Some (VBool True) else None) (opt_write ClusterAddr (cli_addr cli c) c)"
  by (auto simp: cli_cluster_def opt_write_def cli_addr_def addr_parse_default split: option.split)

lemma cli_seeds_writes: "fst (cli_seeds cli c) =
    opt_write SeedNodes (map_option (\<lambda>xs. VAddrs (List.map_filter addr_parse (address_list xs))) (co_seeds cli)) c"
  by (simp add: cli_seeds_def opt_write_def Let_def split: option.split)

lemma apply_cli_writes:
  "fst (apply_cli cli c) = fst (cli_seeds cli (fst (cli_cluster cli
     (opt_write PersistenceEnabled (map_option VBool (co_persist cli))
       (opt_write ServerId (map_option VStr (co_server_id cli)) c)))))"
  by (cases "co_server_id cli"; cases "co_persist cli") (simp_all add: apply_cli_def opt_write_def split_beta Let_def)

lemma opt_write_other: "s' \<noteq> s \<Longrightarrow> setting_of (opt_write s ov c) s' = setting_of c s'"
  by (simp add: opt_write_def setting_other split: option.split)

lemma opt_write_rest [simp]:
  "cfg_endpoints (opt_write s ov c) = cfg_endpoints c"
  "ob_admin_metrics_token (cfg_observability (opt_write s ov c)) = ob_admin_metrics_token (cfg_observability c)"
  by (simp_all add: opt_write_def split: option.split)

lemma opt_write_same:
  "setting_of (opt_write ServerId (map_option VStr i) c) ServerId = (case i of None \<Rightarrow> setting_of c ServerId | Some x \<Rightarrow> VStr x)"
  "setting_of (opt_write PersistenceEnabled (map_option VBool b) c) PersistenceEnabled
     = (case b of None \<Rightarrow> setting_of c PersistenceEnabled | Some x \<Rightarrow> VBool x)"
  "setting_of (opt_write ClusterEnabled (if p then Some (VBool True) else None) c) ClusterEnabled
     = (if p then VBool True else setting_of c ClusterEnabled)"
  "setting_of (opt_write SeedNodes (map_option (\<lambda>y. VAddrs (f y)) a) c) SeedNodes
     = (case a of None \<Rightarrow> setting_of c SeedNodes | Some y \<Rightarrow> VAddrs (f y))"
  by (simp_all add: opt_write_def upd_section_defs split: option.split)

lemma cli_addr_value: "setting_of (opt_write ClusterAddr (cli_addr cli c) c) ClusterAddr = cli_value cli ClusterAddr (setting_of c ClusterAddr)"
  by (auto simp: opt_write_def cli_addr_def upd_section_defs split: option.split)

lemma apply_cli_setting: "setting_of (fst (apply_cli cli c)) s = cli_value cli s (setting_of c s)"
  unfolding apply_cli_writes cli_seeds_writes cli_cluster_writes
  by (cases s) (simp_all add: opt_write_other opt_write_same cli_addr_value del: setting_of.simps cli_value.simps(4)
      split: option.split)

lemma apply_cli_rest:
  "cfg_endpoints (fst (apply_cli cli c)) = cfg_endpoints c"
  "ob_admin_metrics_token (cfg_observability (fst (apply_cli cli c))) = ob_admin_metrics_token (cfg_observability c)"
  by (simp_all add: apply_cli_writes cli_seeds_writes cli_cluster_writes)

section \<open>The loader decides every setting\<close>

text \<open>What the file gives, or the defaults when there is none.\<close>

definition base_config :: "host \<Rightarrow> loader \<Rightarrow> config_error + rex_config \<times> config_warning list" where
  "base_config h l = rbind (resolve_path h l) (\<lambda>path.
     case path of None \<Rightarrow> Inr (default_config, []) | Some p \<Rightarrow> parse_toml h p)"

text \<open>Every setting comes from the highest layer that sets it: flag, variable, file or default.\<close>

definition layered :: "host \<Rightarrow> loader \<Rightarrow> rex_config \<Rightarrow> rex_config \<Rightarrow> bool" where
  "layered h l b c \<longleftrightarrow> cfg_endpoints c = cfg_endpoints b
     \<and> ob_admin_metrics_token (cfg_observability c) = ob_admin_metrics_token (cfg_observability b)
     \<and> (\<forall>s. setting_of c s = cli_value (ld_cli_overrides l) s (env_value (h_vars h) s (setting_of b s)))"

lemma setting_ext:
  fixes c c' :: rex_config
  assumes "cfg_endpoints c = cfg_endpoints c'"
    and "ob_admin_metrics_token (cfg_observability c) = ob_admin_metrics_token (cfg_observability c')"
    and "\<And>s. setting_of c s = setting_of c' s"
  shows "c = c'"
proof (intro rex_config.equality)
  show "cfg_server c = cfg_server c'"
    using assms(3)[of ServerId] assms(3)[of ShutdownGrace] assms(3)[of CheckInterval] assms(3)[of ClientTimeout]
    by (intro server_section.equality) auto
  show "cfg_cluster c = cfg_cluster c'"
    using assms(3)[of ClusterEnabled] assms(3)[of ClusterAddr] assms(3)[of NodeId] assms(3)[of SeedNodes]
    by (intro cluster_section.equality) auto
  show "cfg_persistence c = cfg_persistence c'"
    using assms(3)[of PersistenceEnabled] assms(3)[of PersistencePath] assms(3)[of OfflineEnabled]
      assms(3)[of OfflineTtl] assms(3)[of GhostTtl]
    by (intro persistence_section.equality offline_section.equality) auto
  show "cfg_ack c = cfg_ack c'"
    using assms(3)[of AckEnabled] assms(3)[of AckTimeoutMs] assms(3)[of AckRetries]
    by (intro ack_section.equality) auto
  show "cfg_observability c = cfg_observability c'"
    using assms(2) assms(3)[of AdminToken] assms(3)[of AdminAddr] assms(3)[of Format] assms(3)[of SingleNodeOk]
    by (intro observability_config.equality) auto
qed (use assms(1) in auto)

definition merge_layers :: "host \<Rightarrow> loader \<Rightarrow> rex_config \<Rightarrow> rex_config" where
  "merge_layers h l b = fst (apply_cli (ld_cli_overrides l) (fst (apply_env (h_vars h) b)))"

lemma merge_layers_layered: "layered h l b c \<longleftrightarrow> c = merge_layers h l b"
proof -
  have "layered h l b (merge_layers h l b)"
    unfolding layered_def merge_layers_def by (simp add: apply_cli_rest apply_env_rest apply_cli_setting apply_env_setting)
  then show ?thesis by (metis layered_def setting_ext)
qed

lemma merge_layers_setting:
  "setting_of (merge_layers h l b) s = cli_value (ld_cli_overrides l) s (env_value (h_vars h) s (setting_of b s))"
  using merge_layers_layered[of h l b "merge_layers h l b"] by (simp add: layered_def)

lemma load_base: "load h l = rbind (base_config h l) (\<lambda>(b, w). rbind (validate (merge_layers h l b)) (\<lambda>_.
    Inr (merge_layers h l b, w @ snd (apply_env (h_vars h) b)
      @ snd (apply_cli (ld_cli_overrides l) (fst (apply_env (h_vars h) b))))))"
  unfolding load_def base_config_def merge_layers_def
  by (cases "resolve_path h l") (auto simp: rbind_def split_beta Let_def split: sum.split)

lemma load_ok:
  "load h l = Inr (c, ws) \<Longrightarrow> config_ok c \<and> (\<exists>b w. base_config h l = Inr (b, w) \<and> c = merge_layers h l b)"
  by (auto simp: load_base rbind_unit_ok validate_ok)

text \<open>
  C19: The loader gives exactly the configuration that its layers determine. It returns a configuration
  when the file resolves, reads and parses and the merged values pass validation, and the one it
  returns has every setting from the highest layer that sets it: the command line, then the last
  environment variable that names it with a readable value, then the file or, without one, the
  defaults; the listeners come from the file or the defaults alone; and it lies within the documented
  ranges.
\<close>

theorem load_exact:
  "(\<exists>ws. load h l = Inr (c, ws)) \<longleftrightarrow>
     config_ok c \<and> (\<exists>b w. base_config h l = Inr (b, w) \<and> layered h l b c)"
  by (auto simp: load_base rbind_unit_ok validate_ok merge_layers_layered)

section \<open>What the server is started with\<close>

definition overrides_of :: "server_args \<Rightarrow> cli_overrides" where
  "overrides_of args = default_overrides\<lparr>co_server_id := sa_server_id args, co_persist := sa_persist args,
     co_cluster_enabled := (case sa_cluster args of None \<Rightarrow> False | Some b \<Rightarrow> b),
     co_cluster_addr := sa_cluster_addr args, co_seeds := sa_seeds args\<rparr>"

definition loader_of :: "string option \<Rightarrow> server_args \<Rightarrow> loader" where
  "loader_of p args = \<lparr>ld_explicit_path = p, ld_cli_overrides = overrides_of args\<rparr>"

lemma start_server_load:
  "start_server h p args = rbind (load h (loader_of p args)) (\<lambda>(c, _). Inr (system_config_from c,
     (case cfg_endpoints c of [] \<Rightarrow> server_config_new Tcp ([127, 0, 0, 1], 8881) | e # _ \<Rightarrow> from_endpoint e)
       \<lparr>sv_cluster := cluster_from_config c\<rparr>))"
  unfolding start_server_def Let_def loader_of_def overrides_of_def with_cli_overrides_def with_config_path_opt_def
    loader_new_def
  by (intro arg_cong2[where f = rbind] refl ext) (auto simp: endpoints_from_config_def split: list.split)

lemma config_ok_endpoint: "config_ok c \<Longrightarrow> \<exists>ep eps. cfg_endpoints c = ep # eps \<and> endpoint_ok ep"
  by (cases "cfg_endpoints c") (auto simp: config_ok_def)

text \<open>
  C20: A server that starts has a usable configuration. Its check interval is at least one second and
  at most an hour and the client timeout, its time limits lie in their ranges, and offline messages are enabled
  only with persistence. It listens on the first of the configured listeners, with a buffer limit and
  a connection limit in range: neither the other listeners nor the flags for address and protocol nor
  whether that listener is enabled have an influence.
\<close>

theorem started_server:
  assumes "start_server h p args = Inr (sys, sv)"
  shows "sc_check_interval sys \<in> {1..3600} \<and> sc_check_interval sys \<le> sc_client_timeout sys \<and> sc_client_timeout sys \<le> 86400
    \<and> sc_ack_timeout sys \<in> {10..60000} \<and> sc_ack_retries sys \<le> 16
    \<and> sc_offline_ttl sys \<in> {60..2592000} \<and> sc_ghost_ttl_secs sys \<in> {60..2592000}
    \<and> (sc_offline_enabled sys \<longrightarrow> sc_persistence_enabled sys) \<and> sc_persistence_path sys \<noteq> []
    \<and> sv_max_buffer_size sv \<in> {1024..67108864} \<and> sv_max_concurrent_handlers sv \<in> {1..65535}
    \<and> (\<exists>b w ep eps. base_config h (loader_of p args) = Inr (b, w) \<and> cfg_endpoints b = ep # eps
        \<and> sv_protocol sv = ep_protocol ep \<and> sv_bind_addr sv = ep_address ep)"
proof -
  obtain c ws where l: "load h (loader_of p args) = Inr (c, ws)" and sys: "sys = system_config_from c"
    and sv: "sv = (case cfg_endpoints c of [] \<Rightarrow> server_config_new Tcp ([127, 0, 0, 1], 8881) | e # _ \<Rightarrow> from_endpoint e)
       \<lparr>sv_cluster := cluster_from_config c\<rparr>"
    using assms by (auto simp: start_server_load rbind_unit_ok)
  from load_ok[OF l] obtain b w where ok: "config_ok c" and b: "base_config h (loader_of p args) = Inr (b, w)"
    and c: "c = merge_layers h (loader_of p args) b" by blast
  from config_ok_endpoint[OF ok] obtain ep eps where ep: "cfg_endpoints c = ep # eps" "endpoint_ok ep" by blast
  have "cfg_endpoints b = ep # eps"
    using merge_layers_layered[of h "loader_of p args" b c] c ep by (simp add: layered_def)
  then show ?thesis
    using ok b ep by (auto simp: sys sv system_config_from_def from_endpoint_def server_config_new_def endpoint_ok_def config_ok_def)
qed

text \<open>
  Persistence cannot be switched off by its flag alone. When no configuration file is found and no
  variable changes the offline setting, the loader rejects the flag that disables persistence: the
  default keeps offline messages enabled, which needs persistence.
\<close>

theorem persist_off_rejected:
  assumes "resolve_path h l = Inr None" "env_value (h_vars h) OfflineEnabled (VBool True) = VBool True"
    and "co_persist (ld_cli_overrides l) = Some False"
  shows "\<exists>e. load h l = Inl e"
proof -
  have "\<not> config_ok (merge_layers h l default_config)"
  proof
    assume ok: "config_ok (merge_layers h l default_config)"
    have "setting_of (merge_layers h l default_config) OfflineEnabled = VBool True"
      "setting_of (merge_layers h l default_config) PersistenceEnabled = VBool False"
      unfolding merge_layers_setting using assms(2,3) by (simp_all add: default_config_def)
    with ok show False by (simp add: config_ok_def)
  qed
  then have "load h l \<noteq> Inr r" for r
    using assms(1) by (cases r) (auto simp: load_base base_config_def rbind_unit_ok validate_ok)
  then show ?thesis by (cases "load h l") auto
qed

section \<open>Witnesses\<close>

definition host0 :: host where "host0 = \<lparr>h_vars = [(''REX__SERVER__CHECK_INTERVAL'', ''30'')], h_file = Map.empty, h_toml = Map.empty\<rparr>"

definition args0 :: server_args where
  "args0 = \<lparr>sa_address = Some ''10.0.0.1:9999'', sa_protocol = Some ''quic'', sa_server_id = None, sa_persist = None,
     sa_cluster = None, sa_cluster_addr = None, sa_seeds = None\<rparr>"

lemma host0_key: "env_key ''REX__SERVER__CHECK_INTERVAL'' = Some (''server'', ''check_interval'')"
  by code_simp

lemma host0_env: "apply_env (h_vars host0) default_config = (upd_server (\<lambda>s. s\<lparr>ss_check_interval := 30\<rparr>) default_config, [])"
  by (simp add: host0_def host0_key merge_value_def parse_u64_def uint_parse_def strip_plus_def read_number_def is_digit_def
      digits_val_def rbind_def)

lemma host0_base: "base_config host0 (loader_of None args0) = Inr (default_config, [])"
  by (simp add: base_config_def resolve_path_def loader_of_def host0_def is_file_def rbind_def DEFAULT_TOML_PATHS_def)

lemma host0_load:
  "load host0 (loader_of None args0) = Inr (upd_server (\<lambda>s. s\<lparr>ss_check_interval := 30\<rparr>) default_config, [])"
proof -
  have m: "merge_layers host0 (loader_of None args0) default_config = upd_server (\<lambda>s. s\<lparr>ss_check_interval := 30\<rparr>) default_config"
    by (simp add: merge_layers_def host0_env apply_cli_def cli_cluster_def cli_seeds_def loader_of_def overrides_of_def default_overrides_def args0_def)
  have "config_ok (upd_server (\<lambda>s. s\<lparr>ss_check_interval := 30\<rparr>) default_config)"
    by (simp add: config_ok_def endpoint_ok_def default_config_def default_endpoint_def default_observability_def
        default_admin_addr_def upd_section_defs)
  then have "validate (upd_server (\<lambda>s. s\<lparr>ss_check_interval := 30\<rparr>) default_config) = Inr ()" by (simp add: validate_ok)
  then show ?thesis
    by (simp add: load_base host0_base m host0_env rbind_def) (simp add: apply_cli_def cli_cluster_def cli_seeds_def loader_of_def overrides_of_def default_overrides_def args0_def)
qed

theorem started_server_witness:
  "start_server host0 None args0 = Inr (system_config_from (upd_server (\<lambda>s. s\<lparr>ss_check_interval := 30\<rparr>) default_config),
     (from_endpoint (default_endpoint Tcp 8881))\<lparr>sv_cluster := cluster_from_config default_config\<rparr>)
   \<and> (\<exists>b w ep eps. base_config host0 (loader_of None args0) = Inr (b, w) \<and> cfg_endpoints b = ep # eps
        \<and> Tcp = ep_protocol ep \<and> ([0, 0, 0, 0], 8881) = ep_address ep)"
proof -
  have s: "start_server host0 None args0 = Inr (system_config_from (upd_server (\<lambda>s. s\<lparr>ss_check_interval := 30\<rparr>) default_config),
     (from_endpoint (default_endpoint Tcp 8881))\<lparr>sv_cluster := cluster_from_config default_config\<rparr>)"
    by (simp add: start_server_load host0_load rbind_def cluster_from_config_def upd_server_def) (simp add: default_config_def)
  from started_server[OF this] show ?thesis
    by (intro conjI s) (simp add: from_endpoint_def default_endpoint_def server_config_new_def)
qed

theorem persist_off_rejected_witness:
  "\<exists>e. load host0 (loader_of None (args0\<lparr>sa_persist := Some False\<rparr>)) = Inl e"
  by (rule persist_off_rejected)
    (simp_all add: resolve_path_def loader_of_def host0_def is_file_def DEFAULT_TOML_PATHS_def overrides_of_def
      env_value_def assigned_def named_def host0_key setting_names_def)

end
