(* ===== verification/Admin.thy ===== *)
theory Admin
  imports Connection Sessions Config
begin

text \<open>
  The health checks and the admin routes of \<^verbatim>\<open>crates/rex-observability\<close> (\<^verbatim>\<open>health.rs\<close>, \<^verbatim>\<open>probe/*.rs\<close>,
  \<^verbatim>\<open>admin.rs\<close>) over the adapters with which \<^verbatim>\<open>open_server\<close> connects them to the server
  (\<^verbatim>\<open>crates/rex-server/src/lib.rs\<close>, \<^verbatim>\<open>system/mod_adapters.rs\<close>).

  A probe is a name with a check of the server's state; a check that panics gives \<open>None\<close>. The HTTP
  server and its matching of paths are not modelled: a request is one of the routes with the text of
  its authorization header. The metrics route is left out with the metrics.
\<close>

section \<open>Probes\<close>

datatype probe_result = Healthy | Degraded string | Unhealthy string

datatype aggregate_status = AllHealthy | SomeDegraded | SomeUnhealthy

record aggregated_health =
  ah_status :: aggregate_status
  ah_results :: "(string \<times> probe_result) list"

type_synonym 'w probe = "string \<times> ('w \<Rightarrow> probe_result option)"

definition health_new :: "'w probe list" where "health_new = []"

definition health_register :: "'w probe \<Rightarrow> 'w probe list \<Rightarrow> 'w probe list" where
  "health_register p ps = ps @ [p]"

definition probe_outcome :: "'w \<Rightarrow> 'w probe \<Rightarrow> probe_result" where
  "probe_outcome w p = (case snd p w of Some r \<Rightarrow> r | None \<Rightarrow> Unhealthy ''probe_panicked'')"

fun worsen :: "probe_result \<Rightarrow> aggregate_status \<Rightarrow> aggregate_status" where
  "worsen (Unhealthy _) _ = SomeUnhealthy"
| "worsen (Degraded _) AllHealthy = SomeDegraded"
| "worsen _ s = s"

definition check_all :: "'w \<Rightarrow> 'w probe list \<Rightarrow> aggregated_health" where
  "check_all w ps = foldl (\<lambda>h p. let r = probe_outcome w p in
     \<lparr>ah_status = worsen r (ah_status h), ah_results = ah_results h @ [(fst p, r)]\<rparr>)
     \<lparr>ah_status = AllHealthy, ah_results = []\<rparr> ps"

definition registry_check :: "nat \<Rightarrow> nat \<Rightarrow> probe_result" where
  "registry_check limit clients =
     (if 0 < limit \<and> limit \<le> clients
      then Unhealthy (''client_count '' @ decimal clients @ '' >= max '' @ decimal limit) else Healthy)"

definition cluster_check :: "bool \<Rightarrow> bool \<Rightarrow> nat \<Rightarrow> probe_result" where
  "cluster_check single_node_ok local_node_present peers =
     (if \<not> local_node_present then Unhealthy ''local node not registered''
      else if peers = 0 \<and> \<not> single_node_ok then Degraded ''no cluster peers (single-node?)''
      else Healthy)"

definition persistence_check :: "string option \<Rightarrow> probe_result" where
  "persistence_check last_error = (case last_error of Some err \<Rightarrow> Degraded err | None \<Rightarrow> Healthy)"

definition forwarder_check :: "bool \<Rightarrow> probe_result" where
  "forwarder_check node_manager_ready = (if node_manager_ready then Healthy else Degraded ''cluster not started'')"

section \<open>The server's side\<close>

record client_summary =
  cy_id :: u128
  cy_transport :: string
  cy_titles :: "string list"
  cy_connected_secs :: u64

definition obs_client_count :: "'db world \<Rightarrow> nat" where
  "obs_client_count w = length (list_snapshots (w_now w) (w_registry w))"

definition obs_title_count :: "'db world \<Rightarrow> nat" where
  "obs_title_count w = length (remdups (concat (map sn_titles (list_snapshots (w_now w) (w_registry w)))))"

definition obs_max_clients :: nat where "obs_max_clients = 0"

definition obs_list_clients :: "'db world \<Rightarrow> client_summary list" where
  "obs_list_clients w = map (\<lambda>s. \<lparr>cy_id = sn_id s, cy_transport = sn_transport s, cy_titles = sn_titles s,
     cy_connected_secs = sn_connected_secs s\<rparr>) (list_snapshots (w_now w) (w_registry w))"

text \<open>\<open>saturating_sub\<close> on the number of nodes is the subtraction of natural numbers.\<close>

definition obs_peer_count :: "'db world \<Rightarrow> nat" where
  "obs_peer_count w = length (port_get_nodes w) - 1"

definition obs_local_node_present :: "'db world \<Rightarrow> bool" where
  "obs_local_node_present w \<longleftrightarrow> port_get_local_node_id w \<noteq> None"

text \<open>The probes that \<open>open_server\<close> registers, in order; \<open>txt\<close> is the text of a store's error.\<close>

definition server_probes :: "(store_error \<Rightarrow> string) \<Rightarrow> observability_config \<Rightarrow> 'db world probe list" where
  "server_probes txt obs =
     health_register (''forwarder'', \<lambda>w. Some (forwarder_check (is_cluster_started w)))
     (health_register (''persistence'', \<lambda>w. Some (persistence_check (map_option txt (state_last_error w))))
     (health_register (''persistence'', \<lambda>w. Some (persistence_check (map_option txt (buffer_last_error w))))
     (health_register (''cluster'', \<lambda>w. Some (cluster_check (ob_single_node_cluster_ok obs)
        (obs_local_node_present w) (obs_peer_count w)))
     (health_register (''registry'', \<lambda>w. Some (registry_check obs_max_clients (obs_client_count w))) health_new))))"

record 'db admin_state =
  ad_health :: "'db world probe list"
  ad_token :: "string option"
  ad_registry :: "('db world \<Rightarrow> client_summary list) option"
  ad_cancel :: "(u128 \<Rightarrow> ('db world, bool) srv) option"

text \<open>
  The state that \<open>open_server\<close> hands to the admin routes, with all probes registered: the routes are
  served already from shortly before that point on.
\<close>

definition server_admin :: "(store_error \<Rightarrow> string) \<Rightarrow> observability_config \<Rightarrow> 'db admin_state" where
  "server_admin txt obs = \<lparr>ad_health = server_probes txt obs, ad_token = ob_admin_token obs,
     ad_registry = Some obs_list_clients, ad_cancel = Some cancel_client\<rparr>"

section \<open>Routes\<close>

record client_view =
  cv_id :: string
  cv_transport :: string
  cv_titles :: "string list"
  cv_connected_secs :: u64

record probe_entry =
  pe_name :: string
  pe_status :: string
  pe_reason :: "string option"

datatype body = Text string | Ready string "probe_entry list" | Clients "client_view list"

type_synonym response = "nat \<times> body"

definition healthz_handler :: response where "healthz_handler = (200, Text ''ok'')"

fun status_text :: "aggregate_status \<Rightarrow> string" where
  "status_text AllHealthy = ''healthy''"
| "status_text SomeDegraded = ''degraded''"
| "status_text SomeUnhealthy = ''unhealthy''"

fun entry_of :: "string \<times> probe_result \<Rightarrow> probe_entry" where
  "entry_of (n, Healthy) = \<lparr>pe_name = n, pe_status = ''healthy'', pe_reason = None\<rparr>"
| "entry_of (n, Degraded r) = \<lparr>pe_name = n, pe_status = ''degraded'', pe_reason = Some r\<rparr>"
| "entry_of (n, Unhealthy r) = \<lparr>pe_name = n, pe_status = ''unhealthy'', pe_reason = Some r\<rparr>"

definition readyz_handler :: "'db admin_state \<Rightarrow> 'db world \<Rightarrow> response" where
  "readyz_handler S w =
     (let agg = check_all w (ad_health S);
          body = Ready (status_text (ah_status agg)) (map entry_of (ah_results agg));
          status = (if ah_status agg = SomeUnhealthy then 503 else 200)
      in (status, body))"

definition hex_digit :: "nat \<Rightarrow> char" where
  "hex_digit n = (if n < 10 then char_of (48 + n) else char_of (55 + n))"

text \<open>Format \<^verbatim>\<open>{:032X}\<close>: the 32 hexadecimal digits of a 128-bit number.\<close>

primrec hex_fixed :: "nat \<Rightarrow> nat \<Rightarrow> string" where
  "hex_fixed 0 n = []"
| "hex_fixed (Suc k) n = hex_fixed k (n div 16) @ [hex_digit (n mod 16)]"

definition id_text :: "u128 \<Rightarrow> string" where "id_text i = hex_fixed 32 (unat i)"

definition list_clients_handler :: "'db admin_state \<Rightarrow> 'db world \<Rightarrow> response" where
  "list_clients_handler S w =
     (let snaps = (case ad_registry S of Some r \<Rightarrow> r w | None \<Rightarrow> [])
      in (200, Clients (map (\<lambda>c. \<lparr>cv_id = id_text (cy_id c), cv_transport = cy_transport c,
            cv_titles = cy_titles c, cv_connected_secs = cy_connected_secs c\<rparr>) snaps)))"

definition hex_digit_val :: "char \<Rightarrow> nat option" where
  "hex_digit_val ch = (let n = of_char ch :: nat in
     if 48 \<le> n \<and> n \<le> 57 then Some (n - 48)
     else if 65 \<le> n \<and> n \<le> 70 then Some (n - 55)
     else if 97 \<le> n \<and> n \<le> 102 then Some (n - 87) else None)"

fun hex_value :: "nat \<Rightarrow> string \<Rightarrow> nat option" where
  "hex_value acc [] = Some acc"
| "hex_value acc (ch # s) = (case hex_digit_val ch of None \<Rightarrow> None | Some d \<Rightarrow> hex_value (acc * 16 + d) s)"

text \<open>\<open>u128::from_str_radix\<close> with radix 16: an optional plus sign, at least one digit, no overflow.\<close>

definition u128_from_hex :: "string \<Rightarrow> u128 option" where
  "u128_from_hex s = (let ds = strip_plus s in
     if ds = [] then None
     else case hex_value 0 ds of
       Some n \<Rightarrow> if n < 2 ^ 128 then Some (word_of_nat n) else None
     | None \<Rightarrow> None)"

definition disconnect_handler :: "'db admin_state \<Rightarrow> string \<Rightarrow> ('db world, response) srv" where
  "disconnect_handler S id_hex = (case u128_from_hex id_hex of
     None \<Rightarrow> sret (400, Text ''invalid id'')
   | Some i \<Rightarrow> (case ad_cancel S of
       None \<Rightarrow> sret (503, Text ''cancel not wired'')
     | Some cancel \<Rightarrow> sbind (cancel i) (\<lambda>found.
         if found then sret (202, Text ''disconnect scheduled'') else sret (404, Text ''client not found''))))"

definition bearer :: "string option \<Rightarrow> string option" where
  "bearer auth = (case auth of
     None \<Rightarrow> None
   | Some s \<Rightarrow> if take 7 s = ''Bearer '' then Some (drop 7 s) else None)"

definition require_admin_token ::
  "'db admin_state \<Rightarrow> string option \<Rightarrow> ('db world, response) srv \<Rightarrow> ('db world, response) srv" where
  "require_admin_token S auth next = (case ad_token S of
     None \<Rightarrow> sret (401, Text ''unauthorized'')
   | Some expected \<Rightarrow> (case bearer auth of
       Some t \<Rightarrow> if t = expected then next else sret (401, Text ''unauthorized'')
     | None \<Rightarrow> sret (401, Text ''unauthorized'')))"

datatype admin_route = GetHealthz | GetReadyz | GetClients | PostDisconnect string

text \<open>\<open>build_router_with_state\<close>: two public routes, and two behind the token.\<close>

fun serve_route :: "'db admin_state \<Rightarrow> admin_route \<Rightarrow> string option \<Rightarrow> ('db world, response) srv" where
  "serve_route S GetHealthz auth = sret healthz_handler"
| "serve_route S GetReadyz auth = sget (readyz_handler S)"
| "serve_route S GetClients auth = require_admin_token S auth (sget (list_clients_handler S))"
| "serve_route S (PostDisconnect id_hex) auth = require_admin_token S auth (disconnect_handler S id_hex)"

section \<open>Lemmas\<close>

definition worst :: "probe_result list \<Rightarrow> aggregate_status" where
  "worst rs = (if list_ex (\<lambda>r. \<exists>s. r = Unhealthy s) rs then SomeUnhealthy
     else if list_ex (\<lambda>r. \<exists>s. r = Degraded s) rs then SomeDegraded else AllHealthy)"

lemma worsen_snoc: "worsen r (worst rs) = worst (rs @ [r])"
  by (cases r) (auto simp: worst_def)

lemma check_all_worst:
  "check_all w ps = \<lparr>ah_status = worst (map (probe_outcome w) ps), ah_results = map (\<lambda>p. (fst p, probe_outcome w p)) ps\<rparr>"
proof -
  have "foldl (\<lambda>h p. let r = probe_outcome w p in
       \<lparr>ah_status = worsen r (ah_status h), ah_results = ah_results h @ [(fst p, r)]\<rparr>)
       \<lparr>ah_status = worst rs, ah_results = xs\<rparr> ps
     = \<lparr>ah_status = worst (rs @ map (probe_outcome w) ps), ah_results = xs @ map (\<lambda>p. (fst p, probe_outcome w p)) ps\<rparr>" for rs xs
    by (induction ps arbitrary: rs xs) (simp_all add: Let_def worsen_snoc)
  from this[of "[]" "[]"] show ?thesis by (simp add: check_all_def worst_def)
qed

lemma hex_digit_val_digit: "n < 16 \<Longrightarrow> hex_digit_val (hex_digit n) = Some n"
  by (auto simp: hex_digit_def hex_digit_val_def Let_def)

lemma hex_value_append:
  "hex_value a (s @ t) = (case hex_value a s of None \<Rightarrow> None | Some b \<Rightarrow> hex_value b t)"
  by (induction a s rule: hex_value.induct) (auto split: option.split)

lemma hex_value_fixed: "n < 16 ^ k \<Longrightarrow> hex_value 0 (hex_fixed k n) = Some n"
proof (induction k arbitrary: n)
  case (Suc k)
  then have "n div 16 < 16 ^ k" by (simp add: less_mult_imp_div_less mult.commute)
  from Suc.IH[OF this] show ?case by (simp add: hex_value_append hex_digit_val_digit)
qed simp

lemma hex_digit_not_plus: "CHR ''+'' \<noteq> hex_digit (n mod 16)"
proof -
  have "hex_digit_val CHR ''+'' = None" by (simp add: hex_digit_val_def)
  with hex_digit_val_digit[of "n mod 16"] show ?thesis by auto
qed

lemma hex_fixed_not_plus: "CHR ''+'' \<notin> set (hex_fixed k n)"
  by (induction k arbitrary: n) (simp_all add: hex_digit_not_plus)

lemma id_text_plain: "strip_plus (id_text i) = id_text i" "id_text i \<noteq> []"
proof -
  have "length (hex_fixed k n) = k" for k n by (induction k arbitrary: n) auto
  then have "length (id_text i) = 32" by (simp add: id_text_def)
  then show "id_text i \<noteq> []" by auto
  then show "strip_plus (id_text i) = id_text i"
    using hex_fixed_not_plus[of 32 "unat i"] by (cases "id_text i") (auto simp: strip_plus_def id_text_def)
qed

lemma id_text_round_trip: "u128_from_hex (id_text i) = Some i"
proof -
  have "unat i < 2 ^ 128" using unsigned_less[of i] by simp
  moreover from this have "hex_value 0 (id_text i) = Some (unat i)"
    unfolding id_text_def by (intro hex_value_fixed) simp
  ultimately show ?thesis by (simp add: u128_from_hex_def Let_def id_text_plain)
qed

lemma authorised [simp]:
  "ob_admin_token obs = Some t \<Longrightarrow> require_admin_token (server_admin txt obs) (Some (''Bearer '' @ t)) next = next"
  by (simp add: require_admin_token_def server_admin_def bearer_def)

lemma bearer_Some: "bearer auth = Some t \<Longrightarrow> auth = Some (''Bearer '' @ t)"
  by (auto simp: bearer_def split: option.splits if_splits) (metis append_take_drop_id append_Cons append_Nil)

lemma refused: "require_admin_token S auth next w = next w \<and> (\<exists>t. ad_token S = Some t \<and> auth = Some (''Bearer '' @ t))
    \<or> require_admin_token S auth next w = (Inr (401, Text ''unauthorized''), w)"
  using bearer_Some[of auth] by (auto simp: require_admin_token_def sret_def split: option.split)

lemma joined_get: "dm_get (id2client (joined i t c r)) i = Some c"
  by (simp add: joined_def claim_ghost_def set_id_def insert_title_def add_client_def Let_def)

section \<open>Properties\<close>

text \<open>
  C35: The readiness route of a running server answers neither healthy nor unhealthy. In every history
  of a server built by \<open>build_services\<close> the answer has status 200 and says degraded, because the
  forwarder is never connected to a cluster, and no probe of the server reports unhealthy; whatever
  the configuration, the stores and the peers. This is so once \<open>open_server\<close> has registered the probes;
  it starts to listen for admin requests shortly before, and until then there is no probe to ask.
\<close>

theorem readyz_always_degraded:
  assumes "(server_step E)\<^sup>*\<^sup>* (build_services cfg opened port db h now) w"
  shows "\<exists>es. serve_route (server_admin txt obs) GetReadyz auth w = (Inr (200, Ready ''degraded'' es), w)
    \<and> last es = \<lparr>pe_name = ''forwarder'', pe_status = ''degraded'', pe_reason = Some ''cluster not started''\<rparr>"
proof -
  have "\<not> is_cluster_started w"
    using prims_slots[OF server_run_prims[OF assms]] by (simp add: is_cluster_started_def build_services_def Let_def)
  then show ?thesis
    by (auto simp: readyz_handler_def server_admin_def server_probes_def health_register_def health_new_def Let_def
        check_all_worst probe_outcome_def worst_def registry_check_def obs_max_clients_def cluster_check_def
        obs_local_node_present_def port_get_local_node_id_def persistence_check_def forwarder_check_def sget_def
        split: option.splits cluster_port.splits if_splits)
qed

text \<open>
  C21: The admin routes change nothing without the token. Every request is answered; the state differs
  afterwards only when a token is configured, the header carries it and the request is to disconnect
  an id with a registered connection, and then only that connection is cancelled. The two protected
  routes answer 401 to everybody else.
\<close>

theorem admin_needs_token:
  "\<exists>r w'. serve_route (server_admin txt obs) rt auth w = (Inr r, w')
    \<and> (w' = w \<or> (\<exists>t k i tok. ob_admin_token obs = Some t \<and> auth = Some (''Bearer '' @ t) \<and> rt = PostDisconnect k
        \<and> u128_from_hex k = Some i \<and> dm_get (w_client_shutdowns w) i = Some tok
        \<and> fst r = 202 \<and> w' = w\<lparr>w_cancelled := tok # w_cancelled w\<rparr>))
    \<and> (rt \<in> {GetHealthz, GetReadyz} \<or> fst r = 401 \<or> (\<exists>t. ob_admin_token obs = Some t \<and> auth = Some (''Bearer '' @ t)))"
proof (cases rt)
  case GetHealthz
  then show ?thesis by (simp add: sret_def)
next
  case GetReadyz
  then show ?thesis by (simp add: sget_def)
next
  case GetClients
  then show ?thesis
    using refused[of "server_admin txt obs" auth "sget (list_clients_handler (server_admin txt obs))" w]
    by (auto simp: sget_def server_admin_def)
next
  case (PostDisconnect k)
  have "\<exists>r w'. disconnect_handler (server_admin txt obs) k w = (Inr r, w') \<and> (w' = w \<or> (\<exists>i tok. u128_from_hex k = Some i
      \<and> dm_get (w_client_shutdowns w) i = Some tok \<and> fst r = 202 \<and> w' = w\<lparr>w_cancelled := tok # w_cancelled w\<rparr>))"
    by (auto simp: disconnect_handler_def server_admin_def cancel_client_def srun_def sbind_def sret_def split: option.split)
  then obtain r w' where d: "disconnect_handler (server_admin txt obs) k w = (Inr r, w')" "w' = w \<or> (\<exists>i tok. u128_from_hex k = Some i
      \<and> dm_get (w_client_shutdowns w) i = Some tok \<and> fst r = 202 \<and> w' = w\<lparr>w_cancelled := tok # w_cancelled w\<rparr>)" by blast
  from refused[of "server_admin txt obs" auth "disconnect_handler (server_admin txt obs) k" w] show ?thesis
  proof
    assume "require_admin_token (server_admin txt obs) auth (disconnect_handler (server_admin txt obs) k) w
        = disconnect_handler (server_admin txt obs) k w \<and> (\<exists>t. ad_token (server_admin txt obs) = Some t \<and> auth = Some (''Bearer '' @ t))"
    then show ?thesis using d PostDisconnect by (auto simp: server_admin_def)
  qed (simp add: PostDisconnect)
qed

text \<open>
  C34: An administrator cannot disconnect a client that has logged in. When a connection is accepted and
  logs in under an id other than its random one, the client list shows the id, in the text form that
  the disconnect route reads back; the disconnect of it answers 404 and changes nothing, while the
  connection's cancellation token stays filed under the random id.
\<close>

theorem listed_client_not_found:
  assumes "sled_db (e_sled E) v" "bincode_ok (e_bincode E)"
    and "queues_ok (e_bincode E) (v (w_db w))" "rows_ok (e_bincode E) (v (w_db w))"
    and "frame_ok d" "find_some_by_id (m_source (view d)) (w_registry w) = None"
    and "w_offline w = SledStore" "w_state_store w = SledStore"
    and "m_source (view d) \<noteq> uuid" "dm_get (w_client_shutdowns w) (m_source (view d)) = None" "ob_admin_token obs = Some t"
  shows "let S = server_admin txt obs; auth = Some (''Bearer '' @ t); i = m_source (view d);
      w1 = snd (sbind (accept c uuid a s) (\<lambda>_. driver_new c) w) in
    \<exists>w2 vs. handle_login E c d w1 = (Inr ok, w2)
      \<and> serve_route S GetClients auth w2 = (Inr (200, Clients vs), w2) \<and> id_text i \<in> cv_id ` set vs
      \<and> serve_route S (PostDisconnect (id_text i)) auth w2 = (Inr (404, Text ''client not found''), w2)
      \<and> dm_get (w_client_shutdowns w2) uuid = Some (w_next_token w)"
proof -
  let ?i = "m_source (view d)" and ?w1 = "snd (sbind (accept c uuid a s) (\<lambda>_. driver_new c) w)"
  have w1: "w_client_shutdowns ?w1 = dm_insert uuid (w_next_token w) (w_client_shutdowns w)" "w_db ?w1 = w_db w"
    "w_offline ?w1 = w_offline w" "w_state_store ?w1 = w_state_store w"
    and n: "find_some_by_id ?i (w_registry ?w1) = None"
    using assms(6) by (simp_all add: accept_def driver_new_def register_client_shutdown_def srv_simps srun_def
        client_new_def set_transport_label_def find_some_by_id_def)
  obtain w2 where w2: "handle_login E c d ?w1 = (Inr ok, w2)" "quiet (joined ?i (m_title (view d)) c (w_registry ?w1)) (w_registry w2)"
    by (rule login_run[OF assms(1,2) _ _ assms(5) n, of c]) (use assms w1 in auto)
  have tok: "w_client_shutdowns w2 = w_client_shutdowns ?w1"
    using login_fresh_parts(1)[OF assms(5) n, of E c] w2(1) by simp
  have id: "id_of (w_registry w2) c = ?i"
    using login_fresh_parts(2)[OF assms(5) n, of E c] w2(1) by simp
  have "dm_get (id2client (w_registry w2)) ?i = Some c"
    using w2(2) by (simp add: quiet_def joined_get)
  from map_of_SomeD[OF this] id have "?i \<in> cy_id ` set (obs_list_clients w2)"
    by (force simp: obs_list_clients_def list_snapshots_def snapshot_of_def)
  then obtain vs where vs: "list_clients_handler (server_admin txt obs) w2 = (200, Clients vs)" "id_text ?i \<in> cv_id ` set vs"
    by (force simp: list_clients_handler_def server_admin_def)
  have "dm_get (w_client_shutdowns w2) ?i = None" "dm_get (w_client_shutdowns w2) uuid = Some (w_next_token w)"
    using assms(9,10) by (simp_all add: tok w1(1) update_conv')
  then have dis: "disconnect_handler (server_admin txt obs) (id_text ?i) w2 = (Inr (404, Text ''client not found''), w2)"
    "dm_get (w_client_shutdowns w2) uuid = Some (w_next_token w)"
    by (simp_all add: disconnect_handler_def id_text_round_trip server_admin_def cancel_client_def srun_def sbind_def sret_def)
  show ?thesis
    unfolding Let_def serve_route.simps authorised[OF assms(11)]
    by (intro exI conjI) (use w2(1) vs dis in \<open>simp_all add: sget_def\<close>)
qed

section \<open>Witnesses\<close>

definition obs0 :: observability_config where
  "obs0 = default_observability\<lparr>ob_admin_token := Some ''secret''\<rparr>"

theorem readyz_always_degraded_witness:
  "\<exists>es. serve_route (server_admin (\<lambda>_. ''sled'') obs0) GetReadyz None world0 = (Inr (200, Ready ''degraded'' es), world0)"
  using readyz_always_degraded[of env0 "config_from_id ''rex''" True None "[]" "\<lambda>_. nobody" 1000 world0 "\<lambda>_. ''sled''" obs0 None]
  unfolding world0_def by blast

theorem listed_client_not_found_witness:
  "let S = server_admin (\<lambda>_. ''sled'') obs0; auth = Some ''Bearer secret'';
       w1 = snd (sbind (accept 7 9 ([127, 0, 0, 1], 5000) 3) (\<lambda>_. driver_new 7) stored0) in
   \<exists>w2 vs. handle_login env0 7 login0 w1 = (Inr ok, w2)
     \<and> serve_route S GetClients auth w2 = (Inr (200, Clients vs), w2) \<and> id_text 0 \<in> cv_id ` set vs
     \<and> serve_route S (PostDisconnect (id_text 0)) auth w2 = (Inr (404, Text ''client not found''), w2)"
proof -
  have "m_source (view login0) \<noteq> 9" "dm_get (w_client_shutdowns stored0) (m_source (view login0)) = None"
    "ob_admin_token obs0 = Some ''secret''"
    by (simp_all add: login0_ok obs0_def stored0_def world0_def build_services_def Let_def)
  from listed_client_not_found[OF start0 stored0_ok(1,2,3) this, of "\<lambda>_. ''sled''" 7 "([127, 0, 0, 1], 5000)" 3] show ?thesis
    unfolding Let_def login0_ok append.simps by blast
qed

end
