(* ===== verification/ClientLib.thy ===== *)
theory ClientLib
  imports Streams Routing
begin

text \<open>
  The client library (\<^verbatim>\<open>crates/rex-client\<close>): the part that all transports share
  (\<^verbatim>\<open>transport/base.rs\<close>) and the TCP client (\<^verbatim>\<open>transport/tcp.rs\<close>). The WebSocket and QUIC clients are
  the same code around other sockets.

  A client is a record threaded through the operations; its client object is shared by its tasks and
  is a field of the record. The outcomes of sends and connection attempts, the random message ids and
  the ids of new client objects are in \<open>client_env\<close>, indexed by the position \<open>cb_tick\<close>. The
  application's callback is a log of the calls made to it: the library only logs what it returns.
  Tasks are interleaved by their steps: one received chunk, one round of the heartbeat cut at its
  wait, one round of the monitor.
\<close>

section \<open>State\<close>

datatype conn_state = Disconnected | Connecting | Connected | Reconnecting

fun state_as_u8 :: "conn_state \<Rightarrow> 8 word" where
  "state_as_u8 Disconnected = 0"
| "state_as_u8 Connecting = 1"
| "state_as_u8 Connected = 2"
| "state_as_u8 Reconnecting = 3"

definition state_from_u8 :: "8 word \<Rightarrow> conn_state" where
  "state_from_u8 v = (if v = 0 then Disconnected else if v = 1 then Connecting else if v = 2 then Connected
     else if v = 3 then Reconnecting else Disconnected)"

record client_config =
  ck_protocol :: protocol
  ck_server_addr :: socket_addr
  ck_title :: string
  ck_idle_timeout :: u64
  ck_pong_wait :: u64
  ck_max_reconnect_attempts :: u32
  ck_max_buffer_size :: u64
  ck_ack_enabled :: bool
  ck_ack_timeout_ms :: u64

definition client_config_new :: "protocol \<Rightarrow> socket_addr \<Rightarrow> string \<Rightarrow> client_config" where
  "client_config_new p a title = \<lparr>ck_protocol = p, ck_server_addr = a, ck_title = title, ck_idle_timeout = 10,
     ck_pong_wait = 5, ck_max_reconnect_attempts = 5, ck_max_buffer_size = 8 * 1024 * 1024,
     ck_ack_enabled = False, ck_ack_timeout_ms = 5000\<rparr>"

datatype handler_call = LoginOk rex_data | Handle rex_data

record client_base =
  cb_client :: "client option"
  cb_connection_state :: "8 word"
  cb_config :: client_config
  cb_shutdown :: bool
  cb_last_heartbeat :: u64
  cb_pending_acks :: "(u64, unit) dmap"
  cb_now :: u64
  cb_tick :: nat
  cb_sent :: "(sender_ref \<times> bytes) list"
  cb_closed :: "sender_ref list"
  cb_calls :: "handler_call list"
  cb_dials :: "u64 list"

record client_env =
  ce_send :: "nat \<Rightarrow> sender_ref \<Rightarrow> bytes \<Rightarrow> bool"
  ce_random :: "nat \<Rightarrow> u64"
  ce_connect :: "nat \<Rightarrow> (sender_ref \<times> socket_addr \<times> u128) option"

definition base_new :: "client_config \<Rightarrow> u64 \<Rightarrow> client_base" where
  "base_new config now = \<lparr>cb_client = None, cb_connection_state = state_as_u8 Disconnected, cb_config = config,
     cb_shutdown = False, cb_last_heartbeat = now, cb_pending_acks = [], cb_now = now, cb_tick = 0, cb_sent = [],
     cb_closed = [], cb_calls = [], cb_dials = []\<rparr>"

definition connection_state :: "client_base \<Rightarrow> conn_state" where
  "connection_state s = state_from_u8 (cb_connection_state s)"

definition set_connection_state :: "conn_state \<Rightarrow> (client_base, unit) srv" where
  "set_connection_state st = smod (\<lambda>s. s\<lparr>cb_connection_state := state_as_u8 st\<rparr>)"

definition set_title :: "string \<Rightarrow> client_config \<Rightarrow> client_config" where
  "set_title title c = c\<lparr>ck_title := title\<rparr>"

definition upd_self :: "(client \<Rightarrow> client) \<Rightarrow> (client_base, unit) srv" where
  "upd_self f = smod (\<lambda>s. s\<lparr>cb_client := map_option f (cb_client s)\<rparr>)"

text \<open>\<open>RexClientInner::send_buf\<close> on the client's own object.\<close>

definition self_send :: "client_env \<Rightarrow> client \<Rightarrow> bytes \<Rightarrow> (client_base, bool) srv" where
  "self_send E c buf = srun (\<lambda>s. let s1 = s\<lparr>cb_tick := cb_tick s + 1\<rparr> in
     if ce_send E (cb_tick s) (cl_sender c) buf
     then (True, s1\<lparr>cb_sent := cb_sent s @ [(cl_sender c, buf)],
                    cb_client := map_option (update_last_recv (cb_now s)) (cb_client s)\<rparr>)
     else (False, s1))"

definition call_handler :: "handler_call \<Rightarrow> (client_base, unit) srv" where
  "call_handler h = smod (\<lambda>s. s\<lparr>cb_calls := cb_calls s @ [h]\<rparr>)"

section \<open>Sending\<close>

definition register_pending :: "u64 \<Rightarrow> (client_base, unit) srv" where
  "register_pending message_id = smod (\<lambda>s. s\<lparr>cb_pending_acks := dm_insert message_id () (cb_pending_acks s)\<rparr>)"

definition send_data_with_client :: "client_env \<Rightarrow> client \<Rightarrow> rex_data \<Rightarrow> (client_base, bool \<times> rex_data) srv" where
  "send_data_with_client E client d =
     sbind (slift (rd_set_source (cl_id client) d)) (\<lambda>d1.
     sbind (sget (\<lambda>s. ck_ack_enabled (cb_config s))) (\<lambda>en.
     sbind (if en then
         sbind (slift (rd_command d1)) (\<lambda>cmd.
         if cmd = Title \<or> cmd = Group \<or> cmd = Cast then
           sbind (srun (\<lambda>s. (ce_random E (cb_tick s), s\<lparr>cb_tick := cb_tick s + 1\<rparr>))) (\<lambda>message_id.
           sbind (slift (rd_set_message_id message_id d1)) (\<lambda>d2.
           sbind (register_pending message_id) (\<lambda>_. sret d2)))
         else sret d1)
       else sret d1) (\<lambda>d3.
     sbind (self_send E client (content d3)) (\<lambda>sent. sret (sent, d3)))))"

definition cb_login :: "client_env \<Rightarrow> (client_base, bool) srv" where
  "cb_login E = sbind (sget cb_client) (\<lambda>c. case c of
       None \<Rightarrow> sret True
     | Some client \<Rightarrow>
         sbind (sget (\<lambda>s. ck_title (cb_config s))) (\<lambda>title.
         sbind (send_data_with_client E client (rd_new Login title [])) (\<lambda>(sent, _). sret sent)))"

text \<open>\<open>send_data\<close> of the transport: whether it was sent, and the frame with what was written into it.\<close>

definition send_data :: "client_env \<Rightarrow> rex_data \<Rightarrow> (client_base, bool \<times> rex_data) srv" where
  "send_data E d =
     sbind (sget connection_state) (\<lambda>st.
     if st \<noteq> Connected then sret (False, d)
     else sbind (sget cb_client) (\<lambda>c. case c of
         None \<Rightarrow> sret (False, d)
       | Some client \<Rightarrow> send_data_with_client E client d))"

section \<open>Receiving\<close>

definition cb_send_ack :: "client_env \<Rightarrow> u64 \<Rightarrow> (client_base, unit) srv" where
  "cb_send_ack E message_id = sbind (sget cb_client) (\<lambda>c. case c of
       None \<Rightarrow> sret ()
     | Some client \<Rightarrow>
         sbind (self_send E client (content (ack_to_rex_data (ack_new message_id) (cl_id client) Ack))) (\<lambda>_. sret ()))"

definition handle_ack_return :: "rex_data \<Rightarrow> (client_base, unit) srv" where
  "handle_ack_return d =
     sbind (slift (ack_from_rex_data d)) (\<lambda>a.
     sbind (slift (rd_retcode d)) (\<lambda>_.
     smod (\<lambda>s. s\<lparr>cb_pending_acks := dm_remove (a_message_id a) (cb_pending_acks s)\<rparr>)))"

text \<open>A change of the titles of the client object, copied into the configuration for the next login.\<close>

definition retitle :: "(client \<Rightarrow> client) \<Rightarrow> (client_base, unit) srv" where
  "retitle f =
     sbind (upd_self f) (\<lambda>_.
     smod (\<lambda>s. case cb_client s of
         None \<Rightarrow> s
       | Some c \<Rightarrow> s\<lparr>cb_config := set_title (title_str c) (cb_config s)\<rparr>))"

definition handle_received_data :: "client_env \<Rightarrow> rex_data \<Rightarrow> (client_base, unit) srv" where
  "handle_received_data E d = sbind (sget cb_client) (\<lambda>c. case c of
       None \<Rightarrow> sret ()
     | Some _ \<Rightarrow>
         sbind (slift (rd_command d)) (\<lambda>command.
         sbind (case command of
             LoginReturn \<Rightarrow> call_handler (LoginOk d)
           | RegTitleReturn \<Rightarrow> sbind (slift (rd_title d)) (\<lambda>title. retitle (insert_title title))
           | DelTitleReturn \<Rightarrow> sbind (slift (rd_title d)) (\<lambda>title. retitle (remove_title title))
           | AckReturn \<Rightarrow> sbind (handle_ack_return d) (\<lambda>_. call_handler (Handle d))
           | TitleReturn \<Rightarrow> call_handler (Handle d)
           | GroupReturn \<Rightarrow> call_handler (Handle d)
           | CastReturn \<Rightarrow> call_handler (Handle d)
           | _ \<Rightarrow>
               if command = Title \<or> command = Group \<or> command = Cast then
                 sbind (slift (rd_message_id d)) (\<lambda>message_id.
                 sbind (if message_id \<noteq> 0 then cb_send_ack E message_id else sret ()) (\<lambda>_.
                 call_handler (Handle d)))
               else sret ()) (\<lambda>_.
         sbind (sget cb_now) (\<lambda>now. upd_self (update_last_recv now)))))"

fun receive_frames :: "nat \<Rightarrow> client_env \<Rightarrow> bool \<Rightarrow> bytes \<Rightarrow> (client_base, bytes option) srv" where
  "receive_frames 0 E dbg buffer = sret None"
| "receive_frames (Suc n) E dbg buffer =
     sbind (slift (try_deserialize dbg buffer)) (\<lambda>(r, rest). case r of
       None \<Rightarrow> sret (Some rest)
     | Some d \<Rightarrow> sbind (handle_received_data E d) (\<lambda>_. receive_frames n E dbg rest))"

definition parse_buffer :: "client_env \<Rightarrow> bool \<Rightarrow> nat \<Rightarrow> bytes \<Rightarrow> (client_base, bytes option) srv" where
  "parse_buffer E dbg max_buffer_size buffer =
     sbind (receive_frames (Suc (length buffer)) E dbg buffer) (\<lambda>r. sret (map_option (\<lambda>rest.
       if max_buffer_size < length rest then [] else rest) r))"

datatype read_event = Arrived bytes | PeerClosed | ReadFailed | ShutdownSignal

fun receive_loop :: "client_env \<Rightarrow> bool \<Rightarrow> nat \<Rightarrow> read_event list \<Rightarrow> bytes \<Rightarrow> (client_base, bytes option) srv" where
  "receive_loop E dbg max_buffer_size [] buffer = sret (Some buffer)"
| "receive_loop E dbg max_buffer_size (Arrived bs # es) buffer =
     sbind (parse_buffer E dbg max_buffer_size (buffer @ bs)) (\<lambda>r. case r of
       None \<Rightarrow> sret None
     | Some buffer' \<Rightarrow> receive_loop E dbg max_buffer_size es buffer')"
| "receive_loop E dbg max_buffer_size (_ # es) buffer = sret (Some buffer)"

text \<open>The task that \<open>connect\<close> spawns for a connection, to its end.\<close>

definition receive_task :: "client_env \<Rightarrow> bool \<Rightarrow> read_event list \<Rightarrow> (client_base, unit) srv" where
  "receive_task E dbg es =
     sbind (sget (\<lambda>s. unat (ck_max_buffer_size (cb_config s)))) (\<lambda>mx.
     sbind (receive_loop E dbg mx es []) (\<lambda>_. set_connection_state Disconnected))"

section \<open>Connecting\<close>

definition connect :: "client_env \<Rightarrow> (client_base, bool) srv" where
  "connect E =
     sbind (set_connection_state Connecting) (\<lambda>_.
     sbind (srun (\<lambda>s. (ce_connect E (cb_tick s), s\<lparr>cb_tick := cb_tick s + 1, cb_dials := cb_dials s @ [cb_now s]\<rparr>))) (\<lambda>r.
     case r of
       None \<Rightarrow> sret False
     | Some (sender, local_addr, uuid) \<Rightarrow>
         sbind (smod (\<lambda>s. s\<lparr>cb_client := Some (case cb_client s of
             Some c \<Rightarrow> set_sender sender c
           | None \<Rightarrow> client_new (cb_now s) uuid local_addr (ck_title (cb_config s)) sender)\<rparr>)) (\<lambda>_.
         sbind (cb_login E) (\<lambda>sent.
         if \<not> sent then sret False
         else sbind (set_connection_state Connected) (\<lambda>_. sret True)))))"

text \<open>
  \<open>connect_with_retry\<close>: the loop from attempt \<open>attempts + 1\<close> on. \<open>limit\<close> is
  \<open>max_reconnect_attempts\<close>, which does not change; what other tasks do during a sleep is not shown.
\<close>

function connect_loop :: "client_env \<Rightarrow> nat \<Rightarrow> nat \<Rightarrow> u64 \<Rightarrow> (client_base, bool) srv" where
  "connect_loop E limit attempts backoff s =
     (case connect E s of
        (Inl e, s') \<Rightarrow> (Inl e, s')
      | (Inr connected, s') \<Rightarrow>
          if connected then (Inr True, s')
          else if limit \<le> attempts + 1 then (Inr False, s')
          else connect_loop E limit (attempts + 1) (min (backoff * 2) 60) (s'\<lparr>cb_now := cb_now s' + backoff\<rparr>))"
  by pat_completeness auto
termination
  by (relation "measure (\<lambda>(E, limit, attempts, backoff, s). limit - attempts)") auto

definition connect_with_retry :: "client_env \<Rightarrow> (client_base, bool) srv" where
  "connect_with_retry E =
     sbind (sget (\<lambda>s. unat (ck_max_reconnect_attempts (cb_config s)))) (\<lambda>limit. connect_loop E limit 0 1)"

definition client_open :: "client_env \<Rightarrow> client_config \<Rightarrow> u64 \<Rightarrow> (fault + bool) \<times> client_base" where
  "client_open E config now = connect_with_retry E (base_new config now)"

text \<open>One round of the connection monitor, and \<open>close\<close>.\<close>

definition monitor_round :: "client_env \<Rightarrow> (client_base, unit) srv" where
  "monitor_round E = sbind (sget connection_state) (\<lambda>st. case st of
       Disconnected \<Rightarrow>
         sbind (set_connection_state Reconnecting) (\<lambda>_.
         sbind (connect_with_retry E) (\<lambda>connected.
         if connected then sret () else set_connection_state Disconnected))
     | _ \<Rightarrow> sret ())"

definition tcp_close :: "(client_base, unit) srv" where
  "tcp_close = smod (\<lambda>s. s\<lparr>cb_shutdown := True,
     cb_closed := (case cb_client s of None \<Rightarrow> cb_closed s | Some c \<Rightarrow> cb_closed s @ [cl_sender c]),
     cb_connection_state := state_as_u8 Disconnected\<rparr>)"

section \<open>Heartbeat\<close>

text \<open>A round up to the wait for the answer, with the stamp it will compare to; and what follows the wait.\<close>

definition heartbeat_ping :: "client_env \<Rightarrow> (client_base, u64 option) srv" where
  "heartbeat_ping E =
     sbind (sget connection_state) (\<lambda>st.
     if st \<noteq> Connected then sret None
     else sbind (sget cb_client) (\<lambda>c. case c of
         None \<Rightarrow> sret None
       | Some client \<Rightarrow>
           sbind (sget (\<lambda>s. (sat_sub (cb_now s) (cl_last_recv client), ck_idle_timeout (cb_config s)))) (\<lambda>(idle_time, timeout).
           if idle_time < timeout then sret None
           else sbind (self_send E client (content (rd_new Check [] []))) (\<lambda>sent.
             if sent then sret (Some (cl_last_recv client))
             else sbind (set_connection_state Disconnected) (\<lambda>_. sret None)))))"

definition heartbeat_pong :: "u64 \<Rightarrow> (client_base, unit) srv" where
  "heartbeat_pong before_ping = sbind (sget cb_client) (\<lambda>c. case c of
       None \<Rightarrow> sret ()
     | Some client \<Rightarrow>
         if cl_last_recv client \<le> before_ping then set_connection_state Disconnected
         else smod (\<lambda>s. s\<lparr>cb_last_heartbeat := cb_now s\<rparr>))"

definition heartbeat_round :: "client_env \<Rightarrow> (client_base, unit) srv \<Rightarrow> (client_base, unit) srv" where
  "heartbeat_round E wait = sbind (heartbeat_ping E) (\<lambda>r. case r of
       None \<Rightarrow> sret ()
     | Some before_ping \<Rightarrow> sbind wait (\<lambda>_. heartbeat_pong before_ping))"

section \<open>What one frame does\<close>

lemma state_u8 [simp]: "state_from_u8 (state_as_u8 st) = st"
  by (cases st) (simp_all add: state_from_u8_def)

declare state_as_u8.simps [simp del]

text \<open>A frame the client can handle: well formed, and with a message id in it when it answers an acknowledgement.\<close>

definition client_good :: "rex_data \<Rightarrow> bool" where
  "client_good d \<longleftrightarrow> frame_ok d
     \<and> (m_command (view d) = AckReturn \<longrightarrow> REX_HEAD_LEN + TITLE_LEN_SIZE + 8 \<le> length (content d))"

definition needs_ack :: "rex_data \<Rightarrow> bool" where
  "needs_ack d \<longleftrightarrow> m_command (view d) \<in> {Title, Group, Cast} \<and> m_message_id (view d) \<noteq> 0"

definition calls_of :: "rex_data \<Rightarrow> handler_call list" where
  "calls_of d = (if m_command (view d) = LoginReturn then [LoginOk d]
     else if m_command (view d) \<in> {Title, Group, Cast, TitleReturn, GroupReturn, CastReturn, AckReturn} then [Handle d]
     else [])"

definition retitled :: "rex_data \<Rightarrow> client \<Rightarrow> client" where
  "retitled d c = (case m_command (view d) of
     RegTitleReturn \<Rightarrow> insert_title (m_title (view d)) c
   | DelTitleReturn \<Rightarrow> remove_title (m_title (view d)) c
   | _ \<Rightarrow> c)"

definition pending_after :: "rex_data \<Rightarrow> (u64, unit) dmap \<Rightarrow> (u64, unit) dmap" where
  "pending_after d p = (if m_command (view d) = AckReturn
     then dm_remove (u64_of_le (drop (REX_HEAD_LEN + TITLE_LEN_SIZE) (content d))) p else p)"

definition ack_bytes :: "u128 \<Rightarrow> rex_data \<Rightarrow> bytes" where
  "ack_bytes i d = content (ack_to_rex_data (ack_new (m_message_id (view d))) i Ack)"

text \<open>The acknowledgements that go out for a list of frames, from position \<open>k\<close> on.\<close>

fun ack_log :: "client_env \<Rightarrow> nat \<Rightarrow> sender_ref \<Rightarrow> u128 \<Rightarrow> rex_data list \<Rightarrow> (sender_ref \<times> bytes) list" where
  "ack_log E k x i [] = []"
| "ack_log E k x i (d # ds) =
     (if needs_ack d
      then (if ce_send E k x (ack_bytes i d) then [(x, ack_bytes i d)] else []) @ ack_log E (Suc k) x i ds
      else ack_log E k x i ds)"

definition received :: "client_env \<Rightarrow> client \<Rightarrow> rex_data \<Rightarrow> client_base \<Rightarrow> client_base" where
  "received E c d s = s\<lparr>cb_client := Some ((retitled d c)\<lparr>cl_last_recv := cb_now s\<rparr>),
     cb_config := (if m_command (view d) \<in> {RegTitleReturn, DelTitleReturn}
       then set_title (title_str (retitled d c)) (cb_config s) else cb_config s),
     cb_pending_acks := pending_after d (cb_pending_acks s),
     cb_tick := (if needs_ack d then Suc (cb_tick s) else cb_tick s),
     cb_sent := cb_sent s @ ack_log E (cb_tick s) (cl_sender c) (cl_id c) [d],
     cb_calls := cb_calls s @ calls_of d\<rparr>"

lemma handle_received:
  assumes good: "client_good d" and c: "cb_client s = Some c"
  shows "handle_received_data E d s = (Inr (), received E c d s)"
proof -
  have f: "frame_ok d" using good by (simp add: client_good_def)
  have a: "ack_from_rex_data d = Inr \<lparr>a_message_id = u64_of_le (drop (REX_HEAD_LEN + TITLE_LEN_SIZE) (content d))\<rparr>"
    if "m_command (view d) = AckReturn" using good that by (simp add: client_good_def ack_from_rex_data_def)
  show ?thesis
    using c a unfolding received_def
    by (cases s; cases "m_command (view d)")
      (simp_all add: handle_received_data_def frame_access[OF f] sbind_slift sbind_def sget_def srun_def smod_def sret_def
        call_handler_def retitle_def upd_self_def handle_ack_return_def cb_send_ack_def self_send_def Let_def
        calls_of_def retitled_def pending_after_def needs_ack_def ack_bytes_def update_last_recv_def)
qed

definition crecv :: "client_env \<Rightarrow> rex_data \<Rightarrow> client_base \<Rightarrow> client_base" where
  "crecv E d s = snd (handle_received_data E d s)"

lemma handle_received_returns: "client_good d \<Longrightarrow> handle_received_data E d s = (Inr (), crecv E d s)"
  using handle_received[of d s _ E]
  by (cases "cb_client s") (simp_all add: crecv_def, simp add: handle_received_data_def sbind_def sget_def sret_def)

interpretation receiver: frame_reader "\<lambda>n. receive_frames n E dbg"
    "\<lambda>mx chunks. receive_loop E dbg mx (map Arrived chunks)" client_good "crecv E" dbg for E dbg
proof
  show "frame_ok d" if "client_good d" for d using that by (simp add: client_good_def)
  show "receive_frames (Suc n) E dbg buf w = (Inr (Some buf), w)" if "try_deserialize dbg buf = Inr (None, buf)" for n buf w
    using that by (simp add: sbind_slift sret_def)
  show "receive_frames (Suc n) E dbg (content d @ r) w = receive_frames n E dbg r (crecv E d w)" if "client_good d" for n d r w
    using that by (simp add: try_deserialize_frame client_good_def sbind_slift)
      (simp add: sbind_def handle_received_returns client_good_def)
  show "receive_loop E dbg mx (map Arrived (ch # chs)) r w = receive_loop E dbg mx (map Arrived chs) r' w'"
    if "receive_frames (Suc (length (r @ ch))) E dbg (r @ ch) w = (Inr (Some r'), w')" "length r' \<le> mx" for mx ch chs r r' w w'
    using that by (simp add: parse_buffer_def sbind_def sret_def)
qed (simp_all add: sret_def)

lemma retitled_fields [simp]:
  "cl_id (retitled d c) = cl_id c" "cl_sender (retitled d c) = cl_sender c"
  "cl_titles (retitled d (c\<lparr>cl_last_recv := t\<rparr>)) = cl_titles (retitled d c)"
  by (cases "m_command (view d)"; simp add: retitled_def insert_title_def remove_title_def)+

text \<open>The client's object agrees with what its next login will ask for.\<close>

definition titles_kept :: "client_base \<Rightarrow> bool" where
  "titles_kept s \<longleftrightarrow> (case cb_client s of None \<Rightarrow> True | Some c \<Rightarrow> ck_title (cb_config s) = title_str c)"

lemma titles_kept_received: "cb_client s = Some c \<Longrightarrow> titles_kept s \<Longrightarrow> titles_kept (received E c d s)"
  by (cases "m_command (view d)") (simp_all add: titles_kept_def received_def set_title_def title_str_def retitled_def)

lemma retitled_titles: "cl_titles c = cl_titles c' \<Longrightarrow> cl_titles (retitled d c) = cl_titles (retitled d c')"
  by (cases "m_command (view d)") (simp_all add: retitled_def insert_title_def remove_title_def)

lemma fold_retitled_titles: "cl_titles c = cl_titles c' \<Longrightarrow> cl_titles (fold retitled fs c) = cl_titles (fold retitled fs c')"
proof (induction fs arbitrary: c c')
  case (Cons d fs)
  from Cons.IH[OF retitled_titles[OF Cons.prems]] show ?case by simp
qed simp

lemma fold_crecv:
  assumes "\<forall>f \<in> set fs. client_good f" "cb_client s = Some c"
  shows "\<exists>c'. cb_client (fold (crecv E) fs s) = Some c' \<and> cl_id c' = cl_id c \<and> cl_sender c' = cl_sender c
    \<and> cl_titles c' = cl_titles (fold retitled fs c)
    \<and> cb_calls (fold (crecv E) fs s) = cb_calls s @ concat (map calls_of fs)
    \<and> cb_sent (fold (crecv E) fs s) = cb_sent s @ ack_log E (cb_tick s) (cl_sender c) (cl_id c) fs
    \<and> cb_pending_acks (fold (crecv E) fs s) = fold pending_after fs (cb_pending_acks s)
    \<and> (titles_kept s \<longrightarrow> titles_kept (fold (crecv E) fs s))"
  using assms
proof (induction fs arbitrary: s c)
  case (Cons d fs)
  let ?c = "(retitled d c)\<lparr>cl_last_recv := cb_now s\<rparr>"
  have r: "crecv E d s = received E c d s" using handle_received[of d s c E] Cons.prems by (simp add: crecv_def)
  have "cb_client (received E c d s) = Some ?c" by (simp add: received_def)
  from Cons.IH[OF _ this] Cons.prems(1) obtain c' where
    "cb_client (fold (crecv E) fs (received E c d s)) = Some c'" "cl_id c' = cl_id c" "cl_sender c' = cl_sender c"
    "cl_titles c' = cl_titles (fold retitled fs ?c)"
    "cb_calls (fold (crecv E) fs (received E c d s)) = cb_calls (received E c d s) @ concat (map calls_of fs)"
    "cb_sent (fold (crecv E) fs (received E c d s))
       = cb_sent (received E c d s) @ ack_log E (cb_tick (received E c d s)) (cl_sender c) (cl_id c) fs"
    "cb_pending_acks (fold (crecv E) fs (received E c d s)) = fold pending_after fs (cb_pending_acks (received E c d s))"
    "titles_kept (received E c d s) \<longrightarrow> titles_kept (fold (crecv E) fs (received E c d s))"
    by auto
  moreover have "cl_titles (fold retitled fs ?c) = cl_titles (fold retitled fs (retitled d c))"
    by (rule fold_retitled_titles) simp
  ultimately show ?case
    using titles_kept_received[OF Cons.prems(2), of E d] by (simp add: r) (simp add: received_def)
qed simp

section \<open>Connection attempts\<close>

definition login_frame :: "u128 \<Rightarrow> string \<Rightarrow> rex_data" where
  "login_frame i title = projr (rd_set_source i (rd_new Login title []))"

lemma login_frame_eq:
  "rd_set_source i (rd_new Login title []) = Inr (login_frame i title)" "rd_command (login_frame i title) = Inr Login"
  by (simp_all add: login_frame_def rd_set_source_def rd_new_layout rd_command_def rd_head_def wire_consts rbind_def
      del: command_as_u32.simps)

text \<open>
  What an attempt leaves: the dial is logged, the id of the client object never changes, and after
  success the last thing sent on the new connection is the login with the configured title.
\<close>

definition attempted :: "bool \<Rightarrow> client_base \<Rightarrow> client_base \<Rightarrow> bool" where
  "attempted b s s' \<longleftrightarrow> cb_config s' = cb_config s \<and> connection_state s' = (if b then Connected else Connecting)
     \<and> (\<forall>c. cb_client s = Some c \<longrightarrow> (\<exists>c'. cb_client s' = Some c' \<and> cl_id c' = cl_id c \<and> cl_titles c' = cl_titles c))
     \<and> (b \<longrightarrow> (\<exists>c xs. cb_client s' = Some c
         \<and> cb_sent s' = xs @ [(cl_sender c, content (login_frame (cl_id c) (ck_title (cb_config s))))]))"

lemma attempted_trans: "attempted False s s1 \<Longrightarrow> attempted b (s1\<lparr>cb_now := t\<rparr>) s2 \<Longrightarrow> attempted b s s2"
  unfolding attempted_def by fastforce

lemma login_run':
  assumes "cb_client s = Some c"
  shows "\<exists>b s'. cb_login E s = (Inr b, s') \<and> cb_config s' = cb_config s \<and> cb_dials s' = cb_dials s \<and> cb_now s' = cb_now s
    \<and> cb_connection_state s' = cb_connection_state s
    \<and> (\<exists>c'. cb_client s' = Some c' \<and> cl_id c' = cl_id c \<and> cl_titles c' = cl_titles c \<and> cl_sender c' = cl_sender c)
    \<and> (b \<longrightarrow> cb_sent s' = cb_sent s @ [(cl_sender c, content (login_frame (cl_id c) (ck_title (cb_config s))))])"
  using assms
  by (auto simp: cb_login_def send_data_with_client_def login_frame_eq sbind_def sget_def slift_def sret_def self_send_def
      srun_def Let_def update_last_recv_def)

lemma connect_run:
  "\<exists>b s'. connect E s = (Inr b, s') \<and> attempted b s s' \<and> cb_dials s' = cb_dials s @ [cb_now s] \<and> cb_now s' = cb_now s"
proof (cases "ce_connect E (cb_tick s)")
  case None
  then show ?thesis
    by (auto simp: connect_def sbind_def set_connection_state_def smod_def srun_def sret_def attempted_def connection_state_def)
next
  case (Some r)
  obtain sender addr uuid where r: "r = (sender, addr, uuid)" by (cases r)
  define c where "c = (case cb_client s of Some c \<Rightarrow> set_sender sender c
    | None \<Rightarrow> client_new (cb_now s) uuid addr (ck_title (cb_config s)) sender)"
  define s1 where "s1 = s\<lparr>cb_connection_state := state_as_u8 Connecting, cb_tick := cb_tick s + 1,
    cb_dials := cb_dials s @ [cb_now s], cb_client := Some c\<rparr>"
  have "cb_client s1 = Some c" by (simp add: s1_def)
  from login_run'[OF this, of E] obtain b s2 c' where l: "cb_login E s1 = (Inr b, s2)" "cb_config s2 = cb_config s1"
    "cb_dials s2 = cb_dials s1" "cb_now s2 = cb_now s1" "cb_connection_state s2 = cb_connection_state s1"
    "cb_client s2 = Some c'" "cl_id c' = cl_id c" "cl_titles c' = cl_titles c" "cl_sender c' = cl_sender c"
    "b \<longrightarrow> cb_sent s2 = cb_sent s1 @ [(cl_sender c, content (login_frame (cl_id c) (ck_title (cb_config s1))))]"
    by blast
  have run: "connect E s = (Inr b, if b then s2\<lparr>cb_connection_state := state_as_u8 Connected\<rparr> else s2)"
  proof -
    have "connect E s = sbind (cb_login E) (\<lambda>sent. if \<not> sent then sret False
        else sbind (set_connection_state Connected) (\<lambda>_. sret True)) s1"
      unfolding s1_def c_def connect_def using Some r
      by (cases "cb_client s") (simp_all add: srv_simps set_connection_state_def)
    then show ?thesis using l(1) by (simp add: sbind_def set_connection_state_def smod_def sret_def)
  qed
  have kept: "\<forall>c0. cb_client s = Some c0 \<longrightarrow> cl_id c = cl_id c0 \<and> cl_titles c = cl_titles c0"
    by (simp add: c_def set_sender_def)
  have "attempted b s (if b then s2\<lparr>cb_connection_state := state_as_u8 Connected\<rparr> else s2)"
    using l kept by (auto simp: attempted_def connection_state_def s1_def)
  then show ?thesis using run l(3,4) by (auto simp: s1_def)
qed

text \<open>The time from the first attempt to attempt \<open>k + 1\<close>: the sleeps double from a second up to a minute.\<close>

fun delay :: "nat \<Rightarrow> nat" where
  "delay 0 = 0"
| "delay (Suc k) = delay k + min (2 ^ k) 60"

lemma delay_mono: "delay a \<le> delay (a + k)"
  by (induction k) auto

lemma backoff_step: "min (word_of_nat (min (2 ^ a) 60) * 2) 60 = (word_of_nat (min (2 ^ Suc a) 60) :: u64)"
proof (cases "a < 6")
  case True
  then have "a \<in> {0, 1, 2, 3, 4, 5}" by auto
  then show ?thesis by auto
next
  case False
  have "(2 :: nat) ^ 6 \<le> 2 ^ a" by (rule power_increasing) (use False in simp_all)
  then have "min (2 ^ a) 60 = (60 :: nat)" "min (2 ^ Suc a) 60 = (60 :: nat)" by auto
  then show ?thesis by simp
qed

text \<open>The times of \<open>n\<close> attempts, the first at \<open>t\<close>, when \<open>a\<close> attempts were made before.\<close>

definition dial_times :: "u64 \<Rightarrow> nat \<Rightarrow> nat \<Rightarrow> u64 list" where
  "dial_times t a n = map (\<lambda>k. t + word_of_nat (delay (a + k) - delay a)) [0..<n]"

lemma dial_times_Suc: "dial_times t a (Suc n) = t # dial_times (t + word_of_nat (min (2 ^ a) 60)) (Suc a) n"
proof -
  have "t + word_of_nat (delay (Suc (a + k)) - delay a)
      = t + word_of_nat (min (2 ^ a) 60) + word_of_nat (delay (Suc (a + k)) - delay (Suc a))" for k
  proof -
    have "delay (Suc (a + k)) - delay a = min (2 ^ a) 60 + (delay (Suc (a + k)) - delay (Suc a))"
      using delay_mono[of "Suc a" k] by simp
    then show ?thesis by (simp add: add.assoc del: delay.simps)
  qed
  then show ?thesis by (simp add: dial_times_def upt_conv_Cons map_Suc_upt[symmetric] o_def del: upt_Suc delay.simps)
qed

lemma connect_loop_run:
  "bo = word_of_nat (min (2 ^ a) 60) \<Longrightarrow> \<exists>b s' n. connect_loop E L a bo s = (Inr b, s') \<and> attempted b s s'
    \<and> 1 \<le> n \<and> n \<le> max 1 (L - a) \<and> (b \<or> n = max 1 (L - a)) \<and> cb_dials s' = cb_dials s @ dial_times (cb_now s) a n"
proof (induction E L a bo s rule: connect_loop.induct)
  case (1 E L a bo s)
  obtain b s1 where c: "connect E s = (Inr b, s1)" "attempted b s s1" "cb_dials s1 = cb_dials s @ [cb_now s]" "cb_now s1 = cb_now s"
    using connect_run by blast
  have one: "dial_times t a 1 = [t]" for t by (simp add: dial_times_def)
  show ?case
  proof (cases "b \<or> L \<le> a + 1")
    case True
    then show ?thesis
      using c one by (intro exI[of _ b] exI[of _ s1] exI[of _ 1]) (auto simp: connect_loop.simps[of E L a bo s])
  next
    case False
    let ?s = "s1\<lparr>cb_now := cb_now s1 + bo\<rparr>"
    from 1(1)[OF c(1)[symmetric] refl] False 1(2) obtain b' s2 n where
      r: "connect_loop E L (a + 1) (min (bo * 2) 60) ?s = (Inr b', s2)" "attempted b' ?s s2" "1 \<le> n" "n \<le> max 1 (L - (a + 1))"
        "b' \<or> n = max 1 (L - (a + 1))" "cb_dials s2 = cb_dials ?s @ dial_times (cb_now ?s) (a + 1) n"
      using backoff_step[of a] by auto
    have "attempted b' s s2" using attempted_trans[OF _ r(2), of s] c(2) False by simp
    moreover have "cb_dials s2 = cb_dials s @ dial_times (cb_now s) a (Suc n)"
      using r(6) c(3,4) 1(2) by (simp add: dial_times_Suc)
    ultimately show ?thesis
      using r(1,3-5) c(1) False
      by (intro exI[of _ b'] exI[of _ s2] exI[of _ "Suc n"]) (auto simp: connect_loop.simps[of E L a bo s])
  qed
qed

section \<open>Sending with acknowledgements\<close>

lemma send_acked:
  assumes f: "frame_ok d" and m: "m_command (view d) \<in> {Title, Group, Cast}" and c: "connection_state s = Connected"
    "cb_client s = Some c" and en: "ck_ack_enabled (cb_config s)"
  shows "\<exists>b d' s'. send_data E d s = (Inr (b, d'), s') \<and> frame_ok d'
    \<and> view d' = (view d)\<lparr>m_source := cl_id c, m_message_id := ce_random E (cb_tick s)\<rparr>
    \<and> cb_pending_acks s' = dm_insert (ce_random E (cb_tick s)) () (cb_pending_acks s)
    \<and> cb_sent s' = cb_sent s @ (if b then [(cl_sender c, content d')] else []) \<and> cb_client s' \<noteq> None"
proof -
  obtain d1 where d1: "rd_set_source (cl_id c) d = Inr d1" "frame_ok d1" "view d1 = (view d)\<lparr>m_source := cl_id c\<rparr>"
    using src.set_ok[OF f] by blast
  note st = stamp_ok[OF d1(2)]
  have "rd_command d1 = Inr (m_command (view d))" using d1 by simp
  then show ?thesis
    using c en m by (auto simp: send_data_def send_data_with_client_def sbind_def sget_def slift_def srun_def sret_def smod_def
        self_send_def register_pending_def Let_def d1 st)
qed

lemma ack_return_good: "client_good (ack_to_rex_data (ack_new m) i AckReturn)"
  by (simp add: client_good_def ack_to_rex_data_ok) (simp add: ack_layout wire_consts)

lemma ack_return_clears: "pending_after (ack_to_rex_data (ack_new m) i AckReturn) p = dm_remove m p"
proof -
  have "u64_of_le (drop (REX_HEAD_LEN + TITLE_LEN_SIZE) (content (ack_to_rex_data (ack_new m) i AckReturn))) = m"
    using ack_frame_from[of m i AckReturn] by (simp add: ack_from_rex_data_def split: if_splits)
  then show ?thesis by (simp add: pending_after_def ack_to_rex_data_ok)
qed

section \<open>Heartbeats without an answer\<close>

text \<open>A round that starts at one time and waits until another while nothing is received.\<close>

definition silent_round :: "client_env \<Rightarrow> u64 \<times> u64 \<Rightarrow> client_base \<Rightarrow> client_base" where
  "silent_round E p s = snd (heartbeat_round E (smod (\<lambda>s. s\<lparr>cb_now := snd p\<rparr>)) (s\<lparr>cb_now := fst p\<rparr>))"

definition online :: "client_base \<Rightarrow> bool" where
  "online s \<longleftrightarrow> connection_state s = Connected \<and> cb_client s \<noteq> None \<and> ck_idle_timeout (cb_config s) \<noteq> 0"

lemma idle_before: "t \<noteq> 0 \<Longrightarrow> \<not> sat_sub now r < t \<Longrightarrow> \<not> now \<le> (r :: u64)"
  by (auto simp: sat_sub_def word_gt_0 not_less)

lemma silent_round_eq:
  assumes "\<And>k x b. ce_send E k x b" "connection_state s = Connected" "cb_client s = Some c" "ck_idle_timeout (cb_config s) \<noteq> 0"
  shows "silent_round E p s = (if sat_sub (fst p) (cl_last_recv c) < ck_idle_timeout (cb_config s) then s\<lparr>cb_now := fst p\<rparr>
    else s\<lparr>cb_now := snd p, cb_tick := cb_tick s + 1, cb_sent := cb_sent s @ [(cl_sender c, content (rd_new Check [] []))],
      cb_client := Some (update_last_recv (fst p) c), cb_last_heartbeat := snd p\<rparr>)"
proof (cases "sat_sub (fst p) (cl_last_recv c) < ck_idle_timeout (cb_config s)")
  case True
  then show ?thesis
    using assms(2,3) by (simp add: silent_round_def heartbeat_round_def heartbeat_ping_def sbind_def sget_def sret_def connection_state_def)
next
  case False
  with idle_before[OF assms(4)] have "\<not> fst p \<le> cl_last_recv c" by blast
  with False assms(2,3) show ?thesis
    by (cases s) (simp add: silent_round_def heartbeat_round_def heartbeat_ping_def heartbeat_pong_def sbind_def sget_def sret_def
        smod_def self_send_def srun_def Let_def connection_state_def update_last_recv_def assms(1))
qed

lemma silent_round_online:
  assumes "\<And>k x b. ce_send E k x b" "online s"
  shows "online (silent_round E p s)" "cb_calls (silent_round E p s) = cb_calls s"
  using assms(2) silent_round_eq[OF assms(1), of s _ p]
  by (auto simp: online_def connection_state_def split: if_splits)

text \<open>
  The end of the receiving task of an earlier connection marks the client as disconnected, also when a
  new connection has been made since.
\<close>

lemma stale_receiver_disconnects:
  assumes "connection_state s = Connected"
  shows "\<exists>s'. receive_task E dbg [PeerClosed] s = (Inr (), s') \<and> cb_client s' = cb_client s
    \<and> fst (send_data E d s') = Inr (False, d)"
  by (simp add: receive_task_def sbind_def sget_def sret_def set_connection_state_def smod_def send_data_def connection_state_def)

section \<open>Properties\<close>

text \<open>
  C5: An acknowledgement crosses the whole system. A connected client with acknowledgements on casts a
  message: a fresh message id is written into the frame and noted as pending. The server casts the frame
  with this id to the reachable subscribers of the title; a subscriber's client, on receiving it,
  answers with an \<open>Ack\<close> for the id; the server, on receiving that, sends one \<open>AckReturn\<close> to the caster;
  and the caster's client, on receiving that, removes exactly this id from its pending ones and shows
  the answer to the application.
\<close>

theorem ack_end_to_end:
  assumes "connection_state a = Connected" "cb_client a = Some ca" "ck_ack_enabled (cb_config a)"
    and "frame_ok d" "m_command (view d) = Cast" "ce_random C (cb_tick a) = m" "m \<noteq> 0" "cb_client b = Some cb"
    and "reg_ok (w_registry w)" "sc_ack_enabled (w_config w)" "find_some_by_id (cl_id ca) (w_registry w) = Some x"
    and "find_all_by_title (m_title (view d)) (Some (cl_id ca)) (w_registry w) \<noteq> []"
  shows "let ack = ack_to_rex_data (ack_new m) (cl_id cb) Ack; ret = ack_to_rex_data (ack_new m) (cl_id ca) AckReturn in
    \<exists>sent d1 a1 d2 w1 w2 b1 a2. send_data C d a = (Inr (sent, d1), a1)
      \<and> cb_pending_acks a1 = dm_insert m () (cb_pending_acks a)
      \<and> handle_cast E c d1 w = (Inr ok, w1)
      \<and> (\<forall>y \<in> set (reached (cast_outcomes E w d1)). (cl_sender (w_heap w y), content d2) \<in> set (w_sent w1))
      \<and> handle_received_data D d2 b = (Inr (), b1)
      \<and> cb_sent b1 = cb_sent b @ (if ce_send D (cb_tick b) (cl_sender cb) (content ack) then [(cl_sender cb, content ack)] else [])
      \<and> handle_ack E c1 ack w1 = (Inr ok, w2)
      \<and> w_sent w2 = w_sent w1 @ log_send E (w_tick w1) (cl_sender (w_heap w x)) (content ret)
      \<and> handle_received_data C ret a1 = (Inr (), a2)
      \<and> cb_pending_acks a2 = dm_remove m (cb_pending_acks a1) \<and> cb_calls a2 = cb_calls a1 @ [Handle ret]"
proof -
  let ?ack = "ack_to_rex_data (ack_new m) (cl_id cb) Ack" and ?ret = "ack_to_rex_data (ack_new m) (cl_id ca) AckReturn"
  have cmd: "m_command (view d) \<in> {Title, Group, Cast}" using assms(5) by simp
  obtain sent d1 a1 where s: "send_data C d a = (Inr (sent, d1), a1)" "frame_ok d1"
    "view d1 = (view d)\<lparr>m_source := cl_id ca, m_message_id := m\<rparr>" "cb_pending_acks a1 = dm_insert m () (cb_pending_acks a)" "cb_client a1 \<noteq> None"
    using send_acked[OF assms(4) cmd assms(1-3), of C] assms(6) by auto
  let ?d2 = "acked_frame E w d1"
  have m: "acked_id E w d1 = m" using assms(7) by (simp add: acked_id_def s(3))
  have "targets w d1 \<noteq> []" "find_some_by_id (m_source (view d1)) (w_registry w) = Some x"
    using assms(11,12) by (simp_all add: targets_def s(3))
  from cast_acked[OF assms(9) s(2) assms(10) this, of E c c1 "cl_id cb" c1 "cl_id cb"] obtain w1 w2 where
    w: "handle_cast E c d1 w = (Inr ok, w1)" "handle_ack E c1 ?ack w1 = (Inr ok, w2)"
      "w_sent w2 = w_sent w1 @ log_send E (w_tick w1) (cl_sender (w_heap w x)) (content ?ret)"
    unfolding m s(3) by auto
  have "cast_result E c d1 w w1" using cast_wp[OF assms(9) s(2), of E c] w(1) unfolding wp_result by auto
  then have r: "\<forall>y \<in> set (reached (cast_outcomes E w d1)). (cl_sender (w_heap w y), content ?d2) \<in> set (w_sent w1)"
    by (auto simp: cast_result_def)
  have v: "frame_ok ?d2" "view ?d2 = view d1" using acked_frame_ok[OF s(2), of E w] by (simp_all add: m s(3))
  have "client_good ?d2" "needs_ack ?d2" "ack_bytes (cl_id cb) ?d2 = content ?ack"
    using v assms(5,7) by (simp_all add: client_good_def needs_ack_def ack_bytes_def s(3))
  then have b: "\<exists>b1. handle_received_data D ?d2 b = (Inr (), b1) \<and> cb_sent b1 = cb_sent b
      @ (if ce_send D (cb_tick b) (cl_sender cb) (content ?ack) then [(cl_sender cb, content ?ack)] else [])"
    using handle_received[OF _ assms(8), of ?d2 D] by (simp add: received_def)
  obtain ca' where "cb_client a1 = Some ca'" using s(5) by blast
  from handle_received[OF ack_return_good this, of C m "cl_id ca"]
  have "\<exists>a2. handle_received_data C ?ret a1 = (Inr (), a2) \<and> cb_pending_acks a2 = dm_remove m (cb_pending_acks a1)
      \<and> cb_calls a2 = cb_calls a1 @ [Handle ?ret]"
    by (simp add: received_def ack_return_clears calls_of_def ack_to_rex_data_ok)
  with s(1,4) w r b show ?thesis unfolding Let_def by blast
qed

text \<open>
  C16: However the bytes of a connection arrive, the client handles exactly the frames of the stream, in
  order, when they are well formed, each fits the client's buffer limit and an AckReturn carries the
  eight bytes of its id: the application sees every message, answer and login confirmation once; every message with
  an id is acknowledged once, as far as the sends succeed; the answered ids are no longer pending; the
  titles follow the server's confirmations, and the title for the next login follows the titles.
\<close>

theorem client_stream:
  assumes "\<forall>f \<in> set fs. client_good f \<and> length (content f) \<le> mx" "concat chunks = stream fs" "cb_client s = Some c"
  shows "\<exists>s' c'. receive_loop E dbg mx (map Arrived chunks) [] s = (Inr (Some []), s')
    \<and> cb_calls s' = cb_calls s @ concat (map calls_of fs)
    \<and> cb_sent s' = cb_sent s @ ack_log E (cb_tick s) (cl_sender c) (cl_id c) fs
    \<and> cb_pending_acks s' = fold pending_after fs (cb_pending_acks s)
    \<and> cb_client s' = Some c' \<and> cl_id c' = cl_id c \<and> cl_titles c' = cl_titles (fold retitled fs c)
    \<and> (titles_kept s \<longrightarrow> titles_kept s')"
proof -
  have "\<forall>f \<in> set fs. client_good f" using assms(1) by blast
  from fold_crecv[OF this assms(3), of E] receiver.read_stream[OF assms(1,2), of E dbg s] show ?thesis by auto
qed

text \<open>
  C28: Connecting gives up after a known number of attempts at known times. It always returns; it makes
  at least one attempt and at most \<open>max_reconnect_attempts\<close> of them, the first at once and the next ones after
  sleeps of 1, 2, 4, ... up to 60 seconds; it reports failure only after the last one. The client
  object keeps its id and titles, and after success the state is \<open>Connected\<close> and the last frame sent is
  the login with the configured title.
\<close>

theorem retry_schedule:
  "\<exists>b s' n. connect_with_retry E s = (Inr b, s') \<and> attempted b s s'
    \<and> n \<in> {1..max 1 (unat (ck_max_reconnect_attempts (cb_config s)))}
    \<and> (b \<or> n = max 1 (unat (ck_max_reconnect_attempts (cb_config s))))
    \<and> cb_dials s' = cb_dials s @ map (\<lambda>k. cb_now s + word_of_nat (delay k)) [0..<n]"
  using connect_loop_run[of 1 0 E "unat (ck_max_reconnect_attempts (cb_config s))" s]
  by (auto simp: connect_with_retry_def sbind_def sget_def dial_times_def)

text \<open>
  C36: The heartbeat does not notice a peer that has gone silent. As long as the operating system accepts
  what is sent, a connected client with an idle timeout other than zero stays connected through any number of
  heartbeat rounds at any times although nothing is ever received: sending the ping renews the very stamp that the round then
  compares to see whether an answer came.
\<close>

theorem silent_peer_undetected:
  assumes "\<And>k x b. ce_send E k x b" "connection_state s = Connected" "cb_client s = Some c" "ck_idle_timeout (cb_config s) \<noteq> 0"
  shows "connection_state (fold (silent_round E) ps s) = Connected \<and> cb_calls (fold (silent_round E) ps s) = cb_calls s"
proof -
  have "online s" using assms(2-4) by (simp add: online_def)
  then have "online (fold (silent_round E) ps s) \<and> cb_calls (fold (silent_round E) ps s) = cb_calls s"
    by (induction ps arbitrary: s) (simp_all add: silent_round_online[OF assms(1)])
  then show ?thesis by (simp add: online_def)
qed

section \<open>Witnesses\<close>

definition cenv0 :: client_env where
  "cenv0 = \<lparr>ce_send = (\<lambda>k x b. True), ce_random = (\<lambda>k. word_of_nat (k + 1)), ce_connect = (\<lambda>k. None)\<rparr>"

definition caster0 :: client_base where
  "caster0 = (base_new ((client_config_new Tcp ([127, 0, 0, 1], 8881) [])\<lparr>ck_ack_enabled := True\<rparr>) 0)
     \<lparr>cb_connection_state := state_as_u8 Connected, cb_client := Some (client_new 0 0 ([127, 0, 0, 1], 5002) [] 12)\<rparr>"

definition subscriber0 :: client_base where
  "subscriber0 = (base_new (client_config_new Tcp ([127, 0, 0, 1], 8881) ''x'') 0)
     \<lparr>cb_connection_state := state_as_u8 Connected, cb_client := Some (client_new 0 5 ([127, 0, 0, 1], 5000) ''x'' 10)\<rparr>"

lemma caster0_fields: "connection_state caster0 = Connected" "cb_client caster0 = Some (client_new 0 0 ([127, 0, 0, 1], 5002) [] 12)"
  "ck_ack_enabled (cb_config caster0)" "cb_tick caster0 = 0" "cb_pending_acks caster0 = []" "ck_idle_timeout (cb_config caster0) = 10"
  "cb_calls caster0 = []"
  by (simp_all add: caster0_def connection_state_def base_new_def client_config_new_def)

theorem ack_end_to_end_witness:
  "\<exists>sent d1 a1 w1 w2 a2. send_data cenv0 cast0 caster0 = (Inr (sent, d1), a1) \<and> cb_pending_acks a1 = [(1, ())]
    \<and> handle_cast env0 2 d1 (room True) = (Inr ok, w1)
    \<and> handle_ack env0 0 (ack_to_rex_data (ack_new 1) 5 Ack) w1 = (Inr ok, w2)
    \<and> w_sent w2 = w_sent w1 @ [(12, content (ack_to_rex_data (ack_new 1) 0 AckReturn))]
    \<and> handle_received_data cenv0 (ack_to_rex_data (ack_new 1) 0 AckReturn) a1 = (Inr (), a2) \<and> cb_pending_acks a2 = []"
proof -
  let ?cb = "client_new 0 5 ([127, 0, 0, 1], 5000) ''x'' 10" and ?ca = "client_new 0 0 ([127, 0, 0, 1], 5002) [] 12"
  have h: "cb_client subscriber0 = Some ?cb" "m_command (view cast0) = Cast" "ce_random cenv0 (cb_tick caster0) = 1"
    "find_some_by_id (cl_id ?ca) (w_registry (room True)) = Some 2" "cl_id ?ca = 0" "cl_id ?cb = 5"
    "find_all_by_title (m_title (view cast0)) (Some (cl_id ?ca)) (w_registry (room True)) \<noteq> []"
    using rd_new_ok[of "''x''" "[1]"]
    by (simp_all add: subscriber0_def cast0_def fits_def cenv0_def caster0_fields find_some_by_id_def room_index client_new_def room_targets)
  from ack_end_to_end[OF caster0_fields(1-3) cast0_ok(1) h(2,3) one_neq_zero h(1) room_reg_ok[of True] room_fields(1)[of True, THEN eqTrueE] h(4,7),
      of env0 2 cenv0 0]
  show ?thesis
    unfolding Let_def h(5,6) by (elim exE conjE) (intro exI conjI, assumption, simp_all add: caster0_fields room_fields log_send_def env0_def)
qed

theorem client_stream_witness:
  "\<exists>s'. receive_loop cenv0 True 100 (map Arrived [take 5 (content cast0), drop 5 (content cast0)]) [] subscriber0 = (Inr (Some []), s')
    \<and> cb_calls s' = [Handle cast0] \<and> cb_sent s' = []"
proof -
  have v: "client_good cast0" "length (content cast0) \<le> 100" "calls_of cast0 = [Handle cast0]" "\<not> needs_ack cast0"
    using rd_new_ok[of "''x''" "[1]"]
    by (simp_all add: cast0_def fits_def client_good_def calls_of_def needs_ack_def) (simp add: rd_new_layout)
  have "cb_client subscriber0 = Some (client_new 0 5 ([127, 0, 0, 1], 5000) ''x'' 10)" "cb_calls subscriber0 = []" "cb_sent subscriber0 = []"
    by (simp_all add: subscriber0_def base_new_def)
  with client_stream[of "[cast0]" 100 "[take 5 (content cast0), drop 5 (content cast0)]" subscriber0 _ cenv0 True] v
  show ?thesis by auto
qed

theorem silent_peer_undetected_witness:
  "connection_state (fold (silent_round cenv0) [(15, 20), (1000, 1005), (100000, 100005)] caster0) = Connected"
  using silent_peer_undetected[of cenv0 caster0 _ "[(15, 20), (1000, 1005), (100000, 100005)]"]
  by (simp add: cenv0_def caster0_fields)

end
