(* ===== verification/Transports.thy ===== *)
theory Transports
  imports Connection ClientLib
begin

text \<open>
  What surrounds the connection loop: the listeners of the three servers (\<^verbatim>\<open>rex-server/src/transport\<close>) with
  the limit on connections, the WebSocket and QUIC connections of the server, and those of the client
  (\<^verbatim>\<open>rex-client/src/transport\<close>). A WebSocket connection is the list of results of \<open>stream.next()\<close>; a QUIC
  connection has several streams, each with its own task and buffer, whose reads interleave.
\<close>

section \<open>Listeners\<close>

text \<open>
  Where an accept loop is: in its \<open>select!\<close>; in a \<open>select!\<close> whose accept branch has failed to match and
  is disabled; inside \<open>handle_connection\<close>, which it awaits; past its loop. Connections are numbered.
  \<open>ls_connecting\<close> and \<open>ls_waiting\<close> are tasks of the QUIC server that run \<open>handle_connection\<close>.
\<close>

datatype accept_loop = Selecting | AcceptOff | Handshaking nat | WaitingPermit nat | LoopEnded

record listener =
  ls_loop :: accept_loop
  ls_ready :: u8
  ls_permits :: nat
  ls_connecting :: "nat list"
  ls_waiting :: "nat list"
  ls_running :: "nat list"
  ls_shutdown :: bool

definition server_base_new :: "nat \<Rightarrow> listener" where
  "server_base_new max_concurrent_handlers = \<lparr>ls_loop = Selecting, ls_ready = 0, ls_permits = max_concurrent_handlers,
     ls_connecting = [], ls_waiting = [], ls_running = [], ls_shutdown = False\<rparr>"

definition mark_ready :: "listener \<Rightarrow> listener" where
  "mark_ready l = l\<lparr>ls_ready := 1\<rparr>"

datatype listen_event = Incoming nat | AcceptError | HandshakeOk nat | HandshakeErr nat | PermitGranted nat
  | ConnectionEnded nat | SignalSent | SignalSeen

definition acquire_permit :: "nat \<Rightarrow> listener \<Rightarrow> listener option" where
  "acquire_permit c l = (if ls_permits l = 0 then None
     else Some (l\<lparr>ls_permits := ls_permits l - 1, ls_running := c # ls_running l\<rparr>))"

text \<open>The end of a connection's task, the shutdown signal, and the loop's reaction to it.\<close>

definition listen_rest :: "listen_event \<Rightarrow> listener \<Rightarrow> listener option" where
  "listen_rest e l = (case e of
       ConnectionEnded c \<Rightarrow> if c \<in> set (ls_running l)
         then Some (l\<lparr>ls_running := remove1 c (ls_running l), ls_permits := ls_permits l + 1\<rparr>) else None
     | SignalSent \<Rightarrow> Some (l\<lparr>ls_shutdown := True\<rparr>)
     | SignalSeen \<Rightarrow> if ls_shutdown l \<and> (ls_loop l = Selecting \<or> ls_loop l = AcceptOff)
         then Some (l\<lparr>ls_loop := LoopEnded\<rparr>) else None
     | _ \<Rightarrow> None)"

text \<open>One event of each listener; \<open>None\<close> says that the event cannot happen in this state.\<close>

definition tcp_listen :: "listen_event \<Rightarrow> listener \<Rightarrow> listener option" where
  "tcp_listen e l = (case e of
       Incoming c \<Rightarrow> if ls_loop l = Selecting then Some (l\<lparr>ls_loop := WaitingPermit c\<rparr>) else None
     | AcceptError \<Rightarrow> if ls_loop l = Selecting then Some (l\<lparr>ls_loop := AcceptOff\<rparr>) else None
     | PermitGranted c \<Rightarrow> if ls_loop l = WaitingPermit c
         then map_option (ls_loop_update (\<lambda>_. Selecting)) (acquire_permit c l) else None
     | _ \<Rightarrow> listen_rest e l)"

definition ws_listen :: "listen_event \<Rightarrow> listener \<Rightarrow> listener option" where
  "ws_listen e l = (case e of
       Incoming c \<Rightarrow> if ls_loop l = Selecting then Some (l\<lparr>ls_loop := Handshaking c\<rparr>) else None
     | AcceptError \<Rightarrow> if ls_loop l = Selecting then Some (l\<lparr>ls_loop := AcceptOff\<rparr>) else None
     | HandshakeOk c \<Rightarrow> if ls_loop l = Handshaking c then Some (l\<lparr>ls_loop := WaitingPermit c\<rparr>) else None
     | HandshakeErr c \<Rightarrow> if ls_loop l = Handshaking c then Some (l\<lparr>ls_loop := Selecting\<rparr>) else None
     | PermitGranted c \<Rightarrow> if ls_loop l = WaitingPermit c
         then map_option (ls_loop_update (\<lambda>_. Selecting)) (acquire_permit c l) else None
     | _ \<Rightarrow> listen_rest e l)"

text \<open>
  The QUIC server spawns a task per connection: the handshake and the opening of the stream for sends,
  the permit, the streams. Its accept branch fails to match only when the endpoint is closed.
\<close>

definition quic_listen :: "listen_event \<Rightarrow> listener \<Rightarrow> listener option" where
  "quic_listen e l = (case e of
       Incoming c \<Rightarrow> if ls_loop l = Selecting then Some (l\<lparr>ls_connecting := c # ls_connecting l\<rparr>) else None
     | AcceptError \<Rightarrow> if ls_loop l = Selecting then Some (l\<lparr>ls_loop := AcceptOff\<rparr>) else None
     | HandshakeOk c \<Rightarrow> if c \<in> set (ls_connecting l)
         then Some (l\<lparr>ls_connecting := remove1 c (ls_connecting l), ls_waiting := c # ls_waiting l\<rparr>) else None
     | HandshakeErr c \<Rightarrow> if c \<in> set (ls_connecting l)
         then Some (l\<lparr>ls_connecting := remove1 c (ls_connecting l)\<rparr>) else None
     | PermitGranted c \<Rightarrow> if c \<in> set (ls_waiting l)
         then acquire_permit c (l\<lparr>ls_waiting := remove1 c (ls_waiting l)\<rparr>) else None
     | _ \<Rightarrow> listen_rest e l)"

primrec listen_run :: "(listen_event \<Rightarrow> listener \<Rightarrow> listener option) \<Rightarrow> listen_event list \<Rightarrow> listener \<Rightarrow> listener option" where
  "listen_run listen [] l = Some l"
| "listen_run listen (e # es) l = (case listen e l of None \<Rightarrow> None | Some l' \<Rightarrow> listen_run listen es l')"

section \<open>The WebSocket server\<close>

datatype ws_message = WsText bytes | WsBinary bytes | WsPing bytes | WsPong bytes | WsClose | WsFrame bytes

text \<open>What \<open>stream.next()\<close> gives, and what a driver's \<open>select!\<close> gets.\<close>

datatype ws_next = Next ws_message | NextErr | NextNone

datatype ws_event = WsRead ws_next | WsShutdown | WsCancelled

text \<open>\<open>WebSocketSender::send_buf\<close>: what is written becomes one binary message.\<close>

definition ws_sent :: "bytes \<Rightarrow> ws_message" where
  "ws_sent buf = WsBinary buf"

text \<open>
  One turn of the loop in \<open>WebSocketByteSource::poll_read\<close>: what it returns to the driver, or \<open>None\<close> when it
  reads on. The pong is the payload of the ping, given to \<open>send_buf\<close>.
\<close>

definition ws_poll :: "'db env \<Rightarrow> cref \<Rightarrow> ws_next \<Rightarrow> ('db world, drive_event option) srv" where
  "ws_poll E peer x = (case x of
       Next (WsBinary data) \<Rightarrow> sret (Some (DataIn data))
     | Next WsClose \<Rightarrow> sret (Some StreamEnd)
     | Next (WsPing data) \<Rightarrow> sbind (send_buf E peer data) (\<lambda>_. sret None)
     | Next _ \<Rightarrow> sret None
     | NextErr \<Rightarrow> sret (Some ReadError)
     | NextNone \<Rightarrow> sret (Some StreamEnd))"

fun ws_drive_loop :: "'db env \<Rightarrow> bool \<Rightarrow> cref \<Rightarrow> nat \<Rightarrow> ws_event list \<Rightarrow> bytes \<Rightarrow> ('db world, bytes option) srv" where
  "ws_drive_loop E dbg peer max_buffer_size [] buffer = sret (Some buffer)"
| "ws_drive_loop E dbg peer max_buffer_size (WsRead x # es) buffer =
     sbind (ws_poll E peer x) (\<lambda>r. case r of
       None \<Rightarrow> ws_drive_loop E dbg peer max_buffer_size es buffer
     | Some (DataIn bs) \<Rightarrow>
         sbind (parse_and_handle_buffer E dbg peer max_buffer_size (buffer @ bs)) (\<lambda>r. case r of
           None \<Rightarrow> sret None
         | Some buffer' \<Rightarrow> ws_drive_loop E dbg peer max_buffer_size es buffer')
     | Some _ \<Rightarrow> sret (Some buffer))"
| "ws_drive_loop E dbg peer max_buffer_size (_ # es) buffer = sret (Some buffer)"

definition ws_accept :: "cref \<Rightarrow> u128 \<Rightarrow> socket_addr \<Rightarrow> sender_ref \<Rightarrow> ('db world, unit) srv" where
  "ws_accept c uuid addr sender = smod (\<lambda>w. w\<lparr>w_registry := upd_client c (\<lambda>_.
     set_transport_label ''websocket'' (client_new (w_now w) uuid addr [] sender)) (w_registry w)\<rparr>)"

text \<open>A connection whose handshake succeeded, from its permit to its end.\<close>

definition ws_handle_connection :: "'db env \<Rightarrow> bool \<Rightarrow> cref \<Rightarrow> u128 \<Rightarrow> socket_addr \<Rightarrow> sender_ref \<Rightarrow> nat
    \<Rightarrow> ws_event list \<Rightarrow> ('db world, unit) srv" where
  "ws_handle_connection E dbg c uuid addr sender max_buffer_size es =
     sbind (ws_accept c uuid addr sender) (\<lambda>_.
     sbind (driver_new c) (\<lambda>_.
     sbind (ws_drive_loop E dbg c max_buffer_size es []) (\<lambda>_.
     sbind (sget (\<lambda>w. id_of (w_registry w) c)) (\<lambda>i.
     sbind (unregister_client_shutdown i) (\<lambda>_.
     sbind (sget (\<lambda>w. id_of (w_registry w) c)) (\<lambda>i.
     sbind (svc_remove_client E i) (\<lambda>_. sret ())))))))"

section \<open>The QUIC server\<close>

text \<open>
  A connection with its accept loop for streams and the buffers of the streams being read. Each
  stream has its own driver and therefore registers a cancellation token of its own.
\<close>

record quic_conn =
  qc_accepting :: bool
  qc_streams :: "nat \<Rightarrow> bytes option"

datatype quic_event = StreamOpened nat | OnStream nat drive_event | ConnectionLost

definition set_stream :: "nat \<Rightarrow> bytes \<Rightarrow> quic_conn \<Rightarrow> quic_conn" where
  "set_stream s b q = q\<lparr>qc_streams := (qc_streams q)(s \<mapsto> b)\<rparr>"

definition end_stream :: "nat \<Rightarrow> quic_conn \<Rightarrow> quic_conn" where
  "end_stream s q = q\<lparr>qc_streams := (qc_streams q)(s := None)\<rparr>"

text \<open>\<open>handle_stream\<close>: one event of the driver of a stream.\<close>

definition quic_stream :: "'db env \<Rightarrow> bool \<Rightarrow> cref \<Rightarrow> nat \<Rightarrow> nat \<Rightarrow> drive_event \<Rightarrow> quic_conn \<Rightarrow> ('db world, quic_conn option) srv" where
  "quic_stream E dbg peer max_buffer_size s e q = (case qc_streams q s of
       None \<Rightarrow> sret (Some q)
     | Some buffer \<Rightarrow> (case e of
         DataIn bs \<Rightarrow> sbind (drive_loop E dbg peer max_buffer_size [DataIn bs] buffer) (\<lambda>r.
           sret (map_option (\<lambda>buffer'. set_stream s buffer' q) r))
       | _ \<Rightarrow> sbind (sget (\<lambda>w. id_of (w_registry w) peer)) (\<lambda>i.
           sbind (unregister_client_shutdown i) (\<lambda>_. sret (Some (end_stream s q))))))"

definition quic_step :: "'db env \<Rightarrow> bool \<Rightarrow> cref \<Rightarrow> nat \<Rightarrow> quic_event \<Rightarrow> quic_conn \<Rightarrow> ('db world, quic_conn option) srv" where
  "quic_step E dbg peer max_buffer_size e q = (case e of
       StreamOpened s \<Rightarrow>
         if qc_accepting q then sbind (driver_new peer) (\<lambda>_. sret (Some (set_stream s [] q))) else sret (Some q)
     | OnStream s e \<Rightarrow> quic_stream E dbg peer max_buffer_size s e q
     | ConnectionLost \<Rightarrow>
         if qc_accepting q then
           sbind (sget (\<lambda>w. id_of (w_registry w) peer)) (\<lambda>i.
           sbind (svc_remove_client E i) (\<lambda>_. sret (Some (q\<lparr>qc_accepting := False\<rparr>))))
         else sret (Some q))"

primrec quic_loop :: "'db env \<Rightarrow> bool \<Rightarrow> cref \<Rightarrow> nat \<Rightarrow> quic_event list \<Rightarrow> quic_conn \<Rightarrow> ('db world, quic_conn option) srv" where
  "quic_loop E dbg peer max_buffer_size [] q = sret (Some q)"
| "quic_loop E dbg peer max_buffer_size (e # es) q =
     sbind (quic_step E dbg peer max_buffer_size e q) (\<lambda>r. case r of
       None \<Rightarrow> sret None
     | Some q' \<Rightarrow> quic_loop E dbg peer max_buffer_size es q')"

definition quic_accept :: "cref \<Rightarrow> u128 \<Rightarrow> socket_addr \<Rightarrow> sender_ref \<Rightarrow> ('db world, unit) srv" where
  "quic_accept c uuid addr sender = smod (\<lambda>w. w\<lparr>w_registry := upd_client c (\<lambda>_.
     set_transport_label ''quic'' (client_new (w_now w) uuid addr [] sender)) (w_registry w)\<rparr>)"

definition quic_handle_connection :: "'db env \<Rightarrow> bool \<Rightarrow> cref \<Rightarrow> u128 \<Rightarrow> socket_addr \<Rightarrow> sender_ref \<Rightarrow> nat
    \<Rightarrow> quic_event list \<Rightarrow> ('db world, quic_conn option) srv" where
  "quic_handle_connection E dbg c uuid addr sender max_buffer_size es =
     sbind (quic_accept c uuid addr sender) (\<lambda>_.
     quic_loop E dbg c max_buffer_size es \<lparr>qc_accepting = True, qc_streams = (\<lambda>_. None)\<rparr>)"

section \<open>The WebSocket and QUIC clients\<close>

datatype ws_client_event = WsIn ws_next | WsStop

fun ws_receive_loop :: "client_env \<Rightarrow> bool \<Rightarrow> nat \<Rightarrow> ws_client_event list \<Rightarrow> bytes \<Rightarrow> (client_base, bytes option) srv" where
  "ws_receive_loop E dbg max_buffer_size [] buffer = sret (Some buffer)"
| "ws_receive_loop E dbg max_buffer_size (WsIn (Next m) # es) buffer = (case m of
       WsBinary data \<Rightarrow>
         sbind (receive_frames (Suc (length (buffer @ data))) E dbg (buffer @ data)) (\<lambda>r. case r of
           None \<Rightarrow> sret None
         | Some rest \<Rightarrow> ws_receive_loop E dbg max_buffer_size es (if max_buffer_size < length rest then [] else rest))
     | WsClose \<Rightarrow> sret (Some buffer)
     | _ \<Rightarrow> ws_receive_loop E dbg max_buffer_size es buffer)"
| "ws_receive_loop E dbg max_buffer_size (_ # es) buffer = sret (Some buffer)"

definition ws_receive_task :: "client_env \<Rightarrow> bool \<Rightarrow> ws_client_event list \<Rightarrow> (client_base, unit) srv" where
  "ws_receive_task E dbg es =
     sbind (sget (\<lambda>s. unat (ck_max_buffer_size (cb_config s)))) (\<lambda>mx.
     sbind (ws_receive_loop E dbg mx es []) (\<lambda>_. set_connection_state Disconnected))"

text \<open>
  Connecting over a WebSocket is connecting over TCP, except that the client object gets the
  address \<open>0.0.0.0:0\<close>.
\<close>

definition ws_env :: "client_env \<Rightarrow> client_env" where
  "ws_env E = E\<lparr>ce_connect := (\<lambda>k. map_option (\<lambda>(sender, local_addr, uuid). (sender, ([0, 0, 0, 0], 0), uuid)) (ce_connect E k))\<rparr>"

definition ws_connect :: "client_env \<Rightarrow> (client_base, bool) srv" where
  "ws_connect E = connect (ws_env E)"

definition ws_connect_with_retry :: "client_env \<Rightarrow> (client_base, bool) srv" where
  "ws_connect_with_retry E = connect_with_retry (ws_env E)"

definition ws_open :: "client_env \<Rightarrow> client_config \<Rightarrow> u64 \<Rightarrow> (fault + bool) \<times> client_base" where
  "ws_open E config now = ws_connect_with_retry E (base_new config now)"

definition ws_monitor_round :: "client_env \<Rightarrow> (client_base, unit) srv" where
  "ws_monitor_round E = sbind (sget connection_state) (\<lambda>st. case st of
       Disconnected \<Rightarrow>
         sbind (set_connection_state Reconnecting) (\<lambda>_.
         sbind (ws_connect_with_retry E) (\<lambda>connected.
         if connected then sret () else set_connection_state Disconnected))
     | _ \<Rightarrow> sret ())"

text \<open>
  The QUIC client: \<open>receive_data_task\<close> accepts the server's streams, \<open>handle_stream\<close> reads one. The end of
  the task makes the client \<open>Disconnected\<close>; the tasks of the streams go on until their reads fail.
\<close>

datatype quic_client_event = CStreamOpened nat | COnStream nat read_event | CConnectionLost | CStop

definition quic_client_stream :: "client_env \<Rightarrow> bool \<Rightarrow> nat \<Rightarrow> nat \<Rightarrow> read_event \<Rightarrow> quic_conn \<Rightarrow> (client_base, quic_conn option) srv" where
  "quic_client_stream E dbg max_buffer_size s e q = (case qc_streams q s of
       None \<Rightarrow> sret (Some q)
     | Some buffer \<Rightarrow> (case e of
         Arrived bs \<Rightarrow> sbind (parse_buffer E dbg max_buffer_size (buffer @ bs)) (\<lambda>r.
           sret (map_option (\<lambda>buffer'. set_stream s buffer' q) r))
       | ShutdownSignal \<Rightarrow> sret (Some q)
       | _ \<Rightarrow> sret (Some (end_stream s q))))"

definition quic_client_step :: "client_env \<Rightarrow> bool \<Rightarrow> nat \<Rightarrow> quic_client_event \<Rightarrow> quic_conn \<Rightarrow> (client_base, quic_conn option) srv" where
  "quic_client_step E dbg max_buffer_size e q = (case e of
       CStreamOpened s \<Rightarrow> sret (Some (if qc_accepting q then set_stream s [] q else q))
     | COnStream s e \<Rightarrow> quic_client_stream E dbg max_buffer_size s e q
     | _ \<Rightarrow>
         if qc_accepting q then
           sbind (set_connection_state Disconnected) (\<lambda>_. sret (Some (q\<lparr>qc_accepting := False\<rparr>)))
         else sret (Some q))"

primrec quic_receive :: "client_env \<Rightarrow> bool \<Rightarrow> nat \<Rightarrow> quic_client_event list \<Rightarrow> quic_conn \<Rightarrow> (client_base, quic_conn option) srv" where
  "quic_receive E dbg max_buffer_size [] q = sret (Some q)"
| "quic_receive E dbg max_buffer_size (e # es) q =
     sbind (quic_client_step E dbg max_buffer_size e q) (\<lambda>r. case r of
       None \<Rightarrow> sret None
     | Some q' \<Rightarrow> quic_receive E dbg max_buffer_size es q')"

section \<open>The permits\<close>

text \<open>A listener that takes a permit for every connection it runs, and gives it back.\<close>

locale permit_listener =
  fixes listen :: "listen_event \<Rightarrow> listener \<Rightarrow> listener option"
  assumes permits_kept: "listen e l = Some l' \<Longrightarrow> length (ls_running l') + ls_permits l' = length (ls_running l) + ls_permits l"
begin

lemma run_permits: "listen_run listen es l = Some l' \<Longrightarrow> length (ls_running l') + ls_permits l' = length (ls_running l) + ls_permits l"
  by (induction es arbitrary: l) (auto split: option.splits dest!: permits_kept)

end

text \<open>A listener whose accept loop, once its accept branch is disabled, takes no connection.\<close>

locale deaf_listener = permit_listener +
  assumes deaf: "listen e l = Some l' \<Longrightarrow> ls_loop l \<in> {AcceptOff, LoopEnded} \<Longrightarrow>
    ls_loop l' \<in> {AcceptOff, LoopEnded} \<and> (\<forall>c. e \<noteq> Incoming c) \<and> set (ls_running l') \<subseteq> set (ls_running l)"
    and held: "listen e l = Some l' \<Longrightarrow> ls_loop l = WaitingPermit c \<Longrightarrow> ls_permits l = 0 \<Longrightarrow>
    e = SignalSent \<or> (\<exists>c' \<in> set (ls_running l). e = ConnectionEnded c')"
begin

lemma run_deaf:
  "listen_run listen es l = Some l' \<Longrightarrow> ls_loop l \<in> {AcceptOff, LoopEnded} \<Longrightarrow>
    ls_loop l' \<in> {AcceptOff, LoopEnded} \<and> (\<forall>c. Incoming c \<notin> set es) \<and> set (ls_running l') \<subseteq> set (ls_running l)"
proof (induction es arbitrary: l)
  case (Cons e es)
  then obtain l1 where l1: "listen e l = Some l1" "listen_run listen es l1 = Some l'"
    by (auto split: option.splits)
  from deaf[OF l1(1) Cons(3)] Cons(1)[OF l1(2)] show ?case by auto
qed simp

end

lemma acquire_permit_kept:
  "acquire_permit c l = Some l' \<Longrightarrow> length (ls_running l') + ls_permits l' = length (ls_running l) + ls_permits l \<and> ls_loop l' = ls_loop l"
  by (auto simp: acquire_permit_def split: if_splits)

lemma listen_rest_kept:
  "listen_rest e l = Some l' \<Longrightarrow> length (ls_running l') + ls_permits l' = length (ls_running l) + ls_permits l"
  by (cases e) (auto simp: listen_rest_def length_remove1 Suc_pred[OF length_pos_if_in_set, unfolded One_nat_def] split: if_splits)

lemma listen_rest_deaf:
  "listen_rest e l = Some l' \<Longrightarrow> ls_loop l \<in> {AcceptOff, LoopEnded} \<Longrightarrow>
    ls_loop l' \<in> {AcceptOff, LoopEnded} \<and> set (ls_running l') \<subseteq> set (ls_running l)"
  by (cases e) (auto simp: listen_rest_def split: if_splits dest: subsetD[OF set_remove1_subset])

lemma listen_rest_held:
  "listen_rest e l = Some l' \<Longrightarrow> ls_loop l = WaitingPermit c \<Longrightarrow> e = SignalSent \<or> (\<exists>c' \<in> set (ls_running l). e = ConnectionEnded c')"
  by (cases e) (auto simp: listen_rest_def split: if_splits)

interpretation tcp: deaf_listener tcp_listen
proof
  show "length (ls_running l') + ls_permits l' = length (ls_running l) + ls_permits l" if "tcp_listen e l = Some l'" for e l l'
    using that by (cases e) (auto simp: tcp_listen_def split: if_splits dest: acquire_permit_kept listen_rest_kept)
  show "ls_loop l' \<in> {AcceptOff, LoopEnded} \<and> (\<forall>c. e \<noteq> Incoming c) \<and> set (ls_running l') \<subseteq> set (ls_running l)"
    if "tcp_listen e l = Some l'" "ls_loop l \<in> {AcceptOff, LoopEnded}" for e l l'
    using that listen_rest_deaf[of e l l'] by (cases e) (auto simp: tcp_listen_def split: if_splits)
  show "e = SignalSent \<or> (\<exists>c' \<in> set (ls_running l). e = ConnectionEnded c')"
    if "tcp_listen e l = Some l'" "ls_loop l = WaitingPermit c" "ls_permits l = 0" for e l l' c
    using that listen_rest_held[of e l l' c] by (cases e) (auto simp: tcp_listen_def acquire_permit_def split: if_splits)
qed

interpretation ws: deaf_listener ws_listen
proof
  show "length (ls_running l') + ls_permits l' = length (ls_running l) + ls_permits l" if "ws_listen e l = Some l'" for e l l'
    using that by (cases e) (auto simp: ws_listen_def split: if_splits dest: acquire_permit_kept listen_rest_kept)
  show "ls_loop l' \<in> {AcceptOff, LoopEnded} \<and> (\<forall>c. e \<noteq> Incoming c) \<and> set (ls_running l') \<subseteq> set (ls_running l)"
    if "ws_listen e l = Some l'" "ls_loop l \<in> {AcceptOff, LoopEnded}" for e l l'
    using that listen_rest_deaf[of e l l'] by (cases e) (auto simp: ws_listen_def split: if_splits)
  show "e = SignalSent \<or> (\<exists>c' \<in> set (ls_running l). e = ConnectionEnded c')"
    if "ws_listen e l = Some l'" "ls_loop l = WaitingPermit c" "ls_permits l = 0" for e l l' c
    using that listen_rest_held[of e l l' c] by (cases e) (auto simp: ws_listen_def acquire_permit_def split: if_splits)
qed

interpretation quic: permit_listener quic_listen
proof
  show "length (ls_running l') + ls_permits l' = length (ls_running l) + ls_permits l" if "quic_listen e l = Some l'" for e l l'
    using that by (cases e) (auto simp: quic_listen_def split: if_splits dest!: acquire_permit_kept dest: listen_rest_kept)
qed

section \<open>WebSocket connections as byte streams\<close>

definition ws_drive_events :: "ws_event \<Rightarrow> drive_event list" where
  "ws_drive_events e = (case e of
       WsRead (Next (WsBinary data)) \<Rightarrow> [DataIn data]
     | WsRead (Next WsClose) \<Rightarrow> [StreamEnd]
     | WsRead (Next _) \<Rightarrow> []
     | WsRead NextErr \<Rightarrow> [ReadError]
     | WsRead NextNone \<Rightarrow> [StreamEnd]
     | WsShutdown \<Rightarrow> [ServerShutdown]
     | WsCancelled \<Rightarrow> [ClientCancel])"

definition ws_read_events :: "ws_client_event \<Rightarrow> read_event list" where
  "ws_read_events e = (case e of
       WsIn (Next (WsBinary data)) \<Rightarrow> [Arrived data]
     | WsIn (Next WsClose) \<Rightarrow> [PeerClosed]
     | WsIn (Next _) \<Rightarrow> []
     | WsIn NextErr \<Rightarrow> [ReadFailed]
     | WsIn NextNone \<Rightarrow> [PeerClosed]
     | WsStop \<Rightarrow> [ShutdownSignal])"

lemma ws_events_simps [simp]:
  "ws_drive_events (WsRead (Next (WsBinary data))) = [DataIn data]" "ws_drive_events (WsRead (Next WsClose)) = [StreamEnd]"
  "ws_drive_events (WsRead (Next (WsText data))) = []" "ws_drive_events (WsRead (Next (WsPong data))) = []"
  "ws_drive_events (WsRead (Next (WsFrame data))) = []" "ws_drive_events (WsRead NextErr) = [ReadError]"
  "ws_drive_events (WsRead NextNone) = [StreamEnd]" "ws_drive_events WsShutdown = [ServerShutdown]"
  "ws_drive_events WsCancelled = [ClientCancel]"
  "ws_read_events (WsIn (Next (WsBinary data))) = [Arrived data]" "ws_read_events (WsIn (Next WsClose)) = [PeerClosed]"
  "ws_read_events (WsIn (Next (WsText data))) = []" "ws_read_events (WsIn (Next (WsPing data))) = []"
  "ws_read_events (WsIn (Next (WsPong data))) = []" "ws_read_events (WsIn (Next (WsFrame data))) = []"
  "ws_read_events (WsIn NextErr) = [ReadFailed]" "ws_read_events (WsIn NextNone) = [PeerClosed]"
  "ws_read_events WsStop = [ShutdownSignal]"
  by (simp_all add: ws_drive_events_def ws_read_events_def)

lemma ws_drive_as_tcp:
  "(\<forall>p. WsRead (Next (WsPing p)) \<notin> set es) \<Longrightarrow>
    ws_drive_loop E dbg c mx es = drive_loop E dbg c mx (concat (map ws_drive_events es))"
proof (induction es)
  case (Cons e es)
  then have IH: "ws_drive_loop E dbg c mx es = drive_loop E dbg c mx (concat (map ws_drive_events es))" by simp
  show ?case
  proof (cases e)
    case (WsRead x)
    show ?thesis
    proof (cases x)
      case (Next m)
      show ?thesis using Next WsRead Cons(2) by (cases m) (auto simp: fun_eq_iff ws_poll_def sbind_simps IH)
    qed (simp_all add: fun_eq_iff WsRead ws_poll_def sbind_simps)
  qed (simp_all add: fun_eq_iff)
qed (simp add: fun_eq_iff)

lemma ws_receive_as_tcp:
  "ws_receive_loop E dbg mx es = receive_loop E dbg mx (concat (map ws_read_events es))"
proof (induction es)
  case (Cons e es)
  show ?case
  proof (cases e)
    case (WsIn x)
    show ?thesis
    proof (cases x)
      case (Next m)
      have "sbind (receive_frames n E dbg b) (\<lambda>r. case r of None \<Rightarrow> sret None | Some rest \<Rightarrow> k (if mx < length rest then [] else rest))
        = sbind (sbind (receive_frames n E dbg b) (\<lambda>r. sret (map_option (\<lambda>rest. if mx < length rest then [] else rest) r)))
            (\<lambda>r. case r of None \<Rightarrow> sret None | Some b' \<Rightarrow> k b')" for n b and k :: "bytes \<Rightarrow> (client_base, bytes option) srv"
        unfolding sbind_assoc by (intro arg_cong[of _ _ "sbind _"] ext) (simp add: sbind_simps split: option.splits)
      then show ?thesis
        by (cases m) (simp_all add: fun_eq_iff WsIn Next Cons parse_buffer_def del: receive_frames.simps)
    qed (simp_all add: fun_eq_iff WsIn)
  qed (simp_all add: fun_eq_iff)
qed (simp add: fun_eq_iff)

text \<open>A buffer that begins with four bytes naming a greater length is left alone.\<close>

lemma waits_for_length:
  assumes "4 \<le> length p" "REX_HEAD_LEN + TITLE_LEN_SIZE \<le> unat (u32_of_le p)" "length (p @ r) < unat (u32_of_le p)"
  shows "try_deserialize dbg (p @ r) = Inr (None, p @ r)"
  using assms by (simp add: try_deserialize_def wire_consts u32_of_le_append)

lemma receive_loop_waits:
  assumes "4 \<le> length p" "REX_HEAD_LEN + TITLE_LEN_SIZE \<le> unat (u32_of_le p)"
    and "length (p @ r @ concat chunks) < unat (u32_of_le p)" "length (p @ r @ concat chunks) \<le> mx"
  shows "receive_loop E dbg mx (map Arrived chunks) (p @ r) s = (Inr (Some (p @ r @ concat chunks)), s)"
  using assms(3,4)
proof (induction chunks arbitrary: r)
  case (Cons ch chunks)
  from waits_for_length[OF assms(1,2), of "r @ ch" dbg] Cons(2)
  have "try_deserialize dbg (p @ r @ ch) = Inr (None, p @ r @ ch)" by simp
  then have "receive_loop E dbg mx (map Arrived (ch # chunks)) (p @ r) s = receive_loop E dbg mx (map Arrived chunks) (p @ r @ ch) s"
    using Cons(3) by (simp add: parse_buffer_def sbind_def slift_def sret_def)
  also have "\<dots> = (Inr (Some (p @ (r @ ch) @ concat chunks)), s)" using Cons(1)[of "r @ ch"] Cons(2,3) by simp
  finally show ?case by simp
qed (simp add: sret_def)

section \<open>QUIC connections as several byte streams\<close>

lemma drive_one: "drive_loop E dbg c mx [DataIn ch] r w = (Inr (Some r'), w') \<Longrightarrow> qc_streams q s = Some r \<Longrightarrow>
    quic_loop E dbg c mx (OnStream s (DataIn ch) # es) q w = quic_loop E dbg c mx es (set_stream s r' q) w'"
  by (simp add: quic_step_def quic_stream_def sbind_def sret_def)

interpretation streams: stream_mux "\<lambda>n. parse_loop n E dbg c" "\<lambda>mx chunks. drive_loop E dbg c mx (map DataIn chunks)"
    servable "serve E c" dbg "\<lambda>mx es. quic_loop E dbg c mx (map (\<lambda>(s, ch). OnStream s (DataIn ch)) es)"
    qc_streams set_stream for E dbg c
proof
  show "quic_loop E dbg c mx (map (\<lambda>(s, ch). OnStream s (DataIn ch)) ((s, ch) # es)) q w
      = quic_loop E dbg c mx (map (\<lambda>(s, ch). OnStream s (DataIn ch)) es) (set_stream s r' q) w'"
    if "qc_streams q s = Some r" "drive_loop E dbg c mx (map DataIn [ch]) r w = (Inr (Some r'), w')" for mx q s r ch w r' w' es
    using drive_one[of E dbg c mx ch r w r' w' q s] that by (simp del: drive_loop.simps quic_loop.simps)
qed (simp_all add: sret_def set_stream_def)

interpretation client_streams: stream_mux "\<lambda>n. receive_frames n E dbg" "\<lambda>mx chunks. receive_loop E dbg mx (map Arrived chunks)"
    client_good "crecv E" dbg "\<lambda>mx es. quic_receive E dbg mx (map (\<lambda>(s, ch). COnStream s (Arrived ch)) es)"
    qc_streams set_stream for E dbg
proof
  show "quic_receive E dbg mx (map (\<lambda>(s, ch). COnStream s (Arrived ch)) ((s, ch) # es)) q w
      = quic_receive E dbg mx (map (\<lambda>(s, ch). COnStream s (Arrived ch)) es) (set_stream s r' q) w'"
    if "qc_streams q s = Some r" "receive_loop E dbg mx (map Arrived [ch]) r w = (Inr (Some r'), w')" for mx q s r ch w r' w' es
    using that by (auto simp: quic_client_step_def quic_client_stream_def sbind_def sret_def split: prod.splits sum.splits option.splits)
qed (simp_all add: sret_def set_stream_def)

text \<open>
  All streams of a connection register their cancellation token under the id of the client: the end of one stream
  removes the entry, and a cancellation of the client no longer finds the streams that go on.
\<close>

lemma stream_end_drops_token:
  assumes "qc_streams q s = Some b" "\<forall>bs. e \<noteq> DataIn bs" "t \<noteq> s" "qc_streams q t = Some b'"
  shows "\<exists>q' w'. quic_step E dbg c mx (OnStream s e) q w = (Inr (Some q'), w') \<and> qc_streams q' t = Some b'
    \<and> fst (cancel_client (id_of (w_registry w') c) w') = Inr False"
  using assms
  by (cases e) (auto simp: quic_step_def quic_stream_def srv_simps unregister_client_shutdown_def smod_def sget_def sbind_def sret_def
      end_stream_def cancel_client_def srun_def delete_conv')

section \<open>Reconnecting over a WebSocket\<close>

text \<open>
  A monitor round that finds the connection lost ends connected, with the client's id and titles kept and the login sent,
  or disconnected again; it makes its attempts at the times of the TCP client.
\<close>

lemma ws_monitor_reconnects:
  assumes "connection_state s = Disconnected"
  shows "\<exists>b s' n. ws_monitor_round E s = (Inr (), s') \<and> connection_state s' = (if b then Connected else Disconnected)
    \<and> map_option (\<lambda>c. (cl_id c, cl_titles c)) (cb_client s) \<in> {None, map_option (\<lambda>c. (cl_id c, cl_titles c)) (cb_client s')}
    \<and> cb_dials s' = cb_dials s @ map (\<lambda>k. cb_now s + word_of_nat (delay k)) [0..<n]"
proof -
  let ?s = "s\<lparr>cb_connection_state := state_as_u8 Reconnecting\<rparr>"
  obtain b s1 n where c: "connect_loop (ws_env E) (unat (ck_max_reconnect_attempts (cb_config ?s))) 0 1 ?s = (Inr b, s1)" "attempted b ?s s1"
    "cb_dials s1 = cb_dials s @ map (\<lambda>k. cb_now s + word_of_nat (delay k)) [0..<n]"
    using connect_loop_run[of 1 0 "ws_env E" "unat (ck_max_reconnect_attempts (cb_config ?s))" ?s] by (auto simp: dial_times_def)
  let ?s1 = "if b then s1 else s1\<lparr>cb_connection_state := state_as_u8 Disconnected\<rparr>"
  have "ws_monitor_round E s = (Inr (), ?s1)"
    using assms c(1) by (simp add: ws_monitor_round_def ws_connect_with_retry_def connect_with_retry_def set_connection_state_def
        sbind_def sget_def smod_def sret_def del: connect_loop.simps)
  moreover have "connection_state ?s1 = (if b then Connected else Disconnected)"
    using c(2) by (simp add: attempted_def) (simp add: connection_state_def)
  moreover have "map_option (\<lambda>c. (cl_id c, cl_titles c)) (cb_client s) \<in> {None, map_option (\<lambda>c. (cl_id c, cl_titles c)) (cb_client ?s1)}"
    using c(2) by (cases "cb_client s") (auto simp: attempted_def)
  moreover have "cb_dials ?s1 = cb_dials s @ map (\<lambda>k. cb_now s + word_of_nat (delay k)) [0..<n]" using c(3) by simp
  ultimately show ?thesis by blast
qed

section \<open>Properties\<close>

text \<open>
  C17: The chunks of the streams of a QUIC connection may arrive in any order: on each stream the server
  handles exactly the frames sent on it, in order and once each, and ends with empty buffers. The order of frames
  of different streams is some interleaving.
\<close>

theorem quic_streams_interleave:
  assumes "\<forall>s \<in> dom (qc_streams q). qc_streams q s = Some [] \<and> (\<forall>f \<in> set (fs s). servable f \<and> length (content f) \<le> mx)
      \<and> concat (chunks_of s es) = stream (fs s)"
    and "\<forall>e \<in> set es. fst e \<in> dom (qc_streams q)"
  shows "\<exists>gs q'. quic_loop E dbg c mx (map (\<lambda>(s, ch). OnStream s (DataIn ch)) es) q w
      = (Inr (Some q'), fold (serve E c) (map snd gs) w)
    \<and> (\<forall>s \<in> dom (qc_streams q). chunks_of s gs = fs s \<and> qc_streams q' s = Some []) \<and> dom (qc_streams q') = dom (qc_streams q)
    \<and> fst ` set gs \<subseteq> dom (qc_streams q)"
  using assms by (intro streams.mux_streams) simp_all

text \<open>
  C24: A WebSocket connection is served as the TCP connection with the same bytes, whatever text, pong and raw frames lie
  between the binary messages, as long as no ping arrives; and the client reads one as it reads the TCP connection with
  the same bytes, pings included.
\<close>

theorem ws_served_as_tcp:
  assumes "\<forall>p. WsRead (Next (WsPing p)) \<notin> set es"
  shows "ws_drive_loop E dbg c mx es buf = drive_loop E dbg c mx (concat (map ws_drive_events es)) buf
    \<and> ws_receive_loop E' dbg mx es' buf = receive_loop E' dbg mx (concat (map ws_read_events es')) buf"
  by (simp add: ws_drive_as_tcp[OF assms] ws_receive_as_tcp)

text \<open>
  C33: The server answers a WebSocket ping by sending its payload as a binary message, which is the byte
  stream of the frames. When the send succeeds and the first four bytes of the payload name a length of at least a head,
  the client takes the payload for the start of a frame: as long as the payload and the frames after it
  are fewer bytes than that length and fit the client's buffer limit, it handles none of the frames that
  the server sends and keeps all their bytes in its buffer.
\<close>

theorem ws_ping_breaks_stream:
  assumes "e_send E (w_tick w) (cl_sender (w_heap w c)) p"
    and "4 \<le> length p" "REX_HEAD_LEN + TITLE_LEN_SIZE \<le> unat (u32_of_le p)"
    and "length (p @ stream fs) < unat (u32_of_le p)" "length (p @ stream fs) \<le> mx'"
  shows "\<exists>w'. ws_drive_loop E dbg c mx [WsRead (Next (WsPing p))] buf w = (Inr (Some buf), w')
      \<and> w_sent w' = w_sent w @ [(cl_sender (w_heap w c), p)]
      \<and> ws_receive_loop E' dbg mx' (map (\<lambda>b. WsIn (Next (ws_sent b))) (p # map content fs)) [] s
      = (Inr (Some (p @ stream fs)), s)"
proof -
  have sent: "\<exists>w'. ws_drive_loop E dbg c mx [WsRead (Next (WsPing p))] buf w = (Inr (Some buf), w')
      \<and> w_sent w' = w_sent w @ [(cl_sender (w_heap w c), p)]"
    using assms(1) by (simp add: ws_poll_def send_buf_def srun_def sbind_def sret_def Let_def)
  have evs: "concat (map ws_read_events (map (\<lambda>b. WsIn (Next (ws_sent b))) bs)) = map Arrived bs" for bs
    by (induction bs) (simp_all add: ws_sent_def)
  have "receive_loop E' dbg mx' (map Arrived (p # map content fs)) [] s
      = receive_loop E' dbg mx' (map Arrived (map content fs)) (p @ []) s"
    using waits_for_length[OF assms(2,3), of "[]" dbg] assms(4,5)
    by (simp add: parse_buffer_def sbind_def slift_def sret_def)
  then have "ws_receive_loop E' dbg mx' (map (\<lambda>b. WsIn (Next (ws_sent b))) (p # map content fs)) [] s
      = (Inr (Some (p @ stream fs)), s)"
    using receive_loop_waits[OF assms(2,3), of "[]" "map content fs" mx' E' dbg s] assms(4,5)
    unfolding ws_receive_as_tcp evs by simp
  with sent show ?thesis by blast
qed

text \<open>
  C29: Each server runs at most \<open>max_concurrent_handlers\<close> connections, and nobody is refused: at the
  limit the accept loop of the TCP and WebSocket servers waits with the connection it has
  accepted, and until a running connection ends it neither accepts another one nor sees the shutdown signal.
\<close>

theorem connections_bounded:
  assumes "listen \<in> {tcp_listen, ws_listen, quic_listen}"
    and "listen_run listen es (mark_ready (server_base_new mx)) = Some l"
  shows "length (ls_running l) \<le> mx \<and> (ls_permits l = 0 \<longleftrightarrow> length (ls_running l) = mx)
    \<and> (\<forall>c e l'. listen \<noteq> quic_listen \<and> ls_loop l = WaitingPermit c \<and> length (ls_running l) = mx \<and> listen e l = Some l'
        \<longrightarrow> e = SignalSent \<or> (\<exists>c' \<in> set (ls_running l). e = ConnectionEnded c'))"
proof -
  have s: "length (ls_running l) + ls_permits l = mx"
    using assms tcp.run_permits[of es _ l] ws.run_permits[of es _ l] quic.run_permits[of es _ l]
    by (auto simp: server_base_new_def mark_ready_def)
  have "e = SignalSent \<or> (\<exists>c' \<in> set (ls_running l). e = ConnectionEnded c')"
    if "listen \<noteq> quic_listen" "ls_loop l = WaitingPermit c" "length (ls_running l) = mx" "listen e l = Some l'" for c e l'
    using that assms(1) s tcp.held[of e l l' c] ws.held[of e l l' c] by auto
  with s show ?thesis by auto
qed

text \<open>
  C32: One failure of \<open>accept\<close> ends the service of a TCP or WebSocket server: \<open>select!\<close> disables the branch whose pattern did
  not match and waits for the shutdown signal only. Whatever happens afterwards, no connection is
  accepted any more, and only connections that were running still run.
\<close>

theorem accept_error_ends_service:
  assumes "listen \<in> {tcp_listen, ws_listen}"
    and "listen AcceptError l = Some l1" "listen_run listen es l1 = Some l2"
  shows "(\<forall>c. Incoming c \<notin> set es) \<and> set (ls_running l2) \<subseteq> set (ls_running l) \<and> ls_loop l2 \<in> {AcceptOff, LoopEnded}"
proof -
  have l1: "l1 = l\<lparr>ls_loop := AcceptOff\<rparr>"
    using assms(1,2) by (auto simp: tcp_listen_def ws_listen_def split: if_splits)
  show ?thesis using assms(1,3) tcp.run_deaf[of es l1 l2] ws.run_deaf[of es l1 l2] by (auto simp: l1)
qed

section \<open>Witnesses\<close>

theorem quic_streams_interleave_witness:
  "\<exists>gs q'. quic_loop env0 True 0 100 (map (\<lambda>(s, ch). OnStream s (DataIn ch))
        [(2, take 5 (content check0)), (6, content check0), (2, drop 5 (content check0))])
        \<lparr>qc_accepting = True, qc_streams = [2 \<mapsto> [], 6 \<mapsto> []]\<rparr> world0
      = (Inr (Some q'), fold (serve env0 0) (map snd gs) world0)
    \<and> chunks_of 2 gs = [check0] \<and> chunks_of 6 gs = [check0]"
proof -
  let ?q = "\<lparr>qc_accepting = True, qc_streams = [2 \<mapsto> [], 6 \<mapsto> []]\<rparr>"
    and ?es = "[(2, take 5 (content check0)), (6, content check0), (2, drop 5 (content check0))]"
  have d: "dom (qc_streams ?q) = {2, 6}" by auto
  have h: "\<forall>s \<in> dom (qc_streams ?q). qc_streams ?q s = Some [] \<and> (\<forall>f \<in> set [check0]. servable f \<and> length (content f) \<le> 100)
      \<and> concat (chunks_of s ?es) = stream [check0]" "\<forall>e \<in> set ?es. fst e \<in> dom (qc_streams ?q)"
    unfolding d by (simp_all add: check0_ok)
  from quic_streams_interleave[OF h, of env0 True 0 world0] show ?thesis
    unfolding d by (elim exE conjE) (intro exI conjI, assumption, simp_all only: ball_simps)
qed

theorem ws_served_as_tcp_witness:
  "ws_drive_loop env0 True 0 100 [WsRead (Next (WsText [104])), WsRead (Next (WsBinary (content check0)))] [] world0
    = drive_loop env0 True 0 100 [DataIn (content check0)] [] world0"
proof -
  have "\<forall>p. WsRead (Next (WsPing p)) \<notin> set [WsRead (Next (WsText [104])), WsRead (Next (WsBinary (content check0)))]" by simp
  from ws_served_as_tcp[OF this, of env0 True 0 100 "[]"] show ?thesis by (simp del: drive_loop.simps ws_drive_loop.simps)
qed

theorem ws_ping_breaks_stream_witness:
  "ws_receive_loop cenv0 True 4096 (map (\<lambda>b. WsIn (Next (ws_sent b))) [[112, 105, 110, 103], content check0]) [] subscriber0
    = (Inr (Some ([112, 105, 110, 103] @ content check0)), subscriber0)"
proof -
  have u: "unat (u32_of_le [112, 105, 110, 103]) = 1735289200" by (simp add: u32_of_le_def)
  have "e_send env0 (w_tick world0) (cl_sender (w_heap world0 0)) [112, 105, 110, 103]" by (simp add: env0_def)
  from ws_ping_breaks_stream[OF this, of "[check0]" 4096 True 4096 "[]" cenv0 subscriber0] show ?thesis
    by (auto simp: u wire_consts check0_ok simp del: ws_drive_loop.simps ws_receive_loop.simps)
qed

theorem connections_bounded_witness:
  "length (ls_running (the (listen_run tcp_listen [Incoming 1, PermitGranted 1, Incoming 2] (mark_ready (server_base_new 1))))) \<le> 1"
proof -
  have "listen_run tcp_listen [Incoming 1, PermitGranted 1, Incoming 2] (mark_ready (server_base_new 1)) \<noteq> None"
    by (simp add: tcp_listen_def acquire_permit_def server_base_new_def mark_ready_def)
  then obtain l where l: "listen_run tcp_listen [Incoming 1, PermitGranted 1, Incoming 2] (mark_ready (server_base_new 1)) = Some l"
    by blast
  from connections_bounded[OF _ l] show ?thesis unfolding l by simp
qed

theorem accept_error_ends_service_witness:
  "\<exists>l1 l2. tcp_listen AcceptError (mark_ready (server_base_new 4)) = Some l1 \<and> listen_run tcp_listen [SignalSent, SignalSeen] l1 = Some l2
    \<and> ls_running l2 = []"
proof -
  let ?l = "mark_ready (server_base_new 4)"
  let ?l1 = "?l\<lparr>ls_loop := AcceptOff\<rparr>" and ?l2 = "?l\<lparr>ls_loop := LoopEnded, ls_shutdown := True\<rparr>"
  have h: "tcp_listen AcceptError ?l = Some ?l1" "listen_run tcp_listen [SignalSent, SignalSeen] ?l1 = Some ?l2"
    by (simp_all add: tcp_listen_def listen_rest_def server_base_new_def mark_ready_def)
  from accept_error_ends_service[OF _ h] h show ?thesis by (auto simp: server_base_new_def mark_ready_def)
qed

end
