(* ===== verification/Bindings.thy ===== *)
theory Bindings
  imports Transports NetAddr "HOL-Library.Sublist"
begin

text \<open>
  What is built on the client library: the Python binding (\<^verbatim>\<open>bindings/rex4p/src\<close>) with its callback thread, the
  Java binding (\<^verbatim>\<open>bindings/rex4j/src\<close>) with its native handles, and the receiver and the load generator
  of the terminal program (\<^verbatim>\<open>crates/rex-cli/src/main.rs\<close>). What belongs to the two foreign languages, such as reading fields
  of objects and raising exceptions, is given by values and results.
\<close>

section \<open>Opening a client\<close>

text \<open>
  \<open>QuicClient::connect\<close> on the state shared by all transports. \<open>ce_connect\<close> is the handshake with the
  opening of the outgoing stream after it: an error of either ends the attempt. The connection and the
  endpoint it keeps for closing, and the receiving task it starts, are not in this state.
\<close>

definition quic_connect :: "client_env \<Rightarrow> (client_base, bool) srv" where
  "quic_connect E =
     sbind (set_connection_state Connecting) (\<lambda>_.
     sbind (srun (\<lambda>s. (ce_connect E (cb_tick s), s\<lparr>cb_tick := cb_tick s + 1, cb_dials := cb_dials s @ [cb_now s]\<rparr>))) (\<lambda>conn.
     case conn of
       None \<Rightarrow> sret False
     | Some (sender, local_addr, uuid) \<Rightarrow>
         sbind (smod (\<lambda>s. case cb_client s of
             Some existing_client \<Rightarrow> s\<lparr>cb_client := Some (set_sender sender existing_client)\<rparr>
           | None \<Rightarrow> s\<lparr>cb_client := Some (client_new (cb_now s) uuid local_addr (ck_title (cb_config s)) sender)\<rparr>)) (\<lambda>_.
         sbind (cb_login E) (\<lambda>sent.
         if \<not> sent then sret False
         else sbind (set_connection_state Connected) (\<lambda>_. sret True)))))"

text \<open>
  The retry loop of \<open>QuicClient\<close> is that of the TCP client around this \<open>connect\<close>, which does the same to
  the shared state (\<open>quic_connect_eq\<close>).
\<close>

definition quic_open :: "client_env \<Rightarrow> client_config \<Rightarrow> u64 \<Rightarrow> (fault + bool) \<times> client_base" where
  "quic_open E config now = connect_with_retry E (base_new config now)"

definition open_client :: "client_env \<Rightarrow> client_config \<Rightarrow> u64 \<Rightarrow> (fault + bool) \<times> client_base" where
  "open_client E config now = (case ck_protocol config of
       Tcp \<Rightarrow> client_open E config now
     | Quic \<Rightarrow> quic_open E config now
     | WebSocket \<Rightarrow> ws_open E config now)"

section \<open>The Python binding: values\<close>

datatype py_command = PyTitle | PyTitleReturn | PyGroup | PyGroupReturn | PyCast | PyCastReturn | PyLogin | PyLoginReturn
  | PyCheck | PyCheckReturn | PyRegTitle | PyRegTitleReturn | PyDelTitle | PyDelTitleReturn | PyAck | PyAckReturn

fun py_command_into :: "py_command \<Rightarrow> rex_command" where
  "py_command_into PyTitle = Title"
| "py_command_into PyTitleReturn = TitleReturn"
| "py_command_into PyGroup = Group"
| "py_command_into PyGroupReturn = GroupReturn"
| "py_command_into PyCast = Cast"
| "py_command_into PyCastReturn = CastReturn"
| "py_command_into PyLogin = Login"
| "py_command_into PyLoginReturn = LoginReturn"
| "py_command_into PyCheck = Check"
| "py_command_into PyCheckReturn = CheckReturn"
| "py_command_into PyRegTitle = RegTitle"
| "py_command_into PyRegTitleReturn = RegTitleReturn"
| "py_command_into PyDelTitle = DelTitle"
| "py_command_into PyDelTitleReturn = DelTitleReturn"
| "py_command_into PyAck = Ack"
| "py_command_into PyAckReturn = AckReturn"

fun py_command_from :: "rex_command \<Rightarrow> py_command" where
  "py_command_from Title = PyTitle"
| "py_command_from TitleReturn = PyTitleReturn"
| "py_command_from Group = PyGroup"
| "py_command_from GroupReturn = PyGroupReturn"
| "py_command_from Cast = PyCast"
| "py_command_from CastReturn = PyCastReturn"
| "py_command_from Login = PyLogin"
| "py_command_from LoginReturn = PyLoginReturn"
| "py_command_from Check = PyCheck"
| "py_command_from CheckReturn = PyCheckReturn"
| "py_command_from RegTitle = PyRegTitle"
| "py_command_from RegTitleReturn = PyRegTitleReturn"
| "py_command_from DelTitle = PyDelTitle"
| "py_command_from DelTitleReturn = PyDelTitleReturn"
| "py_command_from Ack = PyAck"
| "py_command_from AckReturn = PyAckReturn"

datatype py_ret_code = PySuccess | PyError | PyNoTarget | PyAckTimeout | PyAckFailed

fun py_retcode_from :: "ret_code \<Rightarrow> py_ret_code" where
  "py_retcode_from Success = PySuccess"
| "py_retcode_from Error = PyError"
| "py_retcode_from NoTarget = PyNoTarget"
| "py_retcode_from AckTimeout = PyAckTimeout"
| "py_retcode_from AckFailed = PyAckFailed"

datatype py_conn_state = PyDisconnected | PyConnecting | PyConnected | PyReconnecting

fun py_state_from :: "conn_state \<Rightarrow> py_conn_state" where
  "py_state_from Disconnected = PyDisconnected"
| "py_state_from Connecting = PyConnecting"
| "py_state_from Connected = PyConnected"
| "py_state_from Reconnecting = PyReconnecting"

definition py_data_new :: "py_command \<Rightarrow> string \<Rightarrow> bytes \<Rightarrow> rex_data" where
  "py_data_new command title data = rd_new (py_command_into command) title data"

definition py_data_from_string :: "py_command \<Rightarrow> string \<Rightarrow> string \<Rightarrow> rex_data" where
  "py_data_from_string command title text = rd_new (py_command_into command) title (str_bytes text)"

definition py_data_command :: "rex_data \<Rightarrow> fault + py_command" where
  "py_data_command d = rbind (rd_command d) (\<lambda>c. Inr (py_command_from c))"

definition py_data_retcode :: "rex_data \<Rightarrow> fault + py_ret_code" where
  "py_data_retcode d = rbind (rd_retcode d) (\<lambda>c. Inr (py_retcode_from c))"

record py_config =
  py_protocol :: protocol
  py_server_addr :: string
  py_title :: string
  py_handler_set :: bool
  py_idle_timeout :: u64
  py_pong_wait :: u64
  py_max_reconnect_attempts :: u32
  py_max_buffer_size :: u64

definition py_config_new :: "string \<Rightarrow> protocol \<Rightarrow> string \<Rightarrow> py_config" where
  "py_config_new server_addr protocol title = \<lparr>py_protocol = protocol, py_server_addr = server_addr, py_title = title,
     py_handler_set = True, py_idle_timeout = 10, py_pong_wait = 5, py_max_reconnect_attempts = 5,
     py_max_buffer_size = 8 * 1024 * 1024\<rparr>"

definition py_protocol_new :: "string \<Rightarrow> string + protocol" where
  "py_protocol_new p = (case protocol_from p of None \<Rightarrow> Inl ''Invalid protocol'' | Some x \<Rightarrow> Inr x)"

definition with_idle_timeout :: "u64 \<Rightarrow> py_config \<Rightarrow> py_config" where
  "with_idle_timeout t c = c\<lparr>py_idle_timeout := t\<rparr>"

definition with_pong_wait :: "u64 \<Rightarrow> py_config \<Rightarrow> py_config" where
  "with_pong_wait t c = c\<lparr>py_pong_wait := t\<rparr>"

definition with_max_reconnect_attempts :: "u32 \<Rightarrow> py_config \<Rightarrow> py_config" where
  "with_max_reconnect_attempts n c = c\<lparr>py_max_reconnect_attempts := n\<rparr>"

definition with_max_buffer_size :: "u64 \<Rightarrow> py_config \<Rightarrow> py_config" where
  "with_max_buffer_size n c = c\<lparr>py_max_buffer_size := n\<rparr>"

definition into_rust_config :: "py_config \<Rightarrow> string + client_config" where
  "into_rust_config c = (case addr_parse (py_server_addr c) of
       None \<Rightarrow> Inl ''Invalid server address''
     | Some a \<Rightarrow>
         if \<not> py_handler_set c then Inl ''Handler not set''
         else Inr ((client_config_new (py_protocol c) a (py_title c))\<lparr>ck_idle_timeout := py_idle_timeout c, ck_pong_wait := py_pong_wait c,
           ck_max_reconnect_attempts := py_max_reconnect_attempts c, ck_max_buffer_size := py_max_buffer_size c\<rparr>))"

section \<open>The Python binding: the callback thread\<close>

text \<open>
  Messages go through a bounded channel to a thread that calls the application. The thread is either about to test the
  flag \<open>running\<close>, or in \<open>recv_timeout\<close>, or gone. \<open>ph_calls\<close> are the calls made to the application.
\<close>

datatype py_message = LoginMsg rex_data | DataMsg rex_data | ShutdownMsg

datatype py_thread = AtTest | AtRecv | Gone

record py_handler =
  ph_queue :: "py_message list"
  ph_running :: bool
  ph_thread :: py_thread
  ph_calls :: "py_message list"

definition CHANNEL_BOUND :: nat where "CHANNEL_BOUND = 10000"

definition py_handler_new :: py_handler where
  "py_handler_new = \<lparr>ph_queue = [], ph_running = True, ph_thread = AtTest, ph_calls = []\<rparr>"

text \<open>\<open>tx.send\<close>: \<open>None\<close> while the channel is full; an error, which is ignored, once the thread is gone.\<close>

definition py_enqueue :: "py_message \<Rightarrow> py_handler \<Rightarrow> py_handler option" where
  "py_enqueue m h = (if ph_thread h = Gone then Some h
     else if length (ph_queue h) < CHANNEL_BOUND then Some (h\<lparr>ph_queue := ph_queue h @ [m]\<rparr>) else None)"

definition py_thread_step :: "py_handler \<Rightarrow> py_handler option" where
  "py_thread_step h = (case ph_thread h of
       AtTest \<Rightarrow> Some (h\<lparr>ph_thread := if ph_running h then AtRecv else Gone\<rparr>)
     | AtRecv \<Rightarrow> (case ph_queue h of
         [] \<Rightarrow> Some (h\<lparr>ph_thread := AtTest\<rparr>)
       | ShutdownMsg # q \<Rightarrow> Some (h\<lparr>ph_queue := q, ph_thread := Gone\<rparr>)
       | m # q \<Rightarrow> Some (h\<lparr>ph_queue := q, ph_calls := ph_calls h @ [m], ph_thread := AtTest\<rparr>))
     | Gone \<Rightarrow> None)"

text \<open>The two halves of \<open>shutdown\<close> are \<open>FlagCleared\<close> and the enqueuing of \<open>ShutdownMsg\<close>.\<close>

datatype py_event = Enqueued py_message | ThreadMoved | FlagCleared

definition py_handler_step :: "py_event \<Rightarrow> py_handler \<Rightarrow> py_handler option" where
  "py_handler_step e h = (case e of
       Enqueued m \<Rightarrow> py_enqueue m h
     | ThreadMoved \<Rightarrow> py_thread_step h
     | FlagCleared \<Rightarrow> Some (h\<lparr>ph_running := False\<rparr>))"

primrec py_handler_run :: "py_event list \<Rightarrow> py_handler \<Rightarrow> py_handler option" where
  "py_handler_run [] h = Some h"
| "py_handler_run (e # es) h = (case py_handler_step e h of None \<Rightarrow> None | Some h' \<Rightarrow> py_handler_run es h')"

section \<open>The Python binding: the client\<close>

record py_client =
  pc_client :: "client_base option"
  pc_handler :: "py_handler option"

type_synonym py_result = "(py_client, string + unit) srv"

text \<open>\<open>h\<close> is the handler that \<open>into_rust_config\<close> made, as it is when \<open>open_client\<close> has returned.\<close>

definition py_connect :: "client_env \<Rightarrow> py_config \<Rightarrow> u64 \<Rightarrow> py_handler \<Rightarrow> py_result" where
  "py_connect E config now h p = (case into_rust_config config of
       Inl e \<Rightarrow> (Inr (Inl e), p)
     | Inr c \<Rightarrow> (case open_client E c now of
         (Inl f, _) \<Rightarrow> (Inl f, p)
       | (Inr False, _) \<Rightarrow> (Inr (Inl ''Connection failed''), p)
       | (Inr True, s) \<Rightarrow> (Inr (Inr ()), p\<lparr>pc_client := Some s, pc_handler := Some h\<rparr>)))"

definition py_send :: "client_env \<Rightarrow> rex_data \<Rightarrow> py_result" where
  "py_send E d p = (case pc_client p of
       None \<Rightarrow> (Inr (Inl ''Client not connected''), p)
     | Some s \<Rightarrow> (case send_data E d s of
         (Inl f, s') \<Rightarrow> (Inl f, p\<lparr>pc_client := Some s'\<rparr>)
       | (Inr (sent, _), s') \<Rightarrow> (Inr (if sent then Inr () else Inl ''Send failed''), p\<lparr>pc_client := Some s'\<rparr>)))"

definition py_send_text :: "client_env \<Rightarrow> py_command \<Rightarrow> string \<Rightarrow> string \<Rightarrow> py_result" where
  "py_send_text E command text title = py_send E (py_data_from_string command title text)"

definition py_get_state :: "py_client \<Rightarrow> string + py_conn_state" where
  "py_get_state p = (case pc_client p of
       None \<Rightarrow> Inl ''Client not initialized''
     | Some s \<Rightarrow> Inr (py_state_from (connection_state s)))"

definition py_is_connected :: "py_client \<Rightarrow> bool" where
  "py_is_connected p = (case pc_client p of None \<Rightarrow> False | Some s \<Rightarrow> connection_state s = Connected)"

text \<open>
  \<open>close\<close> first stops the handler: it clears the flag and enqueues \<open>ShutdownMsg\<close>, and waits (\<open>None\<close>) while
  the channel is full. Then it closes the client, whichever transport it has, and drops both. The callback
  thread and the client's tasks still hold them, so the result shows what became of them.
\<close>

definition py_shutdown :: "py_handler \<Rightarrow> py_handler option" where
  "py_shutdown h = py_enqueue ShutdownMsg (h\<lparr>ph_running := False\<rparr>)"

definition py_close :: "py_client \<Rightarrow> (py_client \<times> py_handler option \<times> client_base option) option" where
  "py_close p = (case (case pc_handler p of None \<Rightarrow> Some None | Some h \<Rightarrow> map_option Some (py_shutdown h)) of
       None \<Rightarrow> None
     | Some handler \<Rightarrow> Some (p\<lparr>pc_handler := None, pc_client := None\<rparr>, handler,
         map_option (\<lambda>s. snd (tcp_close s)) (pc_client p)))"

section \<open>The Java binding\<close>

text \<open>
  A native handle is the address of a box with the client, as a \<open>jlong\<close>. \<open>boxes\<close> are the boxes alive; a call with
  the address of a box that is gone is \<open>Dangling\<close>.
\<close>

datatype 'a native = Done 'a | Exception string | Panic fault | Dangling

type_synonym boxes = "u64 \<Rightarrow> client_base option"

record java_config =
  jc_protocol :: "32 word"
  jc_host :: string
  jc_port :: "32 word"
  jc_title :: string
  jc_idle_timeout :: u64
  jc_pong_wait :: u64
  jc_max_reconnect_attempts :: "32 word"
  jc_max_buffer_size :: "32 word"

definition jint_show :: "32 word \<Rightarrow> string" where
  "jint_show i = (if sint i < 0 then CHR ''-'' # decimal (nat (- sint i)) else decimal (nat (sint i)))"

definition jni_protocol :: "32 word \<Rightarrow> protocol" where
  "jni_protocol v = (if v = 0 then Tcp else if v = 1 then Quic else if v = 2 then WebSocket else Tcp)"

text \<open>The casts keep the bits: \<open>i32 as usize\<close> extends the sign.\<close>

definition jni_config :: "java_config \<Rightarrow> string + client_config" where
  "jni_config c = (case addr_parse (jc_host c @ '':'' @ jint_show (jc_port c)) of
       None \<Rightarrow> Inl ''Invalid server address''
     | Some a \<Rightarrow> Inr ((client_config_new (jni_protocol (jc_protocol c)) a (jc_title c))\<lparr>ck_idle_timeout := jc_idle_timeout c,
         ck_pong_wait := jc_pong_wait c, ck_max_reconnect_attempts := jc_max_reconnect_attempts c,
         ck_max_buffer_size := scast (jc_max_buffer_size c)\<rparr>))"

text \<open>
  \<open>init\<close>, with the address \<open>a\<close> of the new box; 0 says that an exception was thrown. The object it
  allocates for the callbacks is \<open>callback_object\<close> below.
\<close>

definition jni_init :: "client_env \<Rightarrow> java_config \<Rightarrow> u64 \<Rightarrow> u64 \<Rightarrow> boxes \<Rightarrow> u64 native \<times> boxes" where
  "jni_init E config now a bs = (case jni_config config of
       Inl e \<Rightarrow> (Exception e, bs)
     | Inr c \<Rightarrow> (case open_client E c now of
         (Inl f, _) \<Rightarrow> (Panic f, bs)
       | (Inr False, _) \<Rightarrow> (Exception ''Init failed'', bs)
       | (Inr True, s) \<Rightarrow> (Done a, bs(a \<mapsto> s))))"

definition jni_send_frame :: "client_env \<Rightarrow> string \<Rightarrow> u64 \<Rightarrow> rex_data \<Rightarrow> boxes \<Rightarrow> unit native \<times> boxes" where
  "jni_send_frame E failure h d bs =
     (if h = 0 then (Exception ''Invalid client handle'', bs)
      else case bs h of
        None \<Rightarrow> (Dangling, bs)
      | Some s \<Rightarrow> (case send_data E d s of
          (Inl f, s') \<Rightarrow> (Panic f, bs(h \<mapsto> s'))
        | (Inr (sent, _), s') \<Rightarrow> (if sent then Done () else Exception failure, bs(h \<mapsto> s'))))"

text \<open>Fields of the Java object that may be null are options.\<close>

definition jni_send :: "client_env \<Rightarrow> u64 \<Rightarrow> 32 word option \<Rightarrow> string option \<Rightarrow> bytes option \<Rightarrow> boxes \<Rightarrow> unit native \<times> boxes" where
  "jni_send E h command title data = jni_send_frame E ''Send failed'' h
     (rd_new (command_from_u32 (case command of None \<Rightarrow> 0 | Some c \<Rightarrow> c)) (case title of None \<Rightarrow> [] | Some t \<Rightarrow> t)
       (case data of None \<Rightarrow> [] | Some d \<Rightarrow> d))"

definition jni_register_title :: "client_env \<Rightarrow> u64 \<Rightarrow> string \<Rightarrow> boxes \<Rightarrow> unit native \<times> boxes" where
  "jni_register_title E h title = jni_send_frame E ''Register title failed'' h (rd_new RegTitle title [])"

definition jni_delete_title :: "client_env \<Rightarrow> u64 \<Rightarrow> string \<Rightarrow> boxes \<Rightarrow> unit native \<times> boxes" where
  "jni_delete_title E h title = jni_send_frame E ''Delete title failed'' h (rd_new DelTitle title [])"

definition jni_connection_state :: "u64 \<Rightarrow> boxes \<Rightarrow> 32 word native" where
  "jni_connection_state h bs = (if h = 0 then Done 0 else case bs h of
       None \<Rightarrow> Dangling
     | Some s \<Rightarrow> Done (ucast (state_as_u8 (connection_state s))))"

definition jni_close :: "u64 \<Rightarrow> boxes \<Rightarrow> unit native \<times> boxes" where
  "jni_close h bs = (if h = 0 then (Done (), bs) else case bs h of
       None \<Rightarrow> (Dangling, bs)
     | Some s \<Rightarrow> (Done (), bs(h := None)))"

definition jni_client_id :: "u64 \<Rightarrow> boxes \<Rightarrow> bytes native" where
  "jni_client_id h bs = Done (replicate 16 0)"

text \<open>
  The class \<open>RexClient\<close>: the handle, and whether \<open>close\<close> was called, \<open>None\<close> for a null field. Two objects
  hold the handle of one box. The program's own object gets it from the constructor. \<open>init\<close> allocates
  another one without running a constructor, so its field \<open>closed\<close> is null, stores the handle in it, and
  hands it to every callback.
\<close>

record java_client =
  jv_client :: u64
  jv_closed :: "bool option"

definition java_object :: "u64 \<Rightarrow> java_client" where
  "java_object client_handle = \<lparr>jv_client = client_handle, jv_closed = Some False\<rparr>"

definition callback_object :: "u64 \<Rightarrow> java_client" where
  "callback_object client_ptr = \<lparr>jv_client = client_ptr, jv_closed = None\<rparr>"

datatype java_call = JSend "32 word option" "string option" "bytes option" | JRegisterTitle string | JDeleteTitle string
  | JConnectionState | JClientId | JClose

text \<open>The exception \<open>ensureOpen\<close> throws, if any.\<close>

definition ensure_open :: "java_client \<Rightarrow> string option" where
  "ensure_open j = (case jv_closed j of
       None \<Rightarrow> Some ''NullPointerException''
     | Some closed \<Rightarrow> if closed \<or> jv_client j = 0 then Some ''Client is closed'' else None)"

fun native_unit :: "'a native \<Rightarrow> unit native" where
  "native_unit (Done _) = Done ()"
| "native_unit (Exception e) = Exception e"
| "native_unit (Panic f) = Panic f"
| "native_unit Dangling = Dangling"

definition java_run :: "client_env \<Rightarrow> java_call \<Rightarrow> java_client \<times> boxes \<Rightarrow> unit native \<times> java_client \<times> boxes" where
  "java_run E call = (\<lambda>(j, bs).
     let guarded = (\<lambda>f. case ensure_open j of
       None \<Rightarrow> (case f (jv_client j) bs of (r, bs') \<Rightarrow> (r, j, bs'))
     | Some e \<Rightarrow> (Exception e, j, bs)) in
     case call of
       JSend c t d \<Rightarrow> guarded (\<lambda>h. jni_send E h c t d)
     | JRegisterTitle t \<Rightarrow> guarded (\<lambda>h. jni_register_title E h t)
     | JDeleteTitle t \<Rightarrow> guarded (\<lambda>h. jni_delete_title E h t)
     | JConnectionState \<Rightarrow> if jv_client j = 0 then (Done (), j, bs) else (native_unit (jni_connection_state (jv_client j) bs), j, bs)
     | JClientId \<Rightarrow> guarded (\<lambda>h bs. (native_unit (jni_client_id h bs), bs))
     | JClose \<Rightarrow>
         (case jv_closed j of
           None \<Rightarrow> (Exception ''NullPointerException'', j, bs)
         | Some True \<Rightarrow> (Done (), j, bs)
         | Some False \<Rightarrow>
             if jv_client j \<noteq> 0 then (case jni_close (jv_client j) bs of (r, bs') \<Rightarrow> (r, j\<lparr>jv_closed := Some True, jv_client := 0\<rparr>, bs'))
             else (Done (), j\<lparr>jv_closed := Some True\<rparr>, bs)))"

primrec java_runs :: "client_env \<Rightarrow> java_call list \<Rightarrow> java_client \<times> boxes \<Rightarrow> unit native list \<times> java_client \<times> boxes" where
  "java_runs E [] st = ([], st)"
| "java_runs E (c # cs) st = (case java_run E c st of (r, st') \<Rightarrow> (case java_runs E cs st' of (rs, st'') \<Rightarrow> (r # rs, st'')))"

section \<open>The load generator and the receiver\<close>

definition TS_LEN :: nat where "TS_LEN = 16"

definition u128_be :: "u128 \<Rightarrow> bytes" where
  "u128_be w = rev (u128_le w)"

definition timestamp :: "bytes \<Rightarrow> u128 option" where
  "timestamp data = (if length data < TS_LEN then None else Some (u128_of_le (rev (take TS_LEN data))))"

definition bench_command :: "string \<Rightarrow> rex_command option" where
  "bench_command typ = (if typ = ''title'' then Some Title else if typ = ''group'' then Some Group
     else if typ = ''cast'' then Some Cast else None)"

text \<open>\<open>data_mut()[0..TS_LEN].copy_from_slice(..)\<close>\<close>

definition rd_stamp :: "u128 \<Rightarrow> rex_data \<Rightarrow> fault + rex_data" where
  "rd_stamp now d = rbind (rd_data_offset d) (\<lambda>offset.
     if length (content d) < offset + TS_LEN then Inl IndexPanic
     else Inr (d\<lparr>content := write_at offset (u128_be now) (content d)\<rparr>))"

text \<open>One turn of the loop up to the send: the counter is an \<open>i32\<close>, whose overflow panics in a debug build.\<close>

definition bench_turn :: "bool \<Rightarrow> bool \<Rightarrow> u128 \<Rightarrow> 32 word \<times> rex_data \<Rightarrow> fault + 32 word \<times> rex_data" where
  "bench_turn dbg bench now = (\<lambda>(cnt, data).
     if dbg \<and> sint cnt = 2 ^ 31 - 1 then Inl AssertPanic
     else rbind (if bench then rd_stamp now data else rd_set_data (str_bytes (jint_show (cnt + 1))) data) (\<lambda>data'. Inr (cnt + 1, data')))"

text \<open>\<open>RcvClientHandler::handle\<close>: the latency it records, when it measures.\<close>

definition recv_handle :: "bool \<Rightarrow> u128 \<Rightarrow> rex_data \<Rightarrow> fault + u64 option" where
  "recv_handle bench now d =
     (if bench then
        rbind (rd_command d) (\<lambda>command.
        if command = Title \<or> command = Group \<or> command = Cast then
          rbind (rd_data d) (\<lambda>data. Inr (map_option (\<lambda>ts. ucast (sat_sub now ts)) (timestamp data)))
        else Inr None)
      else Inr None)"

section \<open>Lemmas\<close>

lemma quic_connect_eq: "quic_connect E = connect E"
proof -
  have A: "(\<lambda>s. case cb_client s of
      Some existing_client \<Rightarrow> s\<lparr>cb_client := Some (set_sender sender existing_client)\<rparr>
    | None \<Rightarrow> s\<lparr>cb_client := Some (client_new (cb_now s) uuid local_addr (ck_title (cb_config s)) sender)\<rparr>)
    = (\<lambda>s. s\<lparr>cb_client := Some (case cb_client s of Some c \<Rightarrow> set_sender sender c
      | None \<Rightarrow> client_new (cb_now s) uuid local_addr (ck_title (cb_config s)) sender)\<rparr>)" for sender uuid local_addr
    by (auto simp: fun_eq_iff split: option.split)
  show ?thesis unfolding quic_connect_def connect_def A ..
qed

lemma py_command_round_trip [simp]: "py_command_from (py_command_into c) = c" "py_command_into (py_command_from r) = r"
  by (cases c; simp) (cases r; simp)

lemma py_data_round_trip:
  assumes "fits title data"
  shows "py_data_command (py_data_new c title data) = Inr c" "rd_title (py_data_new c title data) = Inr title"
    "rd_data (py_data_new c title data) = Inr data" "py_data_retcode (py_data_new c title data) = Inr PySuccess"
  using rd_new_ok[OF assms, of "py_command_into c"]
  by (simp_all add: py_data_new_def py_data_command_def py_data_retcode_def rbind_def)

text \<open>A configuration made in Python for a well-formed address reaches the client library as it was made.\<close>

lemma py_config_kept:
  assumes "addr_parse a = Some x"
  shows "\<exists>c. into_rust_config (with_max_buffer_size m (with_max_reconnect_attempts n (with_pong_wait w (with_idle_timeout i
      (py_config_new a p t))))) = Inr c \<and> ck_protocol c = p \<and> ck_server_addr c = x \<and> ck_title c = t \<and> ck_idle_timeout c = i
    \<and> ck_pong_wait c = w \<and> ck_max_reconnect_attempts c = n \<and> ck_max_buffer_size c = m"
  using assms
  by (simp add: into_rust_config_def py_config_new_def with_idle_timeout_def with_pong_wait_def with_max_reconnect_attempts_def
      with_max_buffer_size_def client_config_new_def)

text \<open>
  Closing a Python client that was connected: the object forgets the client, so every send fails; the
  client is disconnected and told to shut down; the handler's thread finds the flag cleared at its next
  test. Closing waits exactly when the thread is alive and the channel full.
\<close>

lemma tcp_closed: "connection_state (snd (tcp_close s)) = Disconnected" "cb_shutdown (snd (tcp_close s))"
  by (simp_all add: tcp_close_def smod_def connection_state_def state_from_u8_def state_as_u8.simps)

lemma py_closed:
  assumes "py_close p = Some (p', h', s')"
  shows "fst (py_send E d p') = Inr (Inl ''Client not connected'')" "py_get_state p' = Inl ''Client not initialized''"
    "s' = Some s \<Longrightarrow> connection_state s = Disconnected \<and> cb_shutdown s" "h' = Some h \<Longrightarrow> \<not> ph_running h"
  using assms
  by (auto simp: py_close_def py_send_def py_get_state_def py_shutdown_def py_enqueue_def tcp_closed split: option.splits if_splits)

lemma py_close_waits:
  "py_close p = None \<longleftrightarrow> (\<exists>h. pc_handler p = Some h \<and> ph_thread h \<noteq> Gone \<and> CHANNEL_BOUND \<le> length (ph_queue h))"
  by (auto simp: py_close_def py_shutdown_def py_enqueue_def split: option.splits if_splits)

text \<open>No binding can ask for acknowledgements.\<close>

lemma bindings_never_acknowledge:
  "into_rust_config p = Inr c \<Longrightarrow> \<not> ck_ack_enabled c" "jni_config j = Inr c \<Longrightarrow> \<not> ck_ack_enabled c"
  by (auto simp: into_rust_config_def jni_config_def client_config_new_def split: option.splits if_splits)

text \<open>The native functions themselves do not guard a handle that was closed.\<close>

lemma jni_close_frees:
  assumes "h \<noteq> 0" "bs h = Some s"
  shows "fst (jni_send E h c t d (snd (jni_close h bs))) = Dangling" "fst (jni_close h (snd (jni_close h bs))) = Dangling"
  using assms by (simp_all add: jni_close_def jni_send_def jni_send_frame_def)

definition java_ok :: "java_client \<times> boxes \<Rightarrow> bool" where
  "java_ok = (\<lambda>(j, bs). jv_client j = 0 \<or> (jv_closed j = Some False \<and> bs (jv_client j) \<noteq> None))"

lemma jni_send_frame_alive:
  "bs h \<noteq> None \<Longrightarrow> h \<noteq> 0 \<Longrightarrow> fst (jni_send_frame E e h d bs) \<noteq> Dangling \<and> snd (jni_send_frame E e h d bs) h \<noteq> None"
  by (auto simp: jni_send_frame_def split: prod.splits sum.splits if_splits)

lemma java_run_ok:
  assumes "java_ok st"
  shows "fst (java_run E call st) \<noteq> Dangling \<and> java_ok (snd (java_run E call st))"
proof -
  obtain j bs where st: "st = (j, bs)" by (cases st)
  note alive = jni_send_frame_alive[of bs "jv_client j" E]
  show ?thesis
  proof (cases "jv_client j = 0")
    case True
    then show ?thesis using assms
      by (cases call) (auto simp: java_run_def st java_ok_def ensure_open_def split: option.splits bool.splits)
  next
    case False
    then have o: "ensure_open j = None" "bs (jv_client j) \<noteq> None" "jv_closed j = Some False" using assms by (auto simp: st java_ok_def ensure_open_def)
    show ?thesis
    proof (cases call)
      case (JSend c t d)
      then show ?thesis using o False alive
        by (auto simp: java_run_def st java_ok_def jni_send_def split: prod.splits) (metis fst_conv, metis snd_conv option.distinct(1))
    next
      case (JRegisterTitle t)
      then show ?thesis using o False alive
        by (auto simp: java_run_def st java_ok_def jni_register_title_def split: prod.splits) (metis fst_conv, metis snd_conv option.distinct(1))
    next
      case (JDeleteTitle t)
      then show ?thesis using o False alive
        by (auto simp: java_run_def st java_ok_def jni_delete_title_def split: prod.splits) (metis fst_conv, metis snd_conv option.distinct(1))
    qed (use o False in \<open>auto simp: java_run_def st java_ok_def jni_connection_state_def jni_client_id_def jni_close_def\<close>)
  qed
qed

subsection \<open>The callback thread\<close>

fun enqueued :: "py_event list \<Rightarrow> py_message list" where
  "enqueued [] = []"
| "enqueued (Enqueued m # es) = m # enqueued es"
| "enqueued (_ # es) = enqueued es"

text \<open>\<open>xs\<close> is what has been enqueued so far.\<close>

definition handler_ok :: "py_message list \<Rightarrow> py_handler \<Rightarrow> bool" where
  "handler_ok xs h \<longleftrightarrow> (if ph_thread h = Gone then prefix (ph_calls h) xs else ph_calls h @ ph_queue h = xs)"

lemma py_handler_step_ok:
  assumes "handler_ok xs h" "py_handler_step e h = Some h'"
  shows "handler_ok (xs @ enqueued [e]) h'"
  using assms
  by (cases e; cases "ph_thread h"; cases "ph_queue h"; cases "hd (ph_queue h)")
    (auto simp: handler_ok_def py_handler_step_def py_enqueue_def py_thread_step_def split: if_splits)

lemma enqueued_append: "enqueued (es @ es') = enqueued es @ enqueued es'"
  by (induction es rule: enqueued.induct) auto

lemma py_handler_run_ok: "handler_ok xs h \<Longrightarrow> py_handler_run es h = Some h' \<Longrightarrow> handler_ok (xs @ enqueued es) h'"
proof (induction es arbitrary: xs h)
  case (Cons e es)
  then obtain h1 where h1: "py_handler_step e h = Some h1" "py_handler_run es h1 = Some h'" by (auto split: option.splits)
  from Cons(1)[OF py_handler_step_ok[OF Cons(2) h1(1)] h1(2)] show ?case
    using enqueued_append[of "[e]" es] by simp
qed simp

text \<open>After the flag is cleared: calls are made only by a thread that is past its test.\<close>

definition calls_left :: "py_handler \<Rightarrow> nat" where
  "calls_left h = (if ph_thread h = AtRecv then 1 else 0)"

lemma py_handler_step_stopped:
  assumes "\<not> ph_running h" "py_handler_step e h = Some h'"
  shows "\<not> ph_running h' \<and> length (ph_calls h') + calls_left h' \<le> length (ph_calls h) + calls_left h"
  using assms
  by (cases e; cases "ph_thread h"; cases "ph_queue h"; cases "hd (ph_queue h)")
    (auto simp: calls_left_def py_handler_step_def py_enqueue_def py_thread_step_def split: if_splits)

lemma py_handler_run_stopped:
  "\<not> ph_running h \<Longrightarrow> py_handler_run es h = Some h' \<Longrightarrow> length (ph_calls h') + calls_left h' \<le> length (ph_calls h) + calls_left h"
proof (induction es arbitrary: h)
  case (Cons e es)
  then obtain h1 where h1: "py_handler_step e h = Some h1" "py_handler_run es h1 = Some h'" by (auto split: option.splits)
  from py_handler_step_stopped[OF Cons(2) h1(1)] Cons(1)[OF _ h1(2)] show ?case by auto
qed simp

subsection \<open>Stamps\<close>

lemma length_u128_be [simp]: "length (u128_be w) = 16"
  by (simp add: u128_be_def u128_le_def)

lemma timestamp_stamped [simp]: "timestamp (u128_be now @ rest) = Some now"
  by (simp add: timestamp_def TS_LEN_def) (simp add: u128_be_def)

lemma rd_stamp_layout:
  assumes "length t < 256" "16 \<le> length d"
  shows "rd_stamp now (layout h t d) = Inr (layout h t (u128_be now @ drop 16 d))"
  using assms
  by (simp add: rd_stamp_def rd_data_offset_def rd_title_len_def wire_consts nth_layout unat_word_of_nat_small TS_LEN_def)
    (simp add: layout_def write_at_def drop_Cons' algebra_simps)

section \<open>Properties\<close>

text \<open>
  C40: The Python application is called for the messages in the order they arrive, none twice and none skipped: what was called
  and what is queued is everything handed over, as long as the thread lives. But once \<open>shutdown\<close> has cleared the flag at most one
  further message is delivered, however many are queued, although the thread is meant to leave only after the pending ones.
\<close>

theorem py_callbacks:
  assumes "py_handler_run es py_handler_new = Some h"
  shows "prefix (ph_calls h) (enqueued es)
    \<and> (ph_thread h \<noteq> Gone \<longrightarrow> ph_calls h @ ph_queue h = enqueued es)
    \<and> (\<forall>es' h'. \<not> ph_running h \<and> py_handler_run es' h = Some h' \<longrightarrow> length (ph_calls h') \<le> length (ph_calls h) + 1)"
proof -
  have "handler_ok [] py_handler_new" by (simp add: handler_ok_def py_handler_new_def)
  from py_handler_run_ok[OF this assms] have "handler_ok (enqueued es) h" by simp
  moreover have "length (ph_calls h') \<le> length (ph_calls h) + 1" if "\<not> ph_running h" "py_handler_run es' h = Some h'" for es' h'
    using py_handler_run_stopped[OF that] by (simp add: calls_left_def split: if_splits)
  ultimately show ?thesis by (auto simp: handler_ok_def split: if_splits dest: sym)
qed

text \<open>
  C39: A Java program that uses the \<open>RexClient\<close> it constructed, from one thread, never reaches the client through a handle whose
  box was freed, whatever methods it calls in whatever order, closing included. The other object with the same handle,
  the one the callbacks are given, is not covered: once the program has closed its own, asking the callbacks' object
  for the connection state does reach the freed box.
\<close>

theorem java_handles_safe:
  assumes "jni_init E config now a bs = (Done a, bs')" "a \<noteq> 0"
  shows "Dangling \<notin> set (fst (java_runs E calls (java_object a, bs')))
    \<and> fst (java_run E JConnectionState (callback_object a, snd (snd (java_run E JClose (java_object a, bs'))))) = Dangling"
proof -
  have a: "bs' a \<noteq> None" using assms(1) by (auto simp: jni_init_def split: sum.splits prod.splits bool.splits)
  then have "fst (java_run E JConnectionState (callback_object a, snd (snd (java_run E JClose (java_object a, bs'))))) = Dangling"
    using assms(2) by (auto simp: java_run_def java_object_def callback_object_def jni_close_def jni_connection_state_def)
  moreover from a have "java_ok (java_object a, bs')" by (simp add: java_ok_def java_object_def)
  moreover have "java_ok st \<Longrightarrow> Dangling \<notin> set (fst (java_runs E calls st))" for st
  proof (induction calls arbitrary: st)
    case (Cons c cs)
    obtain x st' where x: "java_run E c st = (x, st')" by (cases "java_run E c st")
    from java_run_ok[OF Cons(2), of E c] Cons(1)[of st'] show ?case by (auto simp: x split: prod.splits)
  qed simp
  ultimately show ?thesis by blast
qed

text \<open>
  A message stamped by the load generator measures its latency: the stamp leaves a well-formed frame of the same command, title
  and length, and a receiver records the time since the stamp, 0 if its clock is behind; a payload of fewer than 16 bytes
  stops the generator.
\<close>

theorem bench_measures:
  assumes "frame_ok d" "m_command (view d) \<in> {Title, Group, Cast}" "sint cnt < 2 ^ 31 - 1"
  shows "if length (m_data (view d)) < 16 then bench_turn dbg True t (cnt, d) = Inl IndexPanic
    else \<exists>d'. bench_turn dbg True t (cnt, d) = Inr (cnt + 1, d') \<and> frame_ok d'
      \<and> view d' = (view d)\<lparr>m_data := u128_be t @ drop 16 (m_data (view d))\<rparr>
      \<and> recv_handle True now d' = Inr (Some (ucast (sat_sub now t)))"
  using assms(1)
proof (rule frame_ok_obtain)
  fix h b p
  assume d: "d = layout h b p" and l: "length b < 256" "unat (h_total_len h) = 37 + length b + length p"
  show ?thesis
  proof (cases "length p < 16")
    case True
    then show ?thesis using assms(3) l
      by (simp add: d view_layout bench_turn_def rd_stamp_def rd_data_offset_def rd_title_len_def wire_consts nth_layout
          unat_word_of_nat_small TS_LEN_def rbind_def)
  next
    case False
    let ?d = "layout h b (u128_be t @ drop 16 p)"
    have "frame_ok ?d" using l False by (intro frame_ok_layout) simp_all
    moreover have "bench_turn dbg True t (cnt, d) = Inr (cnt + 1, ?d)"
      using assms(3) l False by (simp add: bench_turn_def d rd_stamp_layout rbind_def)
    moreover have "view ?d = (view d)\<lparr>m_data := u128_be t @ drop 16 (m_data (view d))\<rparr>"
      using l by (simp add: d view_layout)
    moreover from this have "m_command (view ?d) \<in> {Title, Group, Cast}" "m_data (view ?d) = u128_be t @ drop 16 p"
      using assms(2) l by (simp_all add: d view_layout)
    ultimately show ?thesis using False l by (auto simp: d view_layout recv_handle_def rbind_def)
  qed
qed

section \<open>Witnesses\<close>

theorem py_callbacks_witness:
  "\<exists>h. py_handler_run [Enqueued (DataMsg check0), Enqueued (DataMsg check0), FlagCleared, Enqueued ShutdownMsg, ThreadMoved] py_handler_new = Some h
    \<and> ph_calls h = [] \<and> (\<forall>es' h'. py_handler_run es' h = Some h' \<longrightarrow> length (ph_calls h') \<le> 1)"
proof -
  let ?es = "[Enqueued (DataMsg check0), Enqueued (DataMsg check0), FlagCleared, Enqueued ShutdownMsg, ThreadMoved]"
  let ?h = "\<lparr>ph_queue = [DataMsg check0, DataMsg check0, ShutdownMsg], ph_running = False, ph_thread = Gone, ph_calls = []\<rparr>"
  have r: "py_handler_run ?es py_handler_new = Some ?h"
    by (simp add: py_handler_step_def py_enqueue_def py_thread_step_def py_handler_new_def CHANNEL_BOUND_def)
  from py_callbacks[OF r] r show ?thesis by (intro exI[of _ ?h]) simp
qed

definition cenv1 :: client_env where
  "cenv1 = \<lparr>ce_send = (\<lambda>k x b. True), ce_random = (\<lambda>k. 7), ce_connect = (\<lambda>k. Some (3, ([127, 0, 0, 1], 5000), 9))\<rparr>"

definition jconfig0 :: java_config where
  "jconfig0 = \<lparr>jc_protocol = 0, jc_host = ''127.0.0.1'', jc_port = 8881, jc_title = ''x'', jc_idle_timeout = 10, jc_pong_wait = 5,
     jc_max_reconnect_attempts = 5, jc_max_buffer_size = 65536\<rparr>"

lemma connect1: "\<exists>s. connect cenv1 (base_new c 0) = (Inr True, s)"
  by (simp add: connect_def cb_login_def send_data_with_client_def login_frame_eq cenv1_def base_new_def set_connection_state_def self_send_def
      sbind_def sget_def slift_def sret_def srun_def smod_def Let_def)

lemma init1: "\<exists>bs. jni_init cenv1 jconfig0 0 64 (\<lambda>_. None) = (Done 64, bs)"
proof -
  have "decimal 8881 = ''8881''" by (simp add: decimal.simps[of 8881] decimal.simps[of 888] decimal.simps[of 88] decimal.simps[of 8]) code_simp
  then have p: "jint_show 8881 = ''8881''" by (simp add: jint_show_def)
  have a: "addr_parse ''127.0.0.1:8881'' = Some ([127, 0, 0, 1], 8881)"
    by (simp add: addr_parse_def read_number_def is_digit_def digits_val_def)
  obtain c where c: "jni_config jconfig0 = Inr c" "ck_protocol c = Tcp"
    using a by (simp add: jni_config_def jconfig0_def p jni_protocol_def client_config_new_def)
  obtain s where s: "connect cenv1 (base_new c 0) = (Inr True, s)" using connect1 by blast
  have "open_client cenv1 c 0 = (Inr True, s)"
    by (simp add: open_client_def c client_open_def connect_with_retry_def sbind_def sget_def s)
  then show ?thesis by (simp add: jni_init_def c)
qed

theorem java_handles_safe_witness:
  "\<exists>bs. jni_init cenv1 jconfig0 0 64 (\<lambda>_. None) = (Done 64, bs)
    \<and> Dangling \<notin> set (fst (java_runs cenv1 [JConnectionState, JClose, JSend None None None, JClose] (java_object 64, bs)))
    \<and> fst (java_run cenv1 JConnectionState (callback_object 64, snd (snd (java_run cenv1 JClose (java_object 64, bs))))) = Dangling"
proof -
  obtain bs where b: "jni_init cenv1 jconfig0 0 64 (\<lambda>_. None) = (Done 64, bs)" using init1 by blast
  have "(64 :: u64) \<noteq> 0" by simp
  from java_handles_safe[OF b this] b show ?thesis by blast
qed

theorem bench_measures_witness:
  "\<exists>d'. bench_turn True True 1000 (0, rd_new Cast ''x'' (replicate 20 0)) = Inr (1, d') \<and> recv_handle True 1250 d' = Inr (Some 250)"
proof -
  have f: "fits ''x'' (replicate 20 0)" by (simp add: fits_def)
  note ok = rd_new_ok[OF f, of Cast]
  have s: "ucast (sat_sub 1250 (1000 :: u128)) = (250 :: u64)" by (simp add: sat_sub_def)
  have "frame_ok (rd_new Cast ''x'' (replicate 20 0))" "m_command (view (rd_new Cast ''x'' (replicate 20 0))) \<in> {Title, Group, Cast}" "sint (0 :: 32 word) < 2 ^ 31 - 1"
    using ok by simp_all
  from bench_measures[OF this, of True 1000 1250] show ?thesis unfolding ok(2) by (auto simp: s)
qed

end
