(* ===== verification/Spec2Isabelle.thy ===== *)
theory Spec2Isabelle
  imports ClusterProps Forwarding Histories Admin Bindings
begin

text \<open>
  A verification library for rex mq, a message broker written in Rust: clients connect to a server,
  subscribe to titles, and send messages to one subscriber of a title (\<^verbatim>\<open>Title\<close>), to the subscribers in
  turn (\<^verbatim>\<open>Group\<close>) or to all of them (\<^verbatim>\<open>Cast\<close>). Servers keep messages and sessions in a sled database and
  can form a cluster that spreads titles over nodes by consistent hashing.

  \<^bold>\<open>Parts and theories.\<close> Paths are below \<^verbatim>\<open>src/crates\<close>, those of the bindings below \<^verbatim>\<open>src\<close>.

  \<^item> \<^verbatim>\<open>Prelude\<close>: bytes and machine integers, the association-list maps that stand for \<^verbatim>\<open>DashMap\<close> (with the
    contract \<open>hash_map\<close>), the error-and-state monad in which stateful code is written.
  \<^item> \<^verbatim>\<open>Wire\<close> (\<^verbatim>\<open>rex-core/src/protocol\<close>): the frame \<^verbatim>\<open>RexData\<close> as the bytes it is, its accessors and setters,
    \<^verbatim>\<open>try_deserialize\<close>, acknowledgement frames. The abstract message is \<open>view\<close>; the contract of a header
    field is the locale \<open>head_field\<close>, interpreted for each of the five fields.
  \<^item> \<^verbatim>\<open>Streams\<close>: byte streams of frames, the locale \<open>frame_reader\<close> of a loop that cuts frames off a buffer, and
    \<open>stream_mux\<close> for a connection of several streams; both are interpreted for server and client.
  \<^item> \<^verbatim>\<open>Client\<close>, \<^verbatim>\<open>Registry\<close> (\<^verbatim>\<open>rex-core/src/client.rs\<close>, \<^verbatim>\<open>rex-server/src/system/client_registry.rs\<close>): client
    objects on a heap, because several maps share them, and the registry with its id and title indexes.
  \<^item> \<^verbatim>\<open>AckTracker\<close>, \<^verbatim>\<open>HashRing\<close>, \<^verbatim>\<open>RouteTable\<close>: pending acknowledgements, the consistent-hash ring, the global
    route table (\<^verbatim>\<open>rex-server/src/system/ack.rs\<close>, \<^verbatim>\<open>rex-cluster/src\<close>).
  \<^item> \<^verbatim>\<open>Persistence\<close>, \<^verbatim>\<open>Bincode\<close>, \<^verbatim>\<open>Storage\<close> (\<^verbatim>\<open>rex-persistence\<close>): the offline queues and the client rows over
    a key-value store. The store is the locale \<open>sled_db\<close>; an in-memory store interprets it, and a fixed
    width codec shows that the hypotheses on bincode can hold.
  \<^item> \<^verbatim>\<open>NetAddr\<close>, \<^verbatim>\<open>Cluster\<close>, \<^verbatim>\<open>ClusterProps\<close> (\<^verbatim>\<open>rex-cluster/src/transport.rs\<close>, \<^verbatim>\<open>node.rs\<close>): framing, connections and
    membership between nodes.
  \<^item> \<^verbatim>\<open>Services\<close>, \<^verbatim>\<open>Forwarder\<close>, \<^verbatim>\<open>Handlers\<close> (\<^verbatim>\<open>rex-server/src\<close>): the server's state as one record \<open>world\<close>, the
    ports, the forwarder and the cluster manager, every command handler, the connection driver, the
    janitor, \<^verbatim>\<open>build_services\<close> and the restoring of sessions.
  \<^item> \<^verbatim>\<open>Steps\<close>: the histories of a server as an inductive relation \<open>server_step\<close>: frames, accepts, hang-ups,
    janitor rounds, cluster messages, admin requests, the clock (which may be set back).
  \<^item> \<^verbatim>\<open>Delivery\<close>, \<^verbatim>\<open>Connection\<close>, \<^verbatim>\<open>Routing\<close>, \<^verbatim>\<open>Sessions\<close>, \<^verbatim>\<open>Forwarding\<close>: what the handlers do, by weakest
    preconditions over the monad.
  \<^item> \<^verbatim>\<open>Histories\<close>: the histories again, frame by frame, with the effect of every event on an abstract map from
    ids to sets of titles. A client is \<open>polite\<close> when it logs in once per connection under an id of its own
    and registers one title at a time; the theory shows what the server promises to polite clients.
  \<^item> \<^verbatim>\<open>Config\<close> (\<^verbatim>\<open>rex-config\<close>, \<^verbatim>\<open>rex-server/src/config.rs\<close>, \<^verbatim>\<open>rex-cli\<close>): schema, validation, override layers,
    loader and what \<^verbatim>\<open>start_server\<close> makes of them.
  \<^item> \<^verbatim>\<open>Admin\<close> (\<^verbatim>\<open>rex-observability\<close>): health probes and admin routes over the server's state.
  \<^item> \<^verbatim>\<open>ClientLib\<close> (\<^verbatim>\<open>rex-client/src\<close>): the client library as a record \<open>client_base\<close>, with sending, receiving, login,
    acknowledgements, heartbeat and reconnecting over TCP, each task by its steps.
  \<^item> \<^verbatim>\<open>Transports\<close> (\<^verbatim>\<open>rex-server/src/transport\<close>, \<^verbatim>\<open>rex-client/src/transport\<close>): the accept loops with their connection
    permits as state machines (the locales \<open>permit_listener\<close> and \<open>deaf_listener\<close> are what they have in common), and the
    WebSocket and QUIC connections on both sides.
  \<^item> \<^verbatim>\<open>Bindings\<close> (\<^verbatim>\<open>bindings\<close>, \<^verbatim>\<open>rex-cli/src/main.rs\<close>): the Python binding with its callback thread, the Java binding with its
    native handles, the load generator and its receiver.

  \<^bold>\<open>What the theorems show.\<close> Frames read back as written, through every setter, and a stream is handled
  frame by frame however its bytes arrive, on both sides, on each of several QUIC streams and between
  nodes; a WebSocket connection without pings is served as a TCP connection. Every well-formed frame is
  handled without a panic but one kind, which is named. The registry's indexes stay consistent and refine
  a map from ids to sets of titles, for the registry's operations and for whole histories of the server
  with polite clients. A cast reaches exactly the reachable subscribers, a title message one, group
  messages go round; an acknowledgement returns once to its caster, also through the two client
  libraries. The offline queue refines a map of bounded lists; a login under a free id sends and clears
  it, registers the client and survives a restart. The ring assigns every title to a live node, depends
  only on the nodes in it, up to points two nodes share, and moves only the titles of a node that leaves;
  the hash is keyed per process, so nothing is said of the rings of two nodes. The forwarder queues a
  message at most once; a message to a remote title reaches one subscriber there if the forwarder's slots
  are filled, and in a server as built they never are. The loader gives
  every setting from its highest layer, within range. The admin routes change nothing without the
  token. A server never runs more connections than its limit. A client reconnects at known times and gives up after
  a known number of attempts. A Python application is called for its messages in order, and a Java program that keeps to
  the object it constructed never uses a freed handle. Several theorems state what the code does where that differs from what its comments or its
  other parts expect: they are marked in their text.

  \<^bold>\<open>Modelling.\<close> Machine integers have their width. A frame access the source can get wrong returns a
  \<open>fault\<close>. Third-party code is a parameter: sled, bincode, the cluster codec and the hash in the record
  \<open>env\<close>, files, variables and the TOML parser in \<open>host\<close>; the client's sockets are in \<open>client_env\<close>. Outcomes of sends, connects and random choices
  are functions of a position that every operation advances. Maps are association lists, so an iteration order is
  some order. The clock moves between operations and not inside one. Parse loops have fuel one more
  than the buffer's length, and every frame takes at least a byte, so that it never runs out (\<^verbatim>\<open>Streams\<close>).
  Handlers run one after the other: the interleaving of handlers at their await points is not modelled.

  \<^bold>\<open>Not modelled.\<close> Sockets, TLS, certificates and the QUIC and WebSocket protocols themselves, which are third-party
  code: what they deliver is a list of events. What the closing of the QUIC client and of the
  QUIC server does beyond the other transports, which are calls of the endpoint. Metrics and logging, which
  no other part reads. The objects of Python and Java: how fields are read, methods called and exceptions raised,
  and with them the Java handler thread. Parsing of flags, printing and the timers of the terminal program. Tests.
\<close>

end
